theory Spec2Isabelle
  imports Complex_Main
begin

section \<open>ADH Rigging Tools: the operators of \<^verbatim>\<open>rigging_tools.py\<close>\<close>

text \<open>
  The module defines eleven operators and one tool panel for a 3D application. Each
  operator's \<^verbatim>\<open>execute(self, context)\<close> reads references out of the context (selected
  objects, selected bones, the active object) and stores attributes on the objects they
  refer to. The embedding keeps that shape:

  \<^item> the host's data blocks live in a store: a function from an identity (a natural
    number) to the record of the object's attributes. A Python reference is the identity;
    an attribute store \<^verbatim>\<open>obj.attr = v\<close> is an update of the store at that identity. The
    value assigned is the value stored, except for the name of an object or of a bone,
    which the host adjusts (see the subsection on names);
  \<^item> the context is the part of the state that holds the references the host hands to
    the operator;
  \<^item> a Python exception that leaves \<^verbatim>\<open>execute\<close> is a value: the result of an operator is
    \<open>(Inl error, state)\<close> or \<open>(Inr status, state)\<close>, with the state as the run left it;
  \<^item> functions of the host and of other packages whose code is not part of the module
    (\<^verbatim>\<open>re.compile\<close>, \<^verbatim>\<open>re.sub\<close>, \<^verbatim>\<open>rigify.utils.obj_to_bone\<close>, the geometry a modifier
    produces when applied, the name the host makes of one that is taken) are parameters,
    collected in the record \<open>host\<close>;
  \<^item> coordinates are Python floats in the source and real numbers here: rounding is not
    modelled.
\<close>

subsection \<open>Errors and results\<close>

datatype py_error = ValueError | KeyError | AttributeError | TypeError | RuntimeError | re_error

datatype op_status = FINISHED | CANCELLED

type_synonym 'a py_result = "py_error + 'a"

subsection \<open>The host's data blocks\<close>

type_synonym vec3 = "real \<times> real \<times> real"

text \<open>A bone reference: the armature object and the position of the bone in it.\<close>

type_synonym bone_ref = "nat \<times> nat"

record modifier =
  name :: string
  type :: string
  show_viewport :: bool
  show_expanded :: bool
  object :: "nat option"

record vertex_group =
  name :: string
  weights :: "(nat \<times> real) list"

record constraint =
  type :: string
  owner_space :: string
  target_space :: string
  target :: "nat option"
  subtarget :: string

text \<open>
  One record holds a bone's attributes in both of its views: the edit bone (head, tail,
  roll, b-bone sizes, layers) and the pose bone (custom shape, constraints). The
  selection flag is shared by the two views.
\<close>

record bone =
  name :: string
  head :: vec3
  tail :: vec3
  roll :: real
  bbone_x :: real
  bbone_z :: real
  layers :: "bool list"
  select :: bool
  custom_shape :: "nat option"
  constraints :: "constraint list"

text \<open>Object data (\<^verbatim>\<open>obj.data\<close>): a name, mesh geometry and the shape keys' blocks.\<close>

record obdata =
  name :: string
  vertices :: "vec3 list"
  edges :: "(nat \<times> nat) list"
  faces :: "nat list list"
  shape_keys :: "string list option"

record object =
  name :: string
  type :: string
  layers :: "bool list"
  show_wire :: bool
  active_shape_key_index :: int
  data :: "nat option"
  modifiers :: "modifier list"
  vertex_groups :: "vertex_group list"
  pose :: "bone list option"
  location :: vec3
  rotation_euler :: vec3
  scale :: vec3

subsection \<open>The add-on's module-level data\<close>

datatype prop_def =
    BoolProperty string bool
  | FloatProperty string real real real
  | StringProperty string string
  | EnumProperty string "string list"
  | BoolVectorProperty string "bool list"

record addon_module =
  bl_info :: "(string \<times> string) list"
  scene_properties :: "(string \<times> prop_def) list"
  operator_properties :: "(string \<times> string \<times> prop_def) list"

subsection \<open>The state: store, context, user interface, module\<close>

record world =
  objects :: "nat \<Rightarrow> object"
  objects_len :: nat
  meshes :: "nat \<Rightarrow> obdata"
  meshes_len :: nat
  scene_objects :: "nat list"
  adh_regex_search_pattern :: string
  adh_regex_replacement_string :: string
  mode :: string
  selected_objects :: "nat list"
  selectable_objects :: "nat list"
  active_object :: "nat option"
  selected_pose_bones :: "bone_ref list option"
  selected_bones :: "bone_ref list option"
  active_pose_bone :: "bone_ref option"
  area :: "bool option"
  addon :: addon_module

text \<open>
  \<open>objects\<close> and \<open>meshes\<close> are \<^verbatim>\<open>bpy.data.objects\<close> and the object data blocks, the
  identities below \<open>objects_len\<close> and \<open>meshes_len\<close> being in use. \<open>scene_objects\<close> is
  \<^verbatim>\<open>context.scene.objects\<close>, the two strings are the scene's properties that the module
  registers, and \<open>mode\<close> to \<open>active_pose_bone\<close> are the attributes of \<^verbatim>\<open>context\<close> of the
  same names. \<open>area\<close> is \<^verbatim>\<open>context.area\<close>, a part of the user interface and not of
  the scene: \<open>None\<close> when the operator runs without an area (\<^verbatim>\<open>context.area\<close> is then
  \<^verbatim>\<open>None\<close>), and else the redraw tag of the area. \<open>addon\<close> is the module's own data.
\<close>

record 're host =
  re_compile :: "string \<Rightarrow> 're py_result"
  re_sub :: "'re \<Rightarrow> string \<Rightarrow> string \<Rightarrow> string py_result"
  obj_to_bone :: "object \<Rightarrow> string \<Rightarrow> (vec3 \<times> vec3 \<times> vec3) py_result"
  modifier_geometry :: "modifier \<Rightarrow> obdata \<Rightarrow> obdata"
  id_unique_name :: "string list \<Rightarrow> string \<Rightarrow> string"
  bone_unique_name :: "string list \<Rightarrow> string \<Rightarrow> string"

subsection \<open>Names\<close>

text \<open>
  A name is the string of its bytes. The host keeps the names of the objects, and the
  names of the bones of one armature, different from each other, not empty and at most
  63 bytes long. A name that is assigned is first cut to 63 bytes. When what is left is
  not empty and no other item has it, it is stored as it is. Otherwise the host stores a
  name of its own making (a default for the empty name, a number appended or counted up
  until the name is free): the functions \<open>id_unique_name\<close>, for objects, and
  \<open>bone_unique_name\<close>, for bones, of the record \<open>host\<close>, applied to the names that are
  taken and to the name as cut. The names of modifiers and of object data, which no
  property below reads, are stored as they are given.
\<close>

definition stored_name :: "(string list \<Rightarrow> string \<Rightarrow> string) \<Rightarrow> string list \<Rightarrow> string \<Rightarrow> string" where
  "stored_name unique_name used n =
     (if n \<noteq> [] \<and> n \<notin> set used then n else unique_name used n)"

subsection \<open>Attribute stores through references\<close>

definition update_object :: "nat \<Rightarrow> (object \<Rightarrow> object) \<Rightarrow> world \<Rightarrow> world" where
  "update_object i f w = w\<lparr>objects := (objects w)(i := f (objects w i))\<rparr>"

definition update_mesh :: "nat \<Rightarrow> (obdata \<Rightarrow> obdata) \<Rightarrow> world \<Rightarrow> world" where
  "update_mesh i f w = w\<lparr>meshes := (meshes w)(i := f (meshes w i))\<rparr>"

definition pose_bones :: "object \<Rightarrow> bone list" where
  "pose_bones obj = (case pose obj of None \<Rightarrow> [] | Some bs \<Rightarrow> bs)"

definition get_bone :: "world \<Rightarrow> bone_ref \<Rightarrow> bone" where
  "get_bone w r = pose_bones (objects w (fst r)) ! snd r"

definition update_bone :: "bone_ref \<Rightarrow> (bone \<Rightarrow> bone) \<Rightarrow> world \<Rightarrow> world" where
  "update_bone r f w =
     update_object (fst r)
       (\<lambda>obj. obj\<lparr>pose := map_option (\<lambda>bs. bs[snd r := f (bs ! snd r)]) (pose obj)\<rparr>) w"

text \<open>A \<^verbatim>\<open>for\<close> loop over references whose body stores into the object referred to.\<close>

definition for_objects :: "nat list \<Rightarrow> (object \<Rightarrow> object) \<Rightarrow> world \<Rightarrow> world" where
  "for_objects ids f w = fold (\<lambda>i. update_object i f) ids w"

definition for_bones :: "bone_ref list \<Rightarrow> (bone \<Rightarrow> bone) \<Rightarrow> world \<Rightarrow> world" where
  "for_bones rs f w = fold (\<lambda>r. update_bone r f) rs w"

text \<open>A bone reference is valid when its object has a pose and the position is one of its bones.\<close>

definition valid_bone :: "world \<Rightarrow> bone_ref \<Rightarrow> bool" where
  "valid_bone w r \<longleftrightarrow> snd r < length (pose_bones (objects w (fst r)))"

section \<open>ADH_AddSubdivisionSurfaceModifier\<close>

text \<open>
  \<^verbatim>\<open>obj.modifiers.new(name, type)\<close> appends a modifier, shown in the viewport and expanded
  in the panel as the host creates it; the operator then stores its own two settings.
\<close>

definition modifiers_new :: "string \<Rightarrow> string \<Rightarrow> modifier" where
  "modifiers_new n t =
     \<lparr>modifier.name = n, modifier.type = t, show_viewport = True, show_expanded = True,
      object = None\<rparr>"

definition set_subsurf :: "bool \<Rightarrow> modifier \<Rightarrow> modifier" where
  "set_subsurf self_show_viewport sm = sm\<lparr>show_viewport := self_show_viewport, show_expanded := False\<rparr>"

text \<open>
  The body of the loop over the meshes. \<open>sml\<close> holds references to the modifiers of type
  \<^verbatim>\<open>SUBSURF\<close>: their positions in the object's stack.
\<close>

definition add_subsurf_body :: "bool \<Rightarrow> object \<Rightarrow> object" where
  "add_subsurf_body self_show_viewport obj =
     (let sml = filter (\<lambda>k. modifier.type (modifiers obj ! k) = ''SUBSURF'')
                  [0..<length (modifiers obj)]
      in if sml = []
         then obj\<lparr>modifiers := modifiers obj @
                [set_subsurf self_show_viewport (modifiers_new ''Subsurf'' ''SUBSURF'')]\<rparr>
         else obj\<lparr>modifiers :=
                fold (\<lambda>k ms. ms[k := set_subsurf self_show_viewport (ms ! k)]) sml (modifiers obj)\<rparr>)"

definition ADH_AddSubdivisionSurfaceModifier_poll :: "world \<Rightarrow> bool" where
  "ADH_AddSubdivisionSurfaceModifier_poll w \<longleftrightarrow> mode w = ''OBJECT'' \<and> selected_objects w \<noteq> []"

definition ADH_AddSubdivisionSurfaceModifier_execute ::
    "bool \<Rightarrow> world \<Rightarrow> op_status py_result \<times> world" where
  "ADH_AddSubdivisionSurfaceModifier_execute self_show_viewport w =
     (let meshes' = filter (\<lambda>obj. object.type (objects w obj) = ''MESH'') (selected_objects w)
      in (Inr FINISHED, for_objects meshes' (add_subsurf_body self_show_viewport) w))"

section \<open>ADH_ApplyLattices\<close>

text \<open>
  The two host operators the class calls act on the active object.
  \<^verbatim>\<open>bpy.ops.object.shape_key_remove()\<close> removes the shape key at the object's active index,
  and the key data with the last one; \<^verbatim>\<open>bpy.ops.object.modifier_apply(modifier=name)\<close>
  replaces the object's geometry by what the named modifier produces and takes the
  modifier off the stack (a name that is not on the stack changes nothing).
\<close>

definition shape_key_remove :: "world \<Rightarrow> world" where
  "shape_key_remove w =
     (case active_object w of
        None \<Rightarrow> w
      | Some a \<Rightarrow>
          (case data (objects w a) of
             None \<Rightarrow> w
           | Some d \<Rightarrow>
               update_mesh d
                 (\<lambda>me. me\<lparr>shape_keys :=
                    (case shape_keys me of
                       None \<Rightarrow> None
                     | Some ks \<Rightarrow>
                         (let i = nat (active_shape_key_index (objects w a));
                              ks' = take i ks @ drop (Suc i) ks
                          in if ks' = [] then None else Some ks'))\<rparr>) w))"

fun remove_modifier :: "string \<Rightarrow> modifier list \<Rightarrow> modifier list" where
  "remove_modifier n [] = []"
| "remove_modifier n (m # ms) = (if modifier.name m = n then ms else m # remove_modifier n ms)"

definition modifier_apply :: "'re host \<Rightarrow> string \<Rightarrow> world \<Rightarrow> world" where
  "modifier_apply h n w =
     (case active_object w of
        None \<Rightarrow> w
      | Some a \<Rightarrow>
          (case find (\<lambda>m. modifier.name m = n) (modifiers (objects w a)) of
             None \<Rightarrow> w
           | Some m \<Rightarrow>
               (let w' = (case data (objects w a) of
                            None \<Rightarrow> w
                          | Some d \<Rightarrow> update_mesh d (modifier_geometry h m) w)
                in update_object a (\<lambda>obj. obj\<lparr>modifiers := remove_modifier n (modifiers obj)\<rparr>) w')))"

text \<open>
  \<^verbatim>\<open>poll\<close> reads \<^verbatim>\<open>context.active_object.type\<close> when the two tests before it hold; with
  no active object that is an \<^verbatim>\<open>AttributeError\<close>.
\<close>

definition ADH_ApplyLattices_poll :: "world \<Rightarrow> bool py_result" where
  "ADH_ApplyLattices_poll w =
     (if mode w = ''OBJECT'' \<and> selected_objects w \<noteq> []
      then (case active_object w of
              None \<Rightarrow> Inl AttributeError
            | Some a \<Rightarrow> Inr (object.type (objects w a) = ''MESH''))
      else Inr False)"


section \<open>ADH_CopyCustomShapes\<close>

text \<open>\<^verbatim>\<open>bones[name]\<close>: the position of the first bone of that name; no bone is a \<^verbatim>\<open>KeyError\<close>.\<close>

fun find_bone :: "bone list \<Rightarrow> string \<Rightarrow> nat option" where
  "find_bone [] n = None"
| "find_bone (b # bs) n = (if bone.name b = n then Some 0 else map_option Suc (find_bone bs n))"

definition ADH_CopyCustomShapes_poll :: "world \<Rightarrow> bool" where
  "ADH_CopyCustomShapes_poll w \<longleftrightarrow>
     (let non_armatures_selected =
            filter (\<lambda>t. t \<noteq> ''ARMATURE'') (map (\<lambda>ob. object.type (objects w ob)) (selected_objects w))
      in length (selected_objects w) \<ge> 2 \<and> non_armatures_selected = [])"

text \<open>
  The body of the two loops, for the bone at position \<open>j\<close> of the source armature and a
  destination armature. Whatever the assignment raises (an object without a pose, no bone
  of that name) is caught by the bare \<^verbatim>\<open>except\<close> and nothing is stored.
\<close>

definition copy_custom_shape :: "nat \<Rightarrow> nat \<Rightarrow> nat \<Rightarrow> world \<Rightarrow> world" where
  "copy_custom_shape src_armature j armature w =
     (let bone = pose_bones (objects w src_armature) ! j
      in case pose (objects w armature) of
           None \<Rightarrow> w
         | Some bs \<Rightarrow>
             (case find_bone bs (bone.name bone) of
                None \<Rightarrow> w
              | Some k \<Rightarrow> update_bone (armature, k) (\<lambda>b. b\<lparr>custom_shape := custom_shape bone\<rparr>) w))"

text \<open>
  \<^verbatim>\<open>context.selected_objects\<close> is a fresh Python list, and \<^verbatim>\<open>list.remove\<close> raises
  \<^verbatim>\<open>ValueError\<close> when the element (here the active object, possibly \<^verbatim>\<open>None\<close>) is not in it.
\<close>

definition ADH_CopyCustomShapes_execute :: "world \<Rightarrow> op_status py_result \<times> world" where
  "ADH_CopyCustomShapes_execute w =
     (case active_object w of
        None \<Rightarrow> (Inl ValueError, w)
      | Some src_armature \<Rightarrow>
          if src_armature \<notin> set (selected_objects w) then (Inl ValueError, w)
          else
            (let dst_armatures = remove1 src_armature (selected_objects w)
             in case pose (objects w src_armature) of
                  None \<Rightarrow> (Inl AttributeError, w)
                | Some bones \<Rightarrow>
                    (Inr FINISHED,
                     fold (\<lambda>j w. fold (copy_custom_shape src_armature j) dst_armatures w)
                       [0..<length bones] w)))"

section \<open>ADH_CreateCustomShape\<close>

record ADH_CreateCustomShape_props =
  widget_shape :: string
  widget_size :: real
  widget_pos :: real
  widget_prefix :: string
  widget_layers :: "bool list"

definition ADH_CreateCustomShape_poll :: "world \<Rightarrow> bool" where
  "ADH_CreateCustomShape_poll w \<longleftrightarrow> mode w = ''POSE'' \<and> active_pose_bone w \<noteq> None"

definition meshes_new :: "string \<Rightarrow> obdata" where
  "meshes_new n = \<lparr>obdata.name = n, vertices = [], edges = [], faces = [], shape_keys = None\<rparr>"

definition objects_new :: "string \<Rightarrow> nat \<Rightarrow> object" where
  "objects_new n mesh =
     \<lparr>object.name = n, object.type = ''MESH'', object.layers = map (\<lambda>x. x = 0) [0..<20],
      show_wire = False, active_shape_key_index = 0, data = Some mesh, modifiers = [],
      vertex_groups = [], pose = None, location = (0, 0, 0), rotation_euler = (0, 0, 0),
      scale = (1, 1, 1)\<rparr>"

text \<open>
  \<^verbatim>\<open>create_widget\<close>: \<^verbatim>\<open>obj_name in scene.objects\<close> asks whether an object of that name is
  linked to the scene. The new mesh and the new object take the next free identities, and
  the name of the new object is the name asked for as the host stores it among the
  objects of \<^verbatim>\<open>bpy.data.objects\<close>. The parameter \<^verbatim>\<open>bone_transform_name\<close> of the source is
  never read and is left out.
\<close>

definition create_widget ::
    "'re host \<Rightarrow> ADH_CreateCustomShape_props \<Rightarrow> nat option \<Rightarrow> string \<Rightarrow> world \<Rightarrow>
     nat option py_result \<times> world" where
  "create_widget h self rig bone_name w =
     (let obj_name = widget_prefix self @ bone_name
      in if obj_name \<in> set (map (\<lambda>ob. object.name (objects w ob)) (scene_objects w))
         then (Inr None, w)
         else
           (let mesh = meshes_len w;
                obj = objects_len w;
                w1 = w\<lparr>meshes := (meshes w)(mesh := meshes_new obj_name), meshes_len := Suc mesh\<rparr>;
                used = map (\<lambda>ob. object.name (objects w1 ob)) [0..<objects_len w1];
                w2 = w1\<lparr>objects :=
                          (objects w1)
                            (obj := objects_new
                                      (stored_name (id_unique_name h) used (take 63 obj_name)) mesh),
                        objects_len := Suc obj\<rparr>;
                w3 = w2\<lparr>scene_objects := scene_objects w2 @ [obj]\<rparr>
            in case rig of
                 None \<Rightarrow> (Inl AttributeError, w3)
               | Some r \<Rightarrow>
                   (case obj_to_bone h (objects w3 r) bone_name of
                      Inl e \<Rightarrow> (Inl e, w3)
                    | Inr (loc, rot, scl) \<Rightarrow>
                        (let w4 = update_object obj
                                    (\<lambda>ob. ob\<lparr>location := loc, rotation_euler := rot, scale := scl\<rparr>) w3;
                             w5 = update_object obj (\<lambda>ob. ob\<lparr>object.layers := widget_layers self\<rparr>) w4
                         in (Inr (Some obj), w5)))))"

text \<open>
  \<^verbatim>\<open>mesh.from_pydata(verts, edges, faces)\<close> on the mesh of the widget, which is new and
  empty. \<^verbatim>\<open>mesh.update()\<close> recomputes what the host derives from the geometry and
  stores nothing that is modelled.
\<close>

definition from_pydata ::
    "nat \<Rightarrow> vec3 list \<Rightarrow> (nat \<times> nat) list \<Rightarrow> nat list list \<Rightarrow> world \<Rightarrow> world" where
  "from_pydata obj verts es fs w =
     (case data (objects w obj) of
        None \<Rightarrow> w
      | Some mesh \<Rightarrow> update_mesh mesh (\<lambda>me. me\<lparr>vertices := verts, edges := es, faces := fs\<rparr>) w)"

subsection \<open>The widget tables\<close>

text \<open>
  The three lists of each \<^verbatim>\<open>create_*_widget\<close>, as the source writes them; a literal in
  exponent notation is written out in full.
\<close>

definition sphere_verts :: "real \<Rightarrow> real \<Rightarrow> vec3 list" where
  "sphere_verts size' pos =
     [(- 0.3535533845424652 * size', - 0.3535533845424652 * size' + pos, 0.000000029802322387695312 * size'),
      (- 0.5 * size', 0.000000021855694143368964 * size' + pos, - 0.0000000000000017763568394002505 * size'),
      (- 0.3535533845424652 * size', 0.3535533845424652 * size' + pos, - 0.000000029802322387695312 * size'),
      (0.00000004371138828673793 * size', 0.5 * size' + pos, - 0.000000029802322387695312 * size'),
      (- 0.24999994039535522 * size', - 0.3535533845424652 * size' + pos, 0.2500000596046448 * size'),
      (- 0.3535533845424652 * size', 0.00000005960464477539063 * size' + pos, 0.35355344414711 * size'),
      (- 0.24999994039535522 * size', 0.3535534143447876 * size' + pos, 0.2500000298023224 * size'),
      (0.00000007968597515173315 * size', - 0.3535534143447876 * size' + pos, 0.35355344414711 * size'),
      (0.00000008585823962903305 * size', 0.00000005960464477539063 * size' + pos, 0.5000001192092896 * size'),
      (0.00000007968597515173315 * size', 0.3535534143447876 * size' + pos, 0.3535533845424652 * size'),
      (0.25000008940696716 * size', - 0.3535533547401428 * size' + pos, 0.25 * size'),
      (0.35355350375175476 * size', 0.00000005960464477539063 * size' + pos, 0.3535533845424652 * size'),
      (0.25000008940696716 * size', 0.3535534143447876 * size' + pos, 0.2499999701976776 * size'),
      (0.3535534739494324 * size', - 0.3535534143447876 * size' + pos, - 0.000000029802322387695312 * size'),
      (0.5000001192092896 * size', 0.000000029802315282267955 * size' + pos, - 0.00000008429370268459024 * size'),
      (0.3535534739494324 * size', 0.3535533845424652 * size' + pos, - 0.00000008940696716308594 * size'),
      (0.2500000298023224 * size', - 0.35355344414711 * size' + pos, - 0.2500000596046448 * size'),
      (0.3535533845424652 * size', 0.0 * size' + pos, - 0.35355350375175476 * size'),
      (0.2500000298023224 * size', 0.35355332493782043 * size' + pos, - 0.25000011920928955 * size'),
      (- 0.00000004494675920341251 * size', - 0.35355344414711 * size' + pos, - 0.3535534143447876 * size'),
      (- 0.0000000827291728455748 * size', 0.0 * size' + pos, - 0.5 * size'),
      (- 0.00000004494675920341251 * size', 0.3535533845424652 * size' + pos, - 0.3535534739494324 * size'),
      (0.000000012802747306750462 * size', - 0.5 * size' + pos, 0.0 * size'),
      (- 0.25000008940696716 * size', - 0.35355344414711 * size' + pos, - 0.24999994039535522 * size'),
      (- 0.35355350375175476 * size', 0.0 * size' + pos, - 0.35355332493782043 * size'),
      (- 0.25000008940696716 * size', 0.35355332493782043 * size' + pos, - 0.25 * size')]"

definition sphere_edges :: "(nat \<times> nat) list" where
  "sphere_edges =
     [(0, 1), (1, 2), (2, 3), (4, 5), (5, 6), (2, 6), (0, 4), (5, 1),
      (7, 8), (8, 9), (6, 9), (5, 8), (7, 4), (10, 11), (11, 12), (9, 12),
      (10, 7), (11, 8), (13, 14), (14, 15), (12, 15), (13, 10), (14, 11), (16, 17),
      (17, 18), (15, 18), (16, 13), (17, 14), (19, 20), (20, 21), (18, 21), (16, 19),
      (20, 17), (22, 23), (23, 24), (24, 25), (21, 25), (20, 24), (23, 19), (22, 0),
      (22, 4), (6, 3), (22, 7), (9, 3), (22, 10), (12, 3), (22, 13), (15, 3),
      (22, 16), (18, 3), (22, 19), (21, 3), (25, 3), (25, 2), (0, 23), (1, 24)]"

definition sphere_faces :: "nat list list" where
  "sphere_faces =
     [[1, 0, 4, 5], [2, 1, 5, 6], [6, 5, 8, 9], [5, 4, 7, 8], [8, 7, 10, 11],
      [9, 8, 11, 12], [11, 10, 13, 14], [12, 11, 14, 15], [14, 13, 16, 17], [15, 14, 17, 18],
      [17, 16, 19, 20], [18, 17, 20, 21], [21, 20, 24, 25], [20, 19, 23, 24], [3, 2, 6],
      [0, 22, 4], [3, 6, 9], [4, 22, 7], [3, 9, 12], [7, 22, 10],
      [3, 12, 15], [10, 22, 13], [3, 15, 18], [13, 22, 16], [3, 18, 21],
      [16, 22, 19], [3, 21, 25], [19, 22, 23], [3, 25, 2], [23, 22, 0],
      [24, 23, 0, 1], [25, 24, 1, 2]]"

definition ring_verts :: "real \<Rightarrow> real \<Rightarrow> vec3 list" where
  "ring_verts size' pos =
     [(0.0 * size', pos, 1.0 * size'),
      (- 0.5 * size', pos, 0.8660253882408142 * size'),
      (- 0.866025447845459 * size', pos, 0.4999999701976776 * size'),
      (- 1.0 * size', pos, - 0.00000004371138828673793 * size'),
      (- 0.8660253882408142 * size', pos, - 0.5000000596046448 * size'),
      (- 0.5000000596046448 * size', pos, - 0.8660253882408142 * size'),
      (- 0.00000015099580252808664 * size', pos, - 1.0 * size'),
      (0.4999997913837433 * size', pos, - 0.8660255074501038 * size'),
      (0.8660252094268799 * size', pos, - 0.5000002980232239 * size'),
      (1.0 * size', pos, - 0.0000004649122899991198 * size'),
      (0.8660256862640381 * size', pos, 0.4999994933605194 * size'),
      (0.5000005960464478 * size', pos, 0.8660250902175903 * size')]"

definition ring_edges :: "(nat \<times> nat) list" where
  "ring_edges =
     [(1, 0), (2, 1), (3, 2), (4, 3), (5, 4), (6, 5), (7, 6), (8, 7),
      (9, 8), (10, 9), (11, 10), (0, 11)]"

definition ring_faces :: "nat list list" where
  "ring_faces =
     []"

definition box_verts :: "real \<Rightarrow> real \<Rightarrow> vec3 list" where
  "box_verts size' pos =
     [(- 0.5 * size', - 0.5 + pos, - 0.5 * size'),
      (- 0.5 * size', 0.5 + pos, - 0.5 * size'),
      (0.5 * size', 0.5 + pos, - 0.5 * size'),
      (0.5 * size', - 0.5 + pos, - 0.5 * size'),
      (- 0.5 * size', - 0.5 + pos, 0.5 * size'),
      (- 0.5 * size', 0.5 + pos, 0.5 * size'),
      (0.5 * size', 0.5 + pos, 0.5 * size'),
      (0.5 * size', - 0.5 + pos, 0.5 * size')]"

definition box_edges :: "(nat \<times> nat) list" where
  "box_edges =
     [(4, 5), (5, 1), (1, 0), (0, 4), (5, 6), (6, 2), (2, 1), (6, 7),
      (7, 3), (3, 2), (7, 4), (0, 3)]"

definition box_faces :: "nat list list" where
  "box_faces =
     [[4, 5, 1, 0], [5, 6, 2, 1], [6, 7, 3, 2], [7, 4, 0, 3], [0, 1, 2, 3],
      [7, 6, 5, 4]]"

text \<open>
  A literal vertex scaled by the size and moved along the second axis: what the claim
  says of every table; and the same with the second coordinate not scaled.
\<close>

definition scaled_offset :: "real \<Rightarrow> real \<Rightarrow> vec3 \<Rightarrow> vec3" where
  "scaled_offset size' pos v = (fst v * size', fst (snd v) * size' + pos, snd (snd v) * size')"

definition scaled_xz_offset :: "real \<Rightarrow> real \<Rightarrow> vec3 \<Rightarrow> vec3" where
  "scaled_xz_offset size' pos v = (fst v * size', fst (snd v) + pos, snd (snd v) * size')"

type_synonym 're create_widget_func =
  "'re host \<Rightarrow> ADH_CreateCustomShape_props \<Rightarrow> nat option \<Rightarrow> string \<Rightarrow> real \<Rightarrow> real \<Rightarrow> world \<Rightarrow>
   nat option py_result \<times> world"

definition create_sphere_widget :: "'re create_widget_func" where
  "create_sphere_widget h self rig bone_name size' pos w =
     (case create_widget h self rig bone_name w of
        (Inl e, w') \<Rightarrow> (Inl e, w')
      | (Inr None, w') \<Rightarrow> (Inr None, w')
      | (Inr (Some obj), w') \<Rightarrow>
          (Inr (Some obj), from_pydata obj (sphere_verts size' pos) sphere_edges sphere_faces w'))"

definition create_ring_widget :: "'re create_widget_func" where
  "create_ring_widget h self rig bone_name size' pos w =
     (case create_widget h self rig bone_name w of
        (Inl e, w') \<Rightarrow> (Inl e, w')
      | (Inr None, w') \<Rightarrow> (Inr None, w')
      | (Inr (Some obj), w') \<Rightarrow>
          (Inr (Some obj), from_pydata obj (ring_verts size' pos) ring_edges ring_faces w'))"

definition create_box_widget :: "'re create_widget_func" where
  "create_box_widget h self rig bone_name size' pos w =
     (case create_widget h self rig bone_name w of
        (Inl e, w') \<Rightarrow> (Inl e, w')
      | (Inr None, w') \<Rightarrow> (Inr None, w')
      | (Inr (Some obj), w') \<Rightarrow>
          (Inr (Some obj), from_pydata obj (box_verts size' pos) box_edges box_faces w'))"

text \<open>\<^verbatim>\<open>getattr(self, "create_%s_widget" % self.widget_shape)\<close>\<close>

definition getattr_create_widget :: "string \<Rightarrow> 're create_widget_func option" where
  "getattr_create_widget shape =
     (if shape = ''sphere'' then Some create_sphere_widget
      else if shape = ''ring'' then Some create_ring_widget
      else if shape = ''box'' then Some create_box_widget
      else None)"

definition ADH_CreateCustomShape_execute ::
    "'re host \<Rightarrow> ADH_CreateCustomShape_props \<Rightarrow> world \<Rightarrow> op_status py_result \<times> world" where
  "ADH_CreateCustomShape_execute h self w =
     (let rig = active_object w
      in case getattr_create_widget (widget_shape self) of
           None \<Rightarrow> (Inl AttributeError, w)
         | Some func \<Rightarrow>
             (case active_pose_bone w of
                None \<Rightarrow> (Inl AttributeError, w)
              | Some bone \<Rightarrow>
                  (case func h self rig (bone.name (get_bone w bone)) (widget_size self)
                          (widget_pos self) w of
                     (Inl e, w') \<Rightarrow> (Inl e, w')
                   | (Inr widget, w') \<Rightarrow>
                       (Inr FINISHED, update_bone bone (\<lambda>b. b\<lparr>custom_shape := widget\<rparr>) w'))))"

text \<open>The geometry of the mesh of an object.\<close>

definition widget_mesh :: "world \<Rightarrow> nat \<Rightarrow> (vec3 list \<times> (nat \<times> nat) list \<times> nat list list) option" where
  "widget_mesh w obj =
     (case data (objects w obj) of
        None \<Rightarrow> None
      | Some mesh \<Rightarrow> Some (vertices (meshes w mesh), edges (meshes w mesh), faces (meshes w mesh)))"

section \<open>ADH_CreateHookBones\<close>

text \<open>
  \<^verbatim>\<open>bpy.ops.object.mode_set(mode=m)\<close> switches the interaction mode of the active object.
  The context reports an armature in edit mode as \<^verbatim>\<open>EDIT_ARMATURE\<close>, and a mesh as
  \<^verbatim>\<open>EDIT_MESH\<close>. With the mode the host renews the selections the context offers:
  \<^verbatim>\<open>selected_bones\<close> in edit mode and \<^verbatim>\<open>selected_pose_bones\<close> in pose mode are the bones
  of the active armature whose selection flag is set. Only these transitions are
  modelled; any other request is an error.
\<close>

definition selected_refs :: "world \<Rightarrow> nat \<Rightarrow> bone_ref list" where
  "selected_refs w a =
     map (\<lambda>k. (a, k))
       (filter (\<lambda>k. select (pose_bones (objects w a) ! k)) [0..<length (pose_bones (objects w a))])"

definition enter_mode :: "string \<Rightarrow> nat \<Rightarrow> world \<Rightarrow> world" where
  "enter_mode m a w =
     w\<lparr>mode := m,
       selected_bones := (if m = ''EDIT_ARMATURE'' then Some (selected_refs w a) else None),
       selected_pose_bones := (if m = ''POSE'' then Some (selected_refs w a) else None)\<rparr>"

definition mode_set :: "string \<Rightarrow> world \<Rightarrow> world py_result" where
  "mode_set m w =
     (case active_object w of
        None \<Rightarrow> Inl RuntimeError
      | Some a \<Rightarrow>
          (let t = object.type (objects w a)
           in if m = ''OBJECT'' then Inr (enter_mode ''OBJECT'' a w)
              else if m = ''EDIT'' \<and> t = ''ARMATURE'' then Inr (enter_mode ''EDIT_ARMATURE'' a w)
              else if m = ''EDIT'' \<and> t = ''MESH'' then Inr (enter_mode ''EDIT_MESH'' a w)
              else if m = ''POSE'' \<and> t = ''ARMATURE'' then Inr (enter_mode ''POSE'' a w)
              else Inl TypeError))"

text \<open>
  \<^verbatim>\<open>edit_bones.new(name)\<close> and \<^verbatim>\<open>constraints.new(type)\<close> append an element with the
  host's defaults; a new bone is not selected. The name of the new bone is the name
  asked for as the host stores it among the bones the armature has: cut to 63 bytes,
  and changed when a bone has it already.
\<close>

definition edit_bones_new :: "'re host \<Rightarrow> bone list \<Rightarrow> string \<Rightarrow> bone" where
  "edit_bones_new h bones n =
     \<lparr>bone.name = stored_name (bone_unique_name h) (map bone.name bones) (take 63 n),
      head = (0, 0, 0), tail = (0, 0, 0), roll = 0, bbone_x = 0.1, bbone_z = 0.1,
      bone.layers = map (\<lambda>x. x = 0) [0..<32], select = False, custom_shape = None,
      constraints = []\<rparr>"

definition constraints_new :: "string \<Rightarrow> constraint" where
  "constraints_new t =
     \<lparr>constraint.type = t, owner_space = ''WORLD'', target_space = ''WORLD'', target = None,
      subtarget = []\<rparr>"

text \<open>\<^verbatim>\<open>poll\<close> reads \<^verbatim>\<open>context.active_object.type\<close>, whether or not there is an active object.\<close>

definition ADH_CreateHookBones_poll :: "world \<Rightarrow> bool py_result" where
  "ADH_CreateHookBones_poll w =
     (case active_object w of
        None \<Rightarrow> Inl AttributeError
      | Some a \<Rightarrow> Inr (object.type (objects w a) = ''ARMATURE''))"

text \<open>The body of the first loop: one hook for the edit bone \<open>r\<close>, added to armature \<open>a\<close>.\<close>

definition create_hook :: "'re host \<Rightarrow> bool list \<Rightarrow> nat \<Rightarrow> bone_ref \<Rightarrow> world \<Rightarrow> world" where
  "create_hook h self_hook_layers a r w =
     (let bone = get_bone w r;
          hook_name = ''hook-'' @ bone.name bone;
          hook = (edit_bones_new h (pose_bones (objects w a)) hook_name)
                   \<lparr>head := head bone, tail := tail bone, bbone_x := bbone_x bone / 2,
                    bbone_z := bbone_z bone / 2, bone.layers := self_hook_layers,
                    roll := roll bone\<rparr>
      in update_object a (\<lambda>obj. obj\<lparr>pose := Some (pose_bones obj @ [hook])\<rparr>) w)"

definition copy_transforms :: "nat \<Rightarrow> string \<Rightarrow> constraint" where
  "copy_transforms a bone_name =
     (constraints_new ''COPY_TRANSFORMS'')
       \<lparr>owner_space := ''LOCAL'', target_space := ''LOCAL'', target := Some a,
        subtarget := bone_name\<rparr>"

text \<open>The second loop; \<^verbatim>\<open>pose.bones['hook-%s' % bone.name]\<close> may raise \<^verbatim>\<open>KeyError\<close>.\<close>

fun constrain_hooks :: "nat \<Rightarrow> bone_ref list \<Rightarrow> world \<Rightarrow> py_error option \<times> world" where
  "constrain_hooks a [] w = (None, w)"
| "constrain_hooks a (r # rs) w =
     (let bone = get_bone w r
      in case find_bone (pose_bones (objects w a)) (''hook-'' @ bone.name bone) of
           None \<Rightarrow> (Some KeyError, w)
         | Some hook \<Rightarrow>
             constrain_hooks a rs
               (update_bone (a, hook)
                  (\<lambda>b. b\<lparr>constraints := constraints b @ [copy_transforms a (bone.name bone)]\<rparr>) w))"

definition ADH_CreateHookBones_execute ::
    "'re host \<Rightarrow> bool list \<Rightarrow> world \<Rightarrow> op_status py_result \<times> world" where
  "ADH_CreateHookBones_execute h self_hook_layers w =
     (let prev_mode = (if mode w = ''EDIT_ARMATURE'' then ''EDIT'' else mode w)
      in case mode_set ''EDIT'' w of
           Inl e \<Rightarrow> (Inl e, w)
         | Inr w1 \<Rightarrow>
             (case (active_object w1, selected_bones w1) of
                (Some a, Some sel) \<Rightarrow>
                  (let w2 = fold (create_hook h self_hook_layers a) sel w1
                   in case mode_set ''POSE'' w2 of
                        Inl e \<Rightarrow> (Inl e, w2)
                      | Inr w3 \<Rightarrow>
                          (case selected_pose_bones w3 of
                             None \<Rightarrow> (Inl TypeError, w3)
                           | Some psel \<Rightarrow>
                               (case constrain_hooks a psel w3 of
                                  (Some e, w4) \<Rightarrow> (Inl e, w4)
                                | (None, w4) \<Rightarrow>
                                    (case mode_set prev_mode w4 of
                                       Inl e \<Rightarrow> (Inl e, w4)
                                     | Inr w5 \<Rightarrow> (Inr FINISHED, w5)))))
              | _ \<Rightarrow> (Inl TypeError, w1)))"

text \<open>
  For the properties below: the store of a whole list of bones, and the hook of a bone as
  the first loop creates it and as the second loop leaves it.
\<close>

definition set_pose :: "nat \<Rightarrow> bone list \<Rightarrow> world \<Rightarrow> world" where
  "set_pose a bs w = update_object a (\<lambda>obj. obj\<lparr>pose := Some bs\<rparr>) w"

definition hook_created :: "bool list \<Rightarrow> bone \<Rightarrow> bone" where
  "hook_created self_hook_layers b =
     \<lparr>bone.name = ''hook-'' @ bone.name b, head = head b, tail = tail b, roll = roll b,
      bbone_x = bbone_x b / 2, bbone_z = bbone_z b / 2, bone.layers = self_hook_layers,
      select = False, custom_shape = None, constraints = []\<rparr>"

definition hook_constrained :: "bool list \<Rightarrow> nat \<Rightarrow> bone \<Rightarrow> bone" where
  "hook_constrained self_hook_layers a b =
     (hook_created self_hook_layers b)
       \<lparr>constraints :=
          [\<lparr>constraint.type = ''COPY_TRANSFORMS'', owner_space = ''LOCAL'', target_space = ''LOCAL'',
            target = Some a, subtarget = bone.name b\<rparr>]\<rparr>"

section \<open>ADH_DisplayWireForSkinnedObjects\<close>

definition ADH_DisplayWireForSkinnedObjects_poll :: "world \<Rightarrow> bool" where
  "ADH_DisplayWireForSkinnedObjects_poll w \<longleftrightarrow>
     (case active_object w of None \<Rightarrow> False | Some a \<Rightarrow> object.type (objects w a) = ''ARMATURE'')"


section \<open>ADH_RemoveVertexGroupsUnselectedBones\<close>

definition ADH_RemoveVertexGroupsUnselectedBones_poll :: "world \<Rightarrow> bool" where
  "ADH_RemoveVertexGroupsUnselectedBones_poll w \<longleftrightarrow> selected_pose_bones w \<noteq> None"

text \<open>
  The inner loop, \<^verbatim>\<open>for vg in obj.vertex_groups\<close>, takes groups off the collection it
  walks. \<^verbatim>\<open>obj.vertex_groups\<close> is a collection of the host and not a Python list: its
  iterator builds the element it hands out and steps to the next one before the body of
  the loop runs, so taking the element handed out off the collection leaves the iterator
  on the groups still to come. The first list argument of \<open>remove_unselected\<close> is what
  the iterator has yet to hand out, the second the collection as it stands;
  \<^verbatim>\<open>vertex_groups.remove(vg)\<close> takes that one group off.
\<close>

fun remove_unselected ::
    "string list \<Rightarrow> vertex_group list \<Rightarrow> vertex_group list \<Rightarrow> vertex_group list" where
  "remove_unselected bone_names [] groups = groups"
| "remove_unselected bone_names (vg # rest) groups =
     remove_unselected bone_names rest
       (if vertex_group.name vg \<notin> set bone_names then remove1 vg groups else groups)"

definition ADH_RemoveVertexGroupsUnselectedBones_execute ::
    "world \<Rightarrow> op_status py_result \<times> world" where
  "ADH_RemoveVertexGroupsUnselectedBones_execute w =
     (case selected_pose_bones w of
        None \<Rightarrow> (Inl TypeError, w)
      | Some bs \<Rightarrow>
          (let bone_names = map (\<lambda>b. bone.name (get_bone w b)) bs;
               affected_objects = filter (\<lambda>ob. object.type (objects w ob) = ''MESH'') (selected_objects w)
           in (Inr FINISHED,
               for_objects affected_objects
                 (\<lambda>obj. obj\<lparr>vertex_groups :=
                    remove_unselected bone_names (vertex_groups obj) (vertex_groups obj)\<rparr>) w)))"

section \<open>ADH_RenameRegex\<close>

text \<open>
  The items renamed are objects, pose bones or edit bones, depending on the mode: the
  loop only reads and stores the attribute \<^verbatim>\<open>name\<close>.
\<close>

datatype item = ObjectItem nat | BoneItem bone_ref

fun item_name :: "world \<Rightarrow> item \<Rightarrow> string" where
  "item_name w (ObjectItem i) = object.name (objects w i)"
| "item_name w (BoneItem r) = bone.name (get_bone w r)"

text \<open>
  \<^verbatim>\<open>obj.name = n\<close> for an object: the host cuts the name and stores it as a name that no
  other object of \<^verbatim>\<open>bpy.data.objects\<close> has.
\<close>

definition other_object_names :: "world \<Rightarrow> nat \<Rightarrow> string list" where
  "other_object_names w i =
     map (\<lambda>j. object.name (objects w j)) (filter (\<lambda>j. j \<noteq> i) [0..<objects_len w])"

definition object_rename :: "'re host \<Rightarrow> nat \<Rightarrow> string \<Rightarrow> world \<Rightarrow> world" where
  "object_rename h i n w =
     update_object i
       (\<lambda>obj. obj\<lparr>object.name :=
                 stored_name (id_unique_name h) (other_object_names w i) (take 63 n)\<rparr>) w"

text \<open>
  \<^verbatim>\<open>bone.name = n\<close> for a pose bone or an edit bone. The host cuts the name; when it is
  the name the bone has, nothing happens. Otherwise the bone gets the name as the host
  stores it among the bones of the armature, and the host follows the change where the
  bone is referred to by name: in every object that has an armature modifier on this
  armature, the vertex group of the old name takes the new name, and in every constraint
  of a bone that has this armature as target and the old name as subtarget, the subtarget
  becomes the new name. (The bones of an armature are held by its object here, so that an
  armature is identified with the object.)
\<close>

fun rename_vertex_group :: "string \<Rightarrow> string \<Rightarrow> vertex_group list \<Rightarrow> vertex_group list" where
  "rename_vertex_group oldname newname [] = []"
| "rename_vertex_group oldname newname (vg # vgs) =
     (if vertex_group.name vg = oldname then vg\<lparr>vertex_group.name := newname\<rparr> # vgs
      else vg # rename_vertex_group oldname newname vgs)"

definition uses_armature :: "nat \<Rightarrow> object \<Rightarrow> bool" where
  "uses_armature a obj \<longleftrightarrow>
     filter (\<lambda>m. modifier.type m = ''ARMATURE'' \<and> modifier.object m = Some a) (modifiers obj) \<noteq> []"

definition constraint_bone_name_fix :: "nat \<Rightarrow> string \<Rightarrow> string \<Rightarrow> constraint \<Rightarrow> constraint" where
  "constraint_bone_name_fix a oldname newname c =
     (if target c = Some a \<and> subtarget c = oldname then c\<lparr>subtarget := newname\<rparr> else c)"

definition bone_name_fix :: "nat \<Rightarrow> string \<Rightarrow> string \<Rightarrow> object \<Rightarrow> object" where
  "bone_name_fix a oldname newname obj =
     obj\<lparr>vertex_groups :=
           (if uses_armature a obj then rename_vertex_group oldname newname (vertex_groups obj)
            else vertex_groups obj),
         pose :=
           map_option
             (map (\<lambda>b. b\<lparr>constraints :=
                            map (constraint_bone_name_fix a oldname newname) (constraints b)\<rparr>))
             (pose obj)\<rparr>"

definition bone_rename :: "'re host \<Rightarrow> bone_ref \<Rightarrow> string \<Rightarrow> world \<Rightarrow> world" where
  "bone_rename h r n w =
     (let oldname = bone.name (get_bone w r);
          newname = take 63 n
      in if newname = oldname then w
         else
           (let used = map bone.name (pose_bones (objects w (fst r)));
                stored = stored_name (bone_unique_name h) used newname;
                w1 = update_bone r (\<lambda>b. b\<lparr>bone.name := stored\<rparr>) w
            in w1\<lparr>objects :=
                    (\<lambda>ob. if ob < objects_len w1
                          then bone_name_fix (fst r) oldname stored (objects w1 ob)
                          else objects w1 ob)\<rparr>))"

fun set_item_name :: "'re host \<Rightarrow> item \<Rightarrow> string \<Rightarrow> world \<Rightarrow> world" where
  "set_item_name h (ObjectItem i) n w = object_rename h i n w"
| "set_item_name h (BoneItem r) n w = bone_rename h r n w"

fun valid_item :: "world \<Rightarrow> item \<Rightarrow> bool" where
  "valid_item w (ObjectItem i) = True"
| "valid_item w (BoneItem r) = valid_bone w r"

text \<open>
  For the properties below: the items whose names the host keeps different from the name
  of an item. They are the other objects of \<^verbatim>\<open>bpy.data.objects\<close> for an object, and the
  other bones of the armature for a bone.
\<close>

fun name_rival :: "world \<Rightarrow> item \<Rightarrow> item \<Rightarrow> bool" where
  "name_rival w (ObjectItem i) (ObjectItem j) \<longleftrightarrow> j \<noteq> i \<and> j < objects_len w"
| "name_rival w (BoneItem r) (BoneItem r') \<longleftrightarrow>
     fst r' = fst r \<and> snd r' \<noteq> snd r \<and> valid_bone w r'"
| "name_rival w (ObjectItem i) (BoneItem r') \<longleftrightarrow> False"
| "name_rival w (BoneItem r) (ObjectItem j) \<longleftrightarrow> False"

definition ADH_RenameRegex_poll :: "world \<Rightarrow> bool" where
  "ADH_RenameRegex_poll w \<longleftrightarrow> selected_objects w \<noteq> []"

fun rename_items :: "'re host \<Rightarrow> 're \<Rightarrow> item list \<Rightarrow> world \<Rightarrow> py_error option \<times> world" where
  "rename_items h substring_re [] w = (None, w)"
| "rename_items h substring_re (item # items) w =
     (case re_sub h substring_re (adh_regex_replacement_string w) (item_name w item) of
        Inl e \<Rightarrow> (Some e, w)
      | Inr n \<Rightarrow> rename_items h substring_re items (set_item_name h item n w))"

text \<open>
  \<^verbatim>\<open>context.area.tag_redraw()\<close> marks the area of the user interface the operator was
  called from, so that the host draws it again. Without an area \<^verbatim>\<open>context.area\<close> is
  \<^verbatim>\<open>None\<close>, and the call raises \<^verbatim>\<open>AttributeError\<close>.
\<close>

definition tag_redraw :: "world \<Rightarrow> world py_result" where
  "tag_redraw w =
     (case area w of
        None \<Rightarrow> Inl AttributeError
      | Some _ \<Rightarrow> Inr (w\<lparr>area := Some True\<rparr>))"

text \<open>
  The part of \<^verbatim>\<open>execute\<close> after the choice of \<^verbatim>\<open>item_list\<close>. A selection the context
  does not offer is \<^verbatim>\<open>None\<close>, and the loop over it raises \<^verbatim>\<open>TypeError\<close>.
\<close>

definition rename_item_list ::
    "'re host \<Rightarrow> 're \<Rightarrow> item list option \<Rightarrow> world \<Rightarrow> op_status py_result \<times> world" where
  "rename_item_list h substring_re item_list w =
     (case item_list of
        None \<Rightarrow> (Inl TypeError, w)
      | Some items \<Rightarrow>
          (case rename_items h substring_re items w of
             (Some e, w') \<Rightarrow> (Inl e, w')
           | (None, w') \<Rightarrow>
               if mode w' = ''POSE''
               then (case tag_redraw w' of
                       Inl e \<Rightarrow> (Inl e, w')
                     | Inr w'' \<Rightarrow> (Inr FINISHED, w''))
               else (Inr FINISHED, w')))"

definition ADH_RenameRegex_execute :: "'re host \<Rightarrow> world \<Rightarrow> op_status py_result \<times> world" where
  "ADH_RenameRegex_execute h w =
     (case re_compile h (adh_regex_search_pattern w) of
        Inl e \<Rightarrow> (Inl e, w)
      | Inr substring_re \<Rightarrow>
          if mode w = ''OBJECT''
          then rename_item_list h substring_re (Some (map ObjectItem (selected_objects w))) w
          else if mode w = ''POSE''
          then rename_item_list h substring_re (map_option (map BoneItem) (selected_pose_bones w)) w
          else if mode w = ''EDIT_ARMATURE''
          then rename_item_list h substring_re (map_option (map BoneItem) (selected_bones w)) w
          else (Inr CANCELLED, w))"

section \<open>ADH_SyncObjectDataNameToObject\<close>

definition ADH_SyncObjectDataNameToObject_poll :: "world \<Rightarrow> bool" where
  "ADH_SyncObjectDataNameToObject_poll w \<longleftrightarrow> selected_objects w \<noteq> []"


section \<open>ADH_SyncCustomShapePositionToBone\<close>

text \<open>Here too \<^verbatim>\<open>poll\<close> reads \<^verbatim>\<open>context.active_object.type\<close> first.\<close>

definition ADH_SyncCustomShapePositionToBone_poll :: "world \<Rightarrow> bool py_result" where
  "ADH_SyncCustomShapePositionToBone_poll w =
     (case active_object w of
        None \<Rightarrow> Inl AttributeError
      | Some a \<Rightarrow> Inr (object.type (objects w a) = ''ARMATURE'' \<and> mode w = ''POSE''))"



section \<open>ADH_UseSameCustomShape\<close>

definition ADH_UseSameCustomShape_poll :: "world \<Rightarrow> bool" where
  "ADH_UseSameCustomShape_poll w \<longleftrightarrow> active_pose_bone w \<noteq> None"

text \<open>The loop over the selected objects, left by \<^verbatim>\<open>break\<close> at the first mesh.\<close>

fun first_mesh :: "world \<Rightarrow> nat option \<Rightarrow> nat list \<Rightarrow> nat option" where
  "first_mesh w shape [] = shape"
| "first_mesh w shape (obj # objs) =
     (if object.type (objects w obj) = ''MESH'' then Some obj else first_mesh w shape objs)"

definition ADH_UseSameCustomShape_execute :: "world \<Rightarrow> op_status py_result \<times> world" where
  "ADH_UseSameCustomShape_execute w =
     (case active_pose_bone w of
        None \<Rightarrow> (Inr CANCELLED, w)
      | Some active \<Rightarrow>
          (let shape = first_mesh w (custom_shape (get_bone w active)) (selected_objects w)
           in case selected_pose_bones w of
                None \<Rightarrow> (Inl TypeError, w)
              | Some bs \<Rightarrow> (Inr FINISHED, for_bones bs (\<lambda>b. b\<lparr>custom_shape := shape\<rparr>) w)))"

section \<open>The operators and the panel\<close>

text \<open>An operator as the host runs it: the class and the values of its properties.\<close>

datatype operator =
    ADH_AddSubdivisionSurfaceModifier bool
  | ADH_ApplyLattices
  | ADH_CopyCustomShapes
  | ADH_CreateCustomShape ADH_CreateCustomShape_props
  | ADH_CreateHookBones "bool list"
  | ADH_DisplayWireForSkinnedObjects bool
  | ADH_RemoveVertexGroupsUnselectedBones
  | ADH_RenameRegex
  | ADH_SyncObjectDataNameToObject
  | ADH_SyncCustomShapePositionToBone
  | ADH_UseSameCustomShape

fun bl_idname :: "operator \<Rightarrow> string" where
  "bl_idname (ADH_AddSubdivisionSurfaceModifier _) = ''object.adh_add_subsurf_modifier''"
| "bl_idname ADH_ApplyLattices = ''object.adh_apply_lattices''"
| "bl_idname ADH_CopyCustomShapes = ''object.adh_copy_shapes''"
| "bl_idname (ADH_CreateCustomShape _) = ''object.adh_create_shape''"
| "bl_idname (ADH_CreateHookBones _) = ''object.adh_create_hook_bones''"
| "bl_idname (ADH_DisplayWireForSkinnedObjects _) = ''object.adh_display_wire_if_skinned''"
| "bl_idname ADH_RemoveVertexGroupsUnselectedBones =
     ''object.adh_remove_vertex_groups_unselected_bones''"
| "bl_idname ADH_RenameRegex = ''object.adh_rename_regex''"
| "bl_idname ADH_SyncObjectDataNameToObject = ''object.adh_sync_data_name_to_object''"
| "bl_idname ADH_SyncCustomShapePositionToBone = ''object.adh_sync_shape_position_to_bone''"
| "bl_idname ADH_UseSameCustomShape = ''object.adh_use_same_shape''"


text \<open>
  The part of the state that is not in the scene: the module's data and the area of the
  user interface with its redraw tag. What else there is outside the scene (the host's
  own records of an operator call, the caches of \<^verbatim>\<open>re\<close>) is not reached by a statement
  of the module, but only through the host's and the library's functions, and has no
  place in the state.
\<close>

definition outside_scene :: "world \<Rightarrow> addon_module \<times> bool option" where
  "outside_scene w = (addon w, area w)"

text \<open>
  \<^verbatim>\<open>ADH_RiggingToolsPanel.draw\<close> as the sequence of calls it makes on the layout: a new
  column, a button for an operator (with the label given, if any), a field for a
  property of the scene.
\<close>

datatype ui_call = layout_column | col_operator string "string option" | col_prop string

definition ADH_RiggingToolsPanel_draw :: "ui_call list" where
  "ADH_RiggingToolsPanel_draw =
     [layout_column,
      col_operator ''object.adh_rename_regex'' None,
      col_prop ''adh_regex_search_pattern'',
      col_prop ''adh_regex_replacement_string'',
      layout_column,
      col_operator ''object.adh_add_subsurf_modifier'' (Some ''Add Subsurf''),
      col_operator ''object.adh_apply_lattices'' None,
      layout_column,
      col_operator ''object.adh_copy_shapes'' None,
      col_operator ''object.adh_use_same_shape'' None,
      col_operator ''object.adh_create_shape'' None,
      layout_column,
      col_operator ''object.adh_create_hook_bones'' None,
      col_operator ''object.adh_display_wire_if_skinned'' (Some ''Display Wire''),
      col_operator ''object.adh_remove_vertex_groups_unselected_bones''
        (Some ''Remove Unselected VG''),
      layout_column,
      col_operator ''object.adh_sync_data_name_to_object'' (Some ''ObData.name <- Ob.name''),
      col_operator ''object.adh_sync_shape_position_to_bone''
        (Some ''CustShape.pos <- Bone.pos'')]"

fun operator_ids :: "ui_call list \<Rightarrow> string list" where
  "operator_ids [] = []"
| "operator_ids (col_operator idname _ # calls) = idname # operator_ids calls"
| "operator_ids (_ # calls) = operator_ids calls"

section \<open>An example scene\<close>

text \<open>
  A scene to run the operators on: two meshes, three armatures and a widget. \<open>Cube\<close>
  is skinned to the armature \<open>rig\<close> and has one vertex group for each of its bones; the
  second armature shares the name of one bone with the first; the third has a bone and a
  hook of that bone's name.
\<close>

definition example_bone :: "string \<Rightarrow> bool \<Rightarrow> nat option \<Rightarrow> bone" where
  "example_bone n sel shape =
     \<lparr>bone.name = n, head = (0, 0, 0), tail = (0, 1, 0), roll = 0, bbone_x = 0.1, bbone_z = 0.2,
      bone.layers = map (\<lambda>x. x = 0) [0..<32], select = sel, custom_shape = shape,
      constraints = []\<rparr>"

definition example_object :: "string \<Rightarrow> string \<Rightarrow> nat \<Rightarrow> object" where
  "example_object n t d =
     \<lparr>object.name = n, object.type = t, object.layers = map (\<lambda>x. x = 0) [0..<20],
      show_wire = False, active_shape_key_index = 0, data = Some d, modifiers = [],
      vertex_groups = [], pose = None, location = (0, 0, 0), rotation_euler = (0, 0, 0),
      scale = (1, 1, 1)\<rparr>"

definition example_objects :: "nat \<Rightarrow> object" where
  "example_objects =
     (\<lambda>_. example_object [] ''EMPTY'' 0)
     (0 := (example_object ''Cube'' ''MESH'' 0)
             \<lparr>modifiers := [\<lparr>modifier.name = ''Armature'', modifier.type = ''ARMATURE'',
                              show_viewport = True, show_expanded = True, object = Some 2\<rparr>],
              vertex_groups := [\<lparr>vertex_group.name = ''spine'', weights = [(0, 1)]\<rparr>,
                                \<lparr>vertex_group.name = ''arm'', weights = [(1, 1)]\<rparr>,
                                \<lparr>vertex_group.name = ''leg'', weights = [(2, 1)]\<rparr>]\<rparr>,
      1 := (example_object ''Ball'' ''MESH'' 1)
             \<lparr>modifiers := [\<lparr>modifier.name = ''Subsurf'', modifier.type = ''SUBSURF'',
                              show_viewport = True, show_expanded = True, object = None\<rparr>]\<rparr>,
      2 := (example_object ''rig'' ''ARMATURE'' 2)
             \<lparr>pose := Some [example_bone ''spine'' True (Some 1),
                            example_bone ''arm'' False None,
                            example_bone ''leg'' True None]\<rparr>,
      3 := (example_object ''rig.001'' ''ARMATURE'' 3)
             \<lparr>pose := Some [example_bone ''head'' False (Some 4),
                            example_bone ''spine'' False None]\<rparr>,
      4 := example_object ''wgt-spine'' ''MESH'' 4,
      5 := (example_object ''rig.002'' ''ARMATURE'' 5)
             \<lparr>pose := Some [example_bone ''spine'' True None,
                            example_bone ''hook-spine'' False None]\<rparr>)"

definition rigging_tools_addon :: addon_module where
  "rigging_tools_addon =
     \<lparr>bl_info =
        [(''name'', ''ADH Rigging Tools''), (''author'', ''Adhi Hargo''),
         (''version'', ''(1, 0, 0)''), (''blender'', ''(2, 65, 0)''),
         (''location'', ''View3D > Tools > ADH Rigging Tools''),
         (''description'', ''Several simple tools to aid rigging.''), (''warning'', []),
         (''wiki_url'', ''https://github.com/adhihargo/rigging_tools''),
         (''tracker_url'', ''https://github.com/adhihargo/rigging_tools/issues''),
         (''category'', ''Rigging'')],
      scene_properties =
        [(''adh_regex_search_pattern'', StringProperty [] []),
         (''adh_regex_replacement_string'', StringProperty [] [])],
      operator_properties =
        [(''ADH_AddSubdivisionSurfaceModifier'', ''show_viewport'',
            BoolProperty ''Show in Viewport'' False),
         (''ADH_CreateCustomShape'', ''widget_shape'',
            EnumProperty ''Shape'' [''sphere'', ''ring'', ''box'']),
         (''ADH_CreateCustomShape'', ''widget_size'', FloatProperty ''Size'' 1.0 0 2),
         (''ADH_CreateCustomShape'', ''widget_pos'', FloatProperty ''Position'' 0.5 (- 0.5) 1.5),
         (''ADH_CreateCustomShape'', ''widget_prefix'', StringProperty ''Prefix'' ''wgt-''),
         (''ADH_CreateCustomShape'', ''widget_layers'',
            BoolVectorProperty ''Layers'' (map (\<lambda>x. x = 19) [0..<20])),
         (''ADH_CreateHookBones'', ''hook_layers'',
            BoolVectorProperty ''Hook Layers'' (map (\<lambda>x. x = 30) [0..<32])),
         (''ADH_DisplayWireForSkinnedObjects'', ''show_wire'', BoolProperty ''Show Wire'' False)]\<rparr>"

text \<open>The scene in object mode, the two meshes selected and \<open>Cube\<close> active.\<close>

definition example_world :: world where
  "example_world =
     \<lparr>objects = example_objects, objects_len = 6, meshes = (\<lambda>_. meshes_new []), meshes_len = 6,
      scene_objects = [0, 1, 2, 3, 4, 5], adh_regex_search_pattern = ''e'',
      adh_regex_replacement_string = ''xy'', mode = ''OBJECT'', selected_objects = [0, 1],
      selectable_objects = [0, 1, 2, 3, 4, 5], active_object = Some 0, selected_pose_bones = None,
      selected_bones = None, active_pose_bone = None, area = Some False,
      addon = rigging_tools_addon\<rparr>"

text \<open>
  The scene in pose mode: \<open>rig\<close> is active, it and \<open>Cube\<close> are selected, and the
  context offers the two selected bones of \<open>rig\<close>.
\<close>

definition example_pose_world :: world where
  "example_pose_world =
     example_world
       \<lparr>mode := ''POSE'', selected_objects := [2, 0], active_object := Some 2,
        selected_pose_bones := Some [(2, 0), (2, 2)], active_pose_bone := Some (2, 0)\<rparr>"

text \<open>The same in the armature's edit mode, where the context offers the edit bones.\<close>

definition example_edit_world :: world where
  "example_edit_world =
     example_pose_world
       \<lparr>mode := ''EDIT_ARMATURE'', selected_pose_bones := None,
        selected_bones := Some [(2, 0), (2, 2)], active_pose_bone := None\<rparr>"

text \<open>
  The scene in object mode with the armatures \<open>rig\<close> and \<open>rig.001\<close> selected: once with
  \<open>rig\<close> active, once with the third armature active, which is not selected.
\<close>

definition example_armatures_world :: world where
  "example_armatures_world = example_world\<lparr>selected_objects := [2, 3], active_object := Some 2\<rparr>"

definition example_unselected_active_world :: world where
  "example_unselected_active_world =
     example_world\<lparr>selected_objects := [2, 3], active_object := Some 5\<rparr>"

text \<open>
  The scene in pose mode on the third armature, whose bone \<open>spine\<close> is selected and has
  a hook already; and the default of the property \<^verbatim>\<open>hook_layers\<close>.
\<close>

definition example_hooked_world :: world where
  "example_hooked_world =
     example_world
       \<lparr>mode := ''POSE'', selected_objects := [5], active_object := Some 5,
        selected_pose_bones := Some [(5, 0)], active_pose_bone := Some (5, 0)\<rparr>"

definition example_hook_layers :: "bool list" where
  "example_hook_layers = map (\<lambda>x. x = 30) [0..<32]"

text \<open>The properties of \<^verbatim>\<open>ADH_CreateCustomShape\<close> at their defaults.\<close>

definition example_widget_props :: ADH_CreateCustomShape_props where
  "example_widget_props =
     \<lparr>widget_shape = ''sphere'', widget_size = 1.0, widget_pos = 0.5, widget_prefix = ''wgt-'',
      widget_layers = map (\<lambda>x. x = 19) [0..<20]\<rparr>"

text \<open>
  The scene in pose mode on the third armature again, with a pattern and a replacement
  that make \<open>hook-spine\<close> of \<open>spine\<close>.
\<close>

definition example_clash_world :: world where
  "example_clash_world =
     example_hooked_world
       \<lparr>adh_regex_search_pattern := ''s'', adh_regex_replacement_string := ''hook-s''\<rparr>"

text \<open>
  A host for the examples: its regular expressions are single characters, each standing
  for itself, and a replacement string is inserted as it is. A name that is taken is
  numbered as the host numbers a name that carries no number yet: it gets the first of
  the suffixes \<open>.001\<close>, \<open>.002\<close>, ... that no name taken has.
\<close>

definition number_suffix :: "nat \<Rightarrow> string" where
  "number_suffix k =
     [CHR ''.'', ''0123456789'' ! (k div 100 mod 10), ''0123456789'' ! (k div 10 mod 10),
      ''0123456789'' ! (k mod 10)]"

fun first_free_name :: "string list \<Rightarrow> string \<Rightarrow> nat \<Rightarrow> nat \<Rightarrow> string" where
  "first_free_name used n k 0 = n @ number_suffix k"
| "first_free_name used n k (Suc tries) =
     (if n @ number_suffix k \<in> set used then first_free_name used n (Suc k) tries
      else n @ number_suffix k)"

definition example_host :: "char host" where
  "example_host =
     \<lparr>re_compile = (\<lambda>p. case p of [c] \<Rightarrow> Inr c | _ \<Rightarrow> Inl re_error),
      re_sub = (\<lambda>c repl s. Inr (concat (map (\<lambda>x. if x = c then repl else [x]) s))),
      obj_to_bone = (\<lambda>rig n. Inr ((0, 0, 0), (0, 0, 0), (1, 1, 1))),
      modifier_geometry = (\<lambda>m me. me),
      id_unique_name = (\<lambda>used n. first_free_name used n 1 (length used)),
      bone_unique_name = (\<lambda>used n. first_free_name used n 1 (length used))\<rparr>"

section \<open>Properties\<close>

subsection \<open>Loops over references\<close>

lemma update_object_fields [simp]:
  "objects (update_object i f w) = (objects w)(i := f (objects w i))"
  "objects_len (update_object i f w) = objects_len w"
  "meshes (update_object i f w) = meshes w"
  "meshes_len (update_object i f w) = meshes_len w"
  "scene_objects (update_object i f w) = scene_objects w"
  "adh_regex_search_pattern (update_object i f w) = adh_regex_search_pattern w"
  "adh_regex_replacement_string (update_object i f w) = adh_regex_replacement_string w"
  "mode (update_object i f w) = mode w"
  "selected_objects (update_object i f w) = selected_objects w"
  "selectable_objects (update_object i f w) = selectable_objects w"
  "active_object (update_object i f w) = active_object w"
  "selected_pose_bones (update_object i f w) = selected_pose_bones w"
  "selected_bones (update_object i f w) = selected_bones w"
  "active_pose_bone (update_object i f w) = active_pose_bone w"
  "area (update_object i f w) = area w"
  "addon (update_object i f w) = addon w"
  by (simp_all add: update_object_def)

lemma for_objects_eq:
  "for_objects ids f w = w\<lparr>objects := objects (for_objects ids f w)\<rparr>"
proof (induction ids arbitrary: w)
  case Nil
  show ?case by (simp add: for_objects_def)
next
  case (Cons i ids)
  have "for_objects (i # ids) f w = for_objects ids f (update_object i f w)"
    by (simp add: for_objects_def)
  also have "\<dots> = (update_object i f w)\<lparr>objects := objects (for_objects ids f (update_object i f w))\<rparr>"
    by (rule Cons.IH)
  also have "\<dots> = w\<lparr>objects := objects (for_objects ids f (update_object i f w))\<rparr>"
    by (simp add: update_object_def)
  finally show ?case by (simp add: for_objects_def)
qed

lemma for_objects_idem:
  assumes "\<And>obj. f (f obj) = f obj"
  shows "objects (for_objects ids f w) j = (if j \<in> set ids then f (objects w j) else objects w j)"
  using assms
proof (induction ids arbitrary: w)
  case Nil
  show ?case by (simp add: for_objects_def)
next
  case (Cons i ids)
  have step: "for_objects (i # ids) f w = for_objects ids f (update_object i f w)"
    by (simp add: for_objects_def)
  show ?case
    unfolding step using Cons.IH [OF Cons.prems, of "update_object i f w"] Cons.prems
    by simp
qed

lemma for_objects_distinct:
  assumes "distinct ids"
  shows "objects (for_objects ids f w) j = (if j \<in> set ids then f (objects w j) else objects w j)"
  using assms
proof (induction ids arbitrary: w)
  case Nil
  show ?case by (simp add: for_objects_def)
next
  case (Cons i ids)
  have step: "for_objects (i # ids) f w = for_objects ids f (update_object i f w)"
    by (simp add: for_objects_def)
  from Cons.prems have "i \<notin> set ids" and "distinct ids" by simp_all
  then show ?case
    unfolding step using Cons.IH [of "update_object i f w"]
    by auto
qed

subsection \<open>Stores at positions of a list\<close>

lemma fold_update_length [simp]:
  "length (fold (\<lambda>k ms. ms[k := g (ms ! k)]) ks ms) = length ms"
  by (induction ks arbitrary: ms) simp_all

lemma fold_update_nth:
  "distinct ks \<Longrightarrow> j < length ms \<Longrightarrow>
   fold (\<lambda>k ms. ms[k := g (ms ! k)]) ks ms ! j = (if j \<in> set ks then g (ms ! j) else ms ! j)"
proof (induction ks arbitrary: ms)
  case Nil
  then show ?case by simp
next
  case (Cons k ks)
  from Cons.prems have k: "k \<notin> set ks" "distinct ks" by simp_all
  have len: "j < length (ms[k := g (ms ! k)])" using Cons.prems by simp
  show ?case
  proof (cases "j = k")
    case True
    then show ?thesis using Cons.IH [OF k(2) len] k(1) Cons.prems by simp
  next
    case False
    then show ?thesis using Cons.IH [OF k(2) len] by simp
  qed
qed

lemma fold_update_filter:
  "fold (\<lambda>k ms. ms[k := g (ms ! k)]) (filter (\<lambda>k. P (ms ! k)) [0..<length ms]) ms =
   map (\<lambda>m. if P m then g m else m) ms"
  by (rule nth_equalityI) (simp_all add: fold_update_nth)

lemma filter_positions_empty:
  "filter (\<lambda>k. P (ms ! k)) [0..<length ms] = [] \<longleftrightarrow> (\<forall>m\<in>set ms. \<not> P m)"
proof
  assume e: "filter (\<lambda>k. P (ms ! k)) [0..<length ms] = []"
  show "\<forall>m\<in>set ms. \<not> P m"
  proof
    fix m assume "m \<in> set ms"
    then obtain k where "k < length ms" "ms ! k = m" by (auto simp: in_set_conv_nth)
    with e show "\<not> P m" by (auto simp: filter_empty_conv)
  qed
next
  assume "\<forall>m\<in>set ms. \<not> P m"
  then show "filter (\<lambda>k. P (ms ! k)) [0..<length ms] = []"
    by (simp add: filter_empty_conv)
qed

lemma map_if_mem:
  "m \<in> set ms \<Longrightarrow> P m \<Longrightarrow> g m \<in> set (map (\<lambda>m. if P m then g m else m) ms)"
  by (induction ms) auto

lemma add_subsurf_body_modifiers:
  "modifiers (add_subsurf_body sv obj) =
     (if \<forall>m\<in>set (modifiers obj). modifier.type m \<noteq> ''SUBSURF''
      then modifiers obj @ [set_subsurf sv (modifiers_new ''Subsurf'' ''SUBSURF'')]
      else map (\<lambda>m. if modifier.type m = ''SUBSURF'' then set_subsurf sv m else m) (modifiers obj))"
  using filter_positions_empty [of "\<lambda>m. modifier.type m = ''SUBSURF''" "modifiers obj"]
        fold_update_filter [of "set_subsurf sv" "\<lambda>m. modifier.type m = ''SUBSURF''" "modifiers obj"]
  by (simp add: add_subsurf_body_def Let_def)

lemma add_subsurf_body_eq:
  "add_subsurf_body sv obj = obj\<lparr>modifiers := modifiers (add_subsurf_body sv obj)\<rparr>"
  by (simp add: add_subsurf_body_def Let_def)

lemma add_subsurf_body_type [simp]: "object.type (add_subsurf_body sv obj) = object.type obj"
  by (simp add: add_subsurf_body_def Let_def)

lemma set_subsurf_simps [simp]:
  "modifier.type (set_subsurf sv m) = modifier.type m"
  "show_viewport (set_subsurf sv m) = sv"
  "show_expanded (set_subsurf sv m) = False"
  "set_subsurf sv (set_subsurf sv m) = set_subsurf sv m"
  by (simp_all add: set_subsurf_def)

lemma add_subsurf_body_has:
  "\<exists>m\<in>set (modifiers (add_subsurf_body sv obj)). modifier.type m = ''SUBSURF''"
proof (cases "\<forall>m\<in>set (modifiers obj). modifier.type m \<noteq> ''SUBSURF''")
  case True
  then show ?thesis by (simp add: add_subsurf_body_modifiers modifiers_new_def)
next
  case False
  then obtain m where m: "m \<in> set (modifiers obj)" "modifier.type m = ''SUBSURF''" by blast
  have "set_subsurf sv m \<in> set (modifiers (add_subsurf_body sv obj))"
  proof -
    have "modifiers (add_subsurf_body sv obj) =
          map (\<lambda>m. if modifier.type m = ''SUBSURF'' then set_subsurf sv m else m) (modifiers obj)"
      using False by (simp only: add_subsurf_body_modifiers if_False)
    then show ?thesis using map_if_mem [OF m(1), of "\<lambda>m. modifier.type m = ''SUBSURF''" "set_subsurf sv"] m(2)
      by simp
  qed
  moreover have "modifier.type (set_subsurf sv m) = ''SUBSURF''" using m(2) by simp
  ultimately show ?thesis by blast
qed

lemma add_subsurf_body_all:
  "m \<in> set (modifiers (add_subsurf_body sv obj)) \<Longrightarrow> modifier.type m = ''SUBSURF'' \<Longrightarrow>
   show_viewport m = sv \<and> \<not> show_expanded m"
  by (auto simp: add_subsurf_body_modifiers modifiers_new_def split: if_splits)

lemma add_subsurf_body_idem:
  "add_subsurf_body sv (add_subsurf_body sv obj) = add_subsurf_body sv obj"
proof -
  let ?o = "add_subsurf_body sv obj"
  have has: "\<not> (\<forall>m\<in>set (modifiers ?o). modifier.type m \<noteq> ''SUBSURF'')"
    using add_subsurf_body_has [of sv obj] by blast
  have "modifiers (add_subsurf_body sv ?o) =
        map (\<lambda>m. if modifier.type m = ''SUBSURF'' then set_subsurf sv m else m) (modifiers ?o)"
    using has by (simp only: add_subsurf_body_modifiers [of sv ?o] if_False)
  also have "\<dots> = modifiers ?o"
    by (rule map_idI) (auto simp: add_subsurf_body_modifiers modifiers_new_def split: if_splits)
  finally have "modifiers (add_subsurf_body sv ?o) = modifiers ?o" .
  then show ?thesis
    using add_subsurf_body_eq [of sv ?o] by simp
qed

lemma for_objects_fixed:
  assumes "\<And>i. i \<in> set ids \<Longrightarrow> f (objects w i) = objects w i"
  shows "for_objects ids f w = w"
proof -
  have idem: "objects (for_objects ids f w) = objects w"
    using assms
  proof (induction ids arbitrary: w)
    case Nil
    show ?case by (simp add: for_objects_def)
  next
    case (Cons i ids)
    have u: "update_object i f w = w"
      using Cons.prems [of i] by (simp add: update_object_def)
    have "for_objects (i # ids) f w = for_objects ids f (update_object i f w)"
      by (simp add: for_objects_def)
    then show ?case using Cons.IH [of w] Cons.prems u by simp
  qed
  show ?thesis
    using for_objects_eq [of ids f w] by (simp add: idem)
qed

subsection \<open>ADH_AddSubdivisionSurfaceModifier\<close>

text \<open>
  Claim C4. After \<^verbatim>\<open>ADH_AddSubdivisionSurfaceModifier.execute\<close>, which returns
  \<^verbatim>\<open>FINISHED\<close>, every selected mesh object has a modifier of type \<^verbatim>\<open>SUBSURF\<close>, and each
  such modifier on it has \<^verbatim>\<open>show_viewport\<close> equal to the operator's property and
  \<^verbatim>\<open>show_expanded\<close> false. Running the operator again with the same property value
  returns the same result and leaves the whole state, the modifier stacks in it, as the
  first run left it. This holds for every state, in particular for those the operator's
  \<^verbatim>\<open>poll\<close> admits (object mode, a selection that is not empty).
\<close>

theorem subsurf_postcondition_idempotent:
  "fst (ADH_AddSubdivisionSurfaceModifier_execute sv w) = Inr FINISHED \<and>
   (\<forall>i\<in>set (selected_objects w). object.type (objects w i) = ''MESH'' \<longrightarrow>
      (\<exists>m\<in>set (modifiers (objects (snd (ADH_AddSubdivisionSurfaceModifier_execute sv w)) i)).
         modifier.type m = ''SUBSURF'') \<and>
      (\<forall>m\<in>set (modifiers (objects (snd (ADH_AddSubdivisionSurfaceModifier_execute sv w)) i)).
         modifier.type m = ''SUBSURF'' \<longrightarrow> show_viewport m = sv \<and> \<not> show_expanded m)) \<and>
   ADH_AddSubdivisionSurfaceModifier_execute sv
     (snd (ADH_AddSubdivisionSurfaceModifier_execute sv w)) =
   ADH_AddSubdivisionSurfaceModifier_execute sv w"
proof -
  define ms where "ms = filter (\<lambda>i. object.type (objects w i) = ''MESH'') (selected_objects w)"
  define w' where "w' = for_objects ms (add_subsurf_body sv) w"
  have ex: "ADH_AddSubdivisionSurfaceModifier_execute sv w = (Inr FINISHED, w')"
    by (simp add: ADH_AddSubdivisionSurfaceModifier_execute_def ms_def w'_def)
  have obj: "objects w' j = (if j \<in> set ms then add_subsurf_body sv (objects w j) else objects w j)" for j
    unfolding w'_def by (rule for_objects_idem) (rule add_subsurf_body_idem)
  have sel: "selected_objects w' = selected_objects w"
    unfolding w'_def using for_objects_eq [of ms "add_subsurf_body sv" w]
    by (metis world.select_convs(9) world.surjective world.update_convs(1))
  have ty: "object.type (objects w' j) = object.type (objects w j)" for j
    by (simp add: obj)
  have ms': "filter (\<lambda>i. object.type (objects w' i) = ''MESH'') (selected_objects w') = ms"
    by (simp add: ms_def sel ty)
  have fixed: "for_objects ms (add_subsurf_body sv) w' = w'"
    by (rule for_objects_fixed) (simp add: obj add_subsurf_body_idem)
  have post: "(\<exists>m\<in>set (modifiers (objects w' i)). modifier.type m = ''SUBSURF'') \<and>
      (\<forall>m\<in>set (modifiers (objects w' i)). modifier.type m = ''SUBSURF'' \<longrightarrow>
         show_viewport m = sv \<and> \<not> show_expanded m)"
    if "i \<in> set (selected_objects w)" "object.type (objects w i) = ''MESH''" for i
  proof -
    from that have "i \<in> set ms" by (simp add: ms_def)
    then have "objects w' i = add_subsurf_body sv (objects w i)" by (simp add: obj)
    then show ?thesis
      using add_subsurf_body_has [of sv "objects w i"] add_subsurf_body_all [of _ sv "objects w i"]
      by auto
  qed
  have again: "ADH_AddSubdivisionSurfaceModifier_execute sv w' = (Inr FINISHED, w')"
    using ms' fixed by (simp add: ADH_AddSubdivisionSurfaceModifier_execute_def)
  show ?thesis
    unfolding ex using post again by simp
qed

text \<open>The example scene in object mode: \<open>Cube\<close> is a selected mesh without such a modifier.\<close>

theorem subsurf_postcondition_idempotent_witness:
  "ADH_AddSubdivisionSurfaceModifier_poll example_world \<and>
   0 \<in> set (selected_objects example_world) \<and>
   object.type (objects example_world 0) = ''MESH'' \<and>
   (\<exists>m\<in>set (modifiers (objects (snd (ADH_AddSubdivisionSurfaceModifier_execute False example_world)) 0)).
      modifier.type m = ''SUBSURF'' \<and> show_viewport m = False \<and> \<not> show_expanded m) \<and>
   ADH_AddSubdivisionSurfaceModifier_execute False
     (snd (ADH_AddSubdivisionSurfaceModifier_execute False example_world)) =
   ADH_AddSubdivisionSurfaceModifier_execute False example_world"
proof -
  have sel: "selected_objects example_world = [0, 1]"
    by (simp add: example_world_def)
  have ty: "object.type (objects example_world 0) = ''MESH''"
    by (simp add: example_world_def example_objects_def example_object_def)
  have poll: "ADH_AddSubdivisionSurfaceModifier_poll example_world"
    by (simp add: ADH_AddSubdivisionSurfaceModifier_poll_def example_world_def)
  show ?thesis
    using subsurf_postcondition_idempotent [of False example_world] sel ty poll
    by auto
qed

subsection \<open>Stores through bone references\<close>

lemma pose_bones_update_bone:
  "pose_bones (objects (update_bone r f w) a) =
     (if a = fst r then (pose_bones (objects w a))[snd r := f (pose_bones (objects w a) ! snd r)]
      else pose_bones (objects w a))"
  by (cases "pose (objects w (fst r))") (simp_all add: update_bone_def pose_bones_def)

lemma update_bone_fields [simp]:
  "objects_len (update_bone r f w) = objects_len w"
  "meshes (update_bone r f w) = meshes w"
  "meshes_len (update_bone r f w) = meshes_len w"
  "scene_objects (update_bone r f w) = scene_objects w"
  "adh_regex_search_pattern (update_bone r f w) = adh_regex_search_pattern w"
  "adh_regex_replacement_string (update_bone r f w) = adh_regex_replacement_string w"
  "mode (update_bone r f w) = mode w"
  "selected_objects (update_bone r f w) = selected_objects w"
  "selectable_objects (update_bone r f w) = selectable_objects w"
  "active_object (update_bone r f w) = active_object w"
  "selected_pose_bones (update_bone r f w) = selected_pose_bones w"
  "selected_bones (update_bone r f w) = selected_bones w"
  "active_pose_bone (update_bone r f w) = active_pose_bone w"
  "area (update_bone r f w) = area w"
  "addon (update_bone r f w) = addon w"
  by (simp_all add: update_bone_def)

lemma update_bone_other_object:
  "a \<noteq> fst r \<Longrightarrow> objects (update_bone r f w) a = objects w a"
  by (simp add: update_bone_def)

lemma update_bone_object_fields [simp]:
  "object.name (objects (update_bone r f w) a) = object.name (objects w a)"
  "object.type (objects (update_bone r f w) a) = object.type (objects w a)"
  "data (objects (update_bone r f w) a) = data (objects w a)"
  "modifiers (objects (update_bone r f w) a) = modifiers (objects w a)"
  "vertex_groups (objects (update_bone r f w) a) = vertex_groups (objects w a)"
  by (simp_all add: update_bone_def)

lemma valid_bone_update_bone [simp]:
  "valid_bone (update_bone r' f w) r = valid_bone w r"
  by (simp add: valid_bone_def pose_bones_update_bone)

lemma get_bone_update_bone:
  "valid_bone w r \<Longrightarrow>
   get_bone (update_bone r' f w) r = (if r' = r then f (get_bone w r) else get_bone w r)"
  by (cases r; cases r') (auto simp: get_bone_def valid_bone_def pose_bones_update_bone)

lemma for_bones_fields [simp]:
  "objects_len (for_bones rs f w) = objects_len w"
  "meshes (for_bones rs f w) = meshes w"
  "meshes_len (for_bones rs f w) = meshes_len w"
  "scene_objects (for_bones rs f w) = scene_objects w"
  "mode (for_bones rs f w) = mode w"
  "selected_objects (for_bones rs f w) = selected_objects w"
  "active_object (for_bones rs f w) = active_object w"
  "selected_pose_bones (for_bones rs f w) = selected_pose_bones w"
  "active_pose_bone (for_bones rs f w) = active_pose_bone w"
  "area (for_bones rs f w) = area w"
  "addon (for_bones rs f w) = addon w"
  by (induction rs arbitrary: w; simp add: for_bones_def)+

lemma valid_bone_for_bones [simp]:
  "valid_bone (for_bones rs f w) r = valid_bone w r"
  by (induction rs arbitrary: w) (simp_all add: for_bones_def)

lemma for_bones_idem:
  assumes "\<And>b. f (f b) = f b" and "valid_bone w r"
  shows "get_bone (for_bones rs f w) r = (if r \<in> set rs then f (get_bone w r) else get_bone w r)"
  using assms(2)
proof (induction rs arbitrary: w)
  case Nil
  show ?case by (simp add: for_bones_def)
next
  case (Cons r' rs)
  have step: "for_bones (r' # rs) f w = for_bones rs f (update_bone r' f w)"
    by (simp add: for_bones_def)
  have v: "valid_bone (update_bone r' f w) r" using Cons.prems by simp
  show ?case
    unfolding step using Cons.IH [OF v] Cons.prems assms(1)
    by (simp add: get_bone_update_bone)
qed

subsection \<open>ADH_UseSameCustomShape\<close>

lemma first_mesh_none:
  "\<forall>obj\<in>set objs. object.type (objects w obj) \<noteq> ''MESH'' \<Longrightarrow> first_mesh w shape objs = shape"
  by (induction objs) simp_all

lemma first_mesh_some:
  "\<forall>obj\<in>set pre. object.type (objects w obj) \<noteq> ''MESH'' \<Longrightarrow>
   object.type (objects w m) = ''MESH'' \<Longrightarrow> first_mesh w shape (pre @ m # post) = Some m"
  by (induction pre) simp_all

text \<open>
  Claim C10. Let the operator run with an active pose bone (its \<^verbatim>\<open>poll\<close>) and with the
  selected pose bones the context offers. It returns \<^verbatim>\<open>FINISHED\<close>. If some selected object
  is a mesh, every selected pose bone, the active one among them if it is selected, has
  the first mesh of the selection as its custom shape afterwards, whatever the custom
  shape of the active pose bone was. If no selected object is a mesh, every selected pose
  bone has the custom shape that the active pose bone had.
\<close>

theorem use_same_shape_prefers_mesh:
  assumes "active_pose_bone w = Some active"
    and "selected_pose_bones w = Some bs"
    and "\<forall>r\<in>set bs. valid_bone w r"
  shows "fst (ADH_UseSameCustomShape_execute w) = Inr FINISHED \<and>
     (\<forall>pre m post.
        selected_objects w = pre @ m # post \<and> object.type (objects w m) = ''MESH'' \<and>
        (\<forall>obj\<in>set pre. object.type (objects w obj) \<noteq> ''MESH'') \<longrightarrow>
        (\<forall>r\<in>set bs. custom_shape (get_bone (snd (ADH_UseSameCustomShape_execute w)) r) = Some m)) \<and>
     ((\<forall>obj\<in>set (selected_objects w). object.type (objects w obj) \<noteq> ''MESH'') \<longrightarrow>
        (\<forall>r\<in>set bs. custom_shape (get_bone (snd (ADH_UseSameCustomShape_execute w)) r) =
                      custom_shape (get_bone w active)))"
proof -
  define shape where "shape = first_mesh w (custom_shape (get_bone w active)) (selected_objects w)"
  define w' where "w' = for_bones bs (\<lambda>b. b\<lparr>custom_shape := shape\<rparr>) w"
  have ex: "ADH_UseSameCustomShape_execute w = (Inr FINISHED, w')"
    using assms(1,2) by (simp add: ADH_UseSameCustomShape_execute_def shape_def w'_def)
  have set: "custom_shape (get_bone w' r) = shape" if "r \<in> set bs" for r
  proof -
    have "valid_bone w r" using that assms(3) by blast
    then have "get_bone w' r = (get_bone w r)\<lparr>custom_shape := shape\<rparr>"
      unfolding w'_def using that by (subst for_bones_idem) simp_all
    then show ?thesis by simp
  qed
  have a: "shape = Some m"
    if "selected_objects w = pre @ m # post" "object.type (objects w m) = ''MESH''"
       "\<forall>obj\<in>set pre. object.type (objects w obj) \<noteq> ''MESH''" for pre m post
    unfolding shape_def that(1) using that(2,3) by (simp add: first_mesh_some)
  have b: "shape = custom_shape (get_bone w active)"
    if "\<forall>obj\<in>set (selected_objects w). object.type (objects w obj) \<noteq> ''MESH''"
    unfolding shape_def using that by (simp add: first_mesh_none)
  show ?thesis
    unfolding ex using set a b by auto
qed

subsection \<open>The example scene\<close>

lemma example_pose_world_simps:
  "active_pose_bone example_pose_world = Some (2, 0)"
  "selected_pose_bones example_pose_world = Some [(2, 0), (2, 2)]"
  "selected_objects example_pose_world = [2, 0]"
  "active_object example_pose_world = Some 2"
  "mode example_pose_world = ''POSE''"
  "objects example_pose_world = example_objects"
  "scene_objects example_pose_world = [0, 1, 2, 3, 4, 5]"
  by (simp_all add: example_pose_world_def example_world_def)

lemma example_objects_simps:
  "object.type (example_objects 0) = ''MESH''"
  "object.type (example_objects 1) = ''MESH''"
  "object.type (example_objects 2) = ''ARMATURE''"
  "object.type (example_objects 3) = ''ARMATURE''"
  "object.type (example_objects 4) = ''MESH''"
  "object.type (example_objects 5) = ''ARMATURE''"
  "object.name (example_objects 0) = ''Cube''"
  "object.name (example_objects 1) = ''Ball''"
  "object.name (example_objects 2) = ''rig''"
  "object.name (example_objects 3) = ''rig.001''"
  "object.name (example_objects 4) = ''wgt-spine''"
  "pose_bones (example_objects 2) =
     [example_bone ''spine'' True (Some 1), example_bone ''arm'' False None,
      example_bone ''leg'' True None]"
  "pose_bones (example_objects 3) =
     [example_bone ''head'' False (Some 4), example_bone ''spine'' False None]"
  "pose_bones (example_objects 5) =
     [example_bone ''spine'' True None, example_bone ''hook-spine'' False None]"
  "object.name (example_objects 5) = ''rig.002''"
  by (simp_all add: example_objects_def example_object_def pose_bones_def)

lemma example_world_simps:
  "mode example_world = ''OBJECT''"
  "selected_objects example_world = [0, 1]"
  "objects example_world = example_objects"
  "adh_regex_search_pattern example_world = ''e''"
  "adh_regex_replacement_string example_world = ''xy''"
  "adh_regex_search_pattern example_pose_world = ''e''"
  "adh_regex_replacement_string example_pose_world = ''xy''"
  by (simp_all add: example_world_def example_pose_world_def)

lemma example_edit_world_simps:
  "mode example_edit_world = ''EDIT_ARMATURE''"
  "selected_bones example_edit_world = Some [(2, 0), (2, 2)]"
  "objects example_edit_world = example_objects"
  "adh_regex_search_pattern example_edit_world = ''e''"
  "adh_regex_replacement_string example_edit_world = ''xy''"
  by (simp_all add: example_edit_world_def example_pose_world_def example_world_def)

lemma example_objects_Suc_simps:
  "object.type (example_objects (Suc 0)) = ''MESH''"
  "object.name (example_objects (Suc 0)) = ''Ball''"
  using example_objects_simps(2,8) by simp_all

lemma example_host_simps:
  "re_compile example_host ''e'' = Inr CHR ''e''"
  "re_sub example_host CHR ''e'' ''xy'' ''Cube'' = Inr ''Cubxy''"
  "re_sub example_host CHR ''e'' ''xy'' ''Ball'' = Inr ''Ball''"
  "re_sub example_host CHR ''e'' ''xy'' ''spine'' = Inr ''spinxy''"
  "re_sub example_host CHR ''e'' ''xy'' ''leg'' = Inr ''lxyg''"
  by (simp_all add: example_host_def)

lemma example_bone_names:
  "bone.name (get_bone example_pose_world (2, 0)) = ''spine''"
  "bone.name (get_bone example_pose_world (2, 2)) = ''leg''"
  "bone.name (get_bone example_edit_world (2, 0)) = ''spine''"
  "bone.name (get_bone example_edit_world (2, 2)) = ''leg''"
  "valid_bone example_pose_world (2, 0)"
  "valid_bone example_pose_world (2, 2)"
  "valid_bone example_edit_world (2, 0)"
  "valid_bone example_edit_world (2, 2)"
  by (simp_all add: get_bone_def valid_bone_def example_pose_world_simps example_edit_world_simps
      example_objects_simps example_bone_def)

text \<open>
  In the example scene in pose mode the selection is the armature and then \<open>Cube\<close>: both
  selected bones get \<open>Cube\<close>, also the active bone, whose shape was \<open>Ball\<close>.
\<close>

theorem use_same_shape_prefers_mesh_witness:
  "active_pose_bone example_pose_world = Some (2, 0) \<and>
   selected_pose_bones example_pose_world = Some [(2, 0), (2, 2)] \<and>
   valid_bone example_pose_world (2, 0) \<and> valid_bone example_pose_world (2, 2) \<and>
   selected_objects example_pose_world = [2] @ 0 # [] \<and>
   object.type (objects example_pose_world 2) \<noteq> ''MESH'' \<and>
   object.type (objects example_pose_world 0) = ''MESH'' \<and>
   custom_shape (get_bone example_pose_world (2, 0)) = Some 1 \<and>
   fst (ADH_UseSameCustomShape_execute example_pose_world) = Inr FINISHED \<and>
   custom_shape (get_bone (snd (ADH_UseSameCustomShape_execute example_pose_world)) (2, 0)) = Some 0 \<and>
   custom_shape (get_bone (snd (ADH_UseSameCustomShape_execute example_pose_world)) (2, 2)) = Some 0"
proof -
  have h1: "active_pose_bone example_pose_world = Some (2, 0)"
    and h2: "selected_pose_bones example_pose_world = Some [(2, 0), (2, 2)]"
    by (simp_all add: example_pose_world_simps)
  have v: "valid_bone example_pose_world (2, 0)" "valid_bone example_pose_world (2, 2)"
    by (simp_all add: valid_bone_def example_pose_world_simps example_objects_simps)
  then have h3: "\<forall>r\<in>set [(2, 0), (2, 2)]. valid_bone example_pose_world r" by simp
  have sel: "selected_objects example_pose_world = [2] @ 0 # []"
    by (simp add: example_pose_world_simps)
  have ty: "object.type (objects example_pose_world 2) \<noteq> ''MESH''"
      "object.type (objects example_pose_world 0) = ''MESH''"
    by (simp_all add: example_pose_world_simps example_objects_simps)
  have old: "custom_shape (get_bone example_pose_world (2, 0)) = Some 1"
    by (simp add: get_bone_def example_pose_world_simps example_objects_simps example_bone_def)
  note t = use_same_shape_prefers_mesh [OF h1 h2 h3]
  from t have fin: "fst (ADH_UseSameCustomShape_execute example_pose_world) = Inr FINISHED"
    by blast
  from t sel ty have
    "\<forall>r\<in>set [(2, 0), (2, 2)].
       custom_shape (get_bone (snd (ADH_UseSameCustomShape_execute example_pose_world)) r) = Some 0"
    by (metis empty_iff empty_set set_ConsD)
  then show ?thesis using h1 h2 v sel ty old fin by simp
qed

subsection \<open>ADH_CreateCustomShape: the widget exists already\<close>

text \<open>
  Claim C9. Let the operator run on an active pose bone, with one of the three shapes of
  its enumeration, when the scene has an object whose name is the widget prefix followed
  by the name of the bone. Then it returns \<^verbatim>\<open>FINISHED\<close>, and the only change to the state
  is that the custom shape of the active pose bone is now \<^verbatim>\<open>None\<close>, whatever it was: no
  object and no mesh is created, nothing is linked to the scene.
\<close>

theorem create_shape_existing_widget:
  assumes "active_pose_bone w = Some bone"
    and "valid_bone w bone"
    and "widget_shape self \<in> {''sphere'', ''ring'', ''box''}"
    and "widget_prefix self @ bone.name (get_bone w bone)
           \<in> set (map (\<lambda>ob. object.name (objects w ob)) (scene_objects w))"
  shows "ADH_CreateCustomShape_execute h self w =
           (Inr FINISHED, update_bone bone (\<lambda>b. b\<lparr>custom_shape := None\<rparr>) w) \<and>
         objects_len (snd (ADH_CreateCustomShape_execute h self w)) = objects_len w \<and>
         meshes_len (snd (ADH_CreateCustomShape_execute h self w)) = meshes_len w \<and>
         meshes (snd (ADH_CreateCustomShape_execute h self w)) = meshes w \<and>
         scene_objects (snd (ADH_CreateCustomShape_execute h self w)) = scene_objects w \<and>
         custom_shape (get_bone (snd (ADH_CreateCustomShape_execute h self w)) bone) = None"
proof -
  have cw: "create_widget h self (active_object w) (bone.name (get_bone w bone)) w = (Inr None, w)"
    using assms(4) by (simp add: create_widget_def)
  have ex: "ADH_CreateCustomShape_execute h self w =
              (Inr FINISHED, update_bone bone (\<lambda>b. b\<lparr>custom_shape := None\<rparr>) w)"
    using assms(1,3) cw
    by (auto simp: ADH_CreateCustomShape_execute_def getattr_create_widget_def
        create_sphere_widget_def create_ring_widget_def create_box_widget_def)
  show ?thesis
    unfolding ex using assms(2) by (simp add: get_bone_update_bone)
qed

text \<open>
  In the example scene the active bone \<open>spine\<close> has the custom shape \<open>Ball\<close> and the
  object \<open>wgt-spine\<close> exists: the shape is cleared.
\<close>

theorem create_shape_existing_widget_witness:
  "active_pose_bone example_pose_world = Some (2, 0) \<and>
   valid_bone example_pose_world (2, 0) \<and>
   widget_shape example_widget_props \<in> {''sphere'', ''ring'', ''box''} \<and>
   widget_prefix example_widget_props @ bone.name (get_bone example_pose_world (2, 0)) = ''wgt-spine'' \<and>
   object.name (objects example_pose_world 4) = ''wgt-spine'' \<and>
   4 \<in> set (scene_objects example_pose_world) \<and>
   custom_shape (get_bone example_pose_world (2, 0)) = Some 1 \<and>
   fst (ADH_CreateCustomShape_execute example_host example_widget_props example_pose_world) = Inr FINISHED \<and>
   objects_len (snd (ADH_CreateCustomShape_execute example_host example_widget_props example_pose_world)) = 6 \<and>
   meshes_len (snd (ADH_CreateCustomShape_execute example_host example_widget_props example_pose_world)) = 6 \<and>
   custom_shape (get_bone (snd (ADH_CreateCustomShape_execute example_host example_widget_props
       example_pose_world)) (2, 0)) = None"
proof -
  have h1: "active_pose_bone example_pose_world = Some (2, 0)"
    by (simp add: example_pose_world_simps)
  have h2: "valid_bone example_pose_world (2, 0)"
    by (simp add: valid_bone_def example_pose_world_simps example_objects_simps)
  have h3: "widget_shape example_widget_props \<in> {''sphere'', ''ring'', ''box''}"
    by (simp add: example_widget_props_def)
  have nm: "widget_prefix example_widget_props @ bone.name (get_bone example_pose_world (2, 0)) = ''wgt-spine''"
    by (simp add: example_widget_props_def get_bone_def example_pose_world_simps
        example_objects_simps example_bone_def)
  have ob: "object.name (objects example_pose_world 4) = ''wgt-spine''"
      "4 \<in> set (scene_objects example_pose_world)"
    by (simp_all add: example_pose_world_simps example_objects_simps)
  have h4: "widget_prefix example_widget_props @ bone.name (get_bone example_pose_world (2, 0))
           \<in> set (map (\<lambda>ob. object.name (objects example_pose_world ob)) (scene_objects example_pose_world))"
    unfolding nm by (simp add: example_pose_world_simps example_objects_simps)
  have old: "custom_shape (get_bone example_pose_world (2, 0)) = Some 1"
    by (simp add: get_bone_def example_pose_world_simps example_objects_simps example_bone_def)
  have len: "objects_len example_pose_world = 6" "meshes_len example_pose_world = 6"
    by (simp_all add: example_pose_world_def example_world_def)
  show ?thesis
    using create_shape_existing_widget [OF h1 h2 h3 h4, of example_host] h1 h2 h3 nm ob old len
    by (simp add: get_bone_update_bone)
qed

subsection \<open>The panel\<close>

text \<open>
  Claim C8. The panel's \<^verbatim>\<open>draw\<close> makes a button for the \<^verbatim>\<open>bl_idname\<close> of every operator
  class of the module exactly once. There are eleven buttons, and the eleven classes
  have eleven different names.
\<close>

theorem panel_has_each_operator_once:
  "count_list (operator_ids ADH_RiggingToolsPanel_draw) (bl_idname op) = 1 \<and>
   length (operator_ids ADH_RiggingToolsPanel_draw) = 11 \<and>
   card (range bl_idname) = 11"
proof -
  have ids: "operator_ids ADH_RiggingToolsPanel_draw =
     [''object.adh_rename_regex'', ''object.adh_add_subsurf_modifier'',
      ''object.adh_apply_lattices'', ''object.adh_copy_shapes'', ''object.adh_use_same_shape'',
      ''object.adh_create_shape'', ''object.adh_create_hook_bones'',
      ''object.adh_display_wire_if_skinned'',
      ''object.adh_remove_vertex_groups_unselected_bones'',
      ''object.adh_sync_data_name_to_object'', ''object.adh_sync_shape_position_to_bone'']"
    by (simp add: ADH_RiggingToolsPanel_draw_def)
  have once: "count_list (operator_ids ADH_RiggingToolsPanel_draw) (bl_idname op) = 1"
    unfolding ids by (cases op) simp_all
  have dist: "distinct (operator_ids ADH_RiggingToolsPanel_draw)"
    unfolding ids by simp
  have "range bl_idname = set (operator_ids ADH_RiggingToolsPanel_draw)"
  proof
    show "range bl_idname \<subseteq> set (operator_ids ADH_RiggingToolsPanel_draw)"
    proof
      fix x assume "x \<in> range bl_idname"
      then obtain op' where "x = bl_idname op'" by blast
      then show "x \<in> set (operator_ids ADH_RiggingToolsPanel_draw)"
        unfolding ids by (cases op') simp_all
    qed
    have "bl_idname ` {ADH_RenameRegex, ADH_AddSubdivisionSurfaceModifier False, ADH_ApplyLattices,
        ADH_CopyCustomShapes, ADH_UseSameCustomShape, ADH_CreateCustomShape undefined,
        ADH_CreateHookBones [], ADH_DisplayWireForSkinnedObjects False,
        ADH_RemoveVertexGroupsUnselectedBones, ADH_SyncObjectDataNameToObject,
        ADH_SyncCustomShapePositionToBone} = set (operator_ids ADH_RiggingToolsPanel_draw)"
      unfolding ids by simp
    then show "set (operator_ids ADH_RiggingToolsPanel_draw) \<subseteq> range bl_idname"
      by blast
  qed
  then have "card (range bl_idname) = length (operator_ids ADH_RiggingToolsPanel_draw)"
    using dist by (simp add: distinct_card)
  then show ?thesis using once by (simp add: ids)
qed

text \<open>The button of \<^verbatim>\<open>ADH_RenameRegex\<close>.\<close>

theorem panel_has_each_operator_once_witness:
  "bl_idname ADH_RenameRegex = ''object.adh_rename_regex'' \<and>
   count_list (operator_ids ADH_RiggingToolsPanel_draw) ''object.adh_rename_regex'' = 1"
  using panel_has_each_operator_once [of ADH_RenameRegex] by simp

subsection \<open>ADH_RemoveVertexGroupsUnselectedBones\<close>

lemma remove_unselected_kept:
  "\<forall>vg\<in>set kept. vertex_group.name vg \<in> set bone_names \<Longrightarrow>
   remove_unselected bone_names rest (kept @ rest) =
   kept @ filter (\<lambda>vg. vertex_group.name vg \<in> set bone_names) rest"
proof (induction rest arbitrary: kept)
  case Nil
  show ?case by simp
next
  case (Cons vg rest)
  show ?case
  proof (cases "vertex_group.name vg \<in> set bone_names")
    case True
    with Cons.prems have "\<forall>v\<in>set (kept @ [vg]). vertex_group.name v \<in> set bone_names" by simp
    from Cons.IH [OF this] True show ?thesis by simp
  next
    case False
    with Cons.prems have "vg \<notin> set kept" by blast
    then have "remove1 vg (kept @ vg # rest) = kept @ rest"
      by (simp add: remove1_append)
    with Cons.IH [OF Cons.prems] False show ?thesis by simp
  qed
qed

lemma remove_unselected_filter:
  "remove_unselected bone_names groups groups =
   filter (\<lambda>vg. vertex_group.name vg \<in> set bone_names) groups"
  using remove_unselected_kept [of "[]" bone_names groups] by simp

text \<open>
  Claim C2. Let the operator run with the selected pose bones the context offers (its
  \<^verbatim>\<open>poll\<close>). It returns \<^verbatim>\<open>FINISHED\<close>. Afterwards every selected mesh object is as it was
  but for its vertex groups, which are those of before whose name is the name of a
  selected pose bone, in their order; every group of another name is gone. An object
  that is not a selected mesh is as it was.
\<close>

theorem remove_vertex_groups_keeps_selected_bones:
  assumes "selected_pose_bones w = Some bs"
  shows "fst (ADH_RemoveVertexGroupsUnselectedBones_execute w) = Inr FINISHED \<and>
     (\<forall>obj\<in>set (selected_objects w). object.type (objects w obj) = ''MESH'' \<longrightarrow>
        objects (snd (ADH_RemoveVertexGroupsUnselectedBones_execute w)) obj =
        (objects w obj)\<lparr>vertex_groups :=
           filter (\<lambda>vg. vertex_group.name vg \<in> (\<lambda>b. bone.name (get_bone w b)) ` set bs)
             (vertex_groups (objects w obj))\<rparr>) \<and>
     (\<forall>obj. \<not> (obj \<in> set (selected_objects w) \<and> object.type (objects w obj) = ''MESH'') \<longrightarrow>
        objects (snd (ADH_RemoveVertexGroupsUnselectedBones_execute w)) obj = objects w obj)"
proof -
  define bone_names where "bone_names = map (\<lambda>b. bone.name (get_bone w b)) bs"
  define affected where
    "affected = filter (\<lambda>ob. object.type (objects w ob) = ''MESH'') (selected_objects w)"
  define f where "f = (\<lambda>obj::object. obj\<lparr>vertex_groups :=
     remove_unselected bone_names (vertex_groups obj) (vertex_groups obj)\<rparr>)"
  define w' where "w' = for_objects affected f w"
  have ex: "ADH_RemoveVertexGroupsUnselectedBones_execute w = (Inr FINISHED, w')"
    using assms
    by (simp add: ADH_RemoveVertexGroupsUnselectedBones_execute_def bone_names_def
        affected_def f_def w'_def)
  have f: "f obj = obj\<lparr>vertex_groups :=
      filter (\<lambda>vg. vertex_group.name vg \<in> (\<lambda>b. bone.name (get_bone w b)) ` set bs)
        (vertex_groups obj)\<rparr>" for obj
    by (simp add: f_def remove_unselected_filter bone_names_def)
  have idem: "f (f obj) = f obj" for obj
    by (simp add: f)
  have obj: "objects w' j = (if j \<in> set affected then f (objects w j) else objects w j)" for j
    unfolding w'_def by (rule for_objects_idem) (rule idem)
  have aff: "j \<in> set affected \<longleftrightarrow> j \<in> set (selected_objects w) \<and> object.type (objects w j) = ''MESH''"
    for j by (auto simp: affected_def)
  show ?thesis
    unfolding ex by (simp add: obj aff f)
qed

text \<open>
  In the example scene in pose mode the bones \<open>spine\<close> and \<open>leg\<close> are selected: \<open>Cube\<close>
  loses the group \<open>arm\<close>; the armature and the mesh that is not selected stay.
\<close>

theorem remove_vertex_groups_keeps_selected_bones_witness:
  "selected_pose_bones example_pose_world = Some [(2, 0), (2, 2)] \<and>
   bone.name (get_bone example_pose_world (2, 0)) = ''spine'' \<and>
   bone.name (get_bone example_pose_world (2, 2)) = ''leg'' \<and>
   selected_objects example_pose_world = [2, 0] \<and>
   object.type (objects example_pose_world 0) = ''MESH'' \<and>
   map vertex_group.name (vertex_groups (objects example_pose_world 0)) = [''spine'', ''arm'', ''leg''] \<and>
   fst (ADH_RemoveVertexGroupsUnselectedBones_execute example_pose_world) = Inr FINISHED \<and>
   map vertex_group.name
     (vertex_groups (objects (snd (ADH_RemoveVertexGroupsUnselectedBones_execute example_pose_world)) 0))
     = [''spine'', ''leg''] \<and>
   objects (snd (ADH_RemoveVertexGroupsUnselectedBones_execute example_pose_world)) 2 =
     objects example_pose_world 2 \<and>
   objects (snd (ADH_RemoveVertexGroupsUnselectedBones_execute example_pose_world)) 1 =
     objects example_pose_world 1"
proof -
  have h: "selected_pose_bones example_pose_world = Some [(2, 0), (2, 2)]"
    by (simp add: example_pose_world_simps)
  have names: "bone.name (get_bone example_pose_world (2, 0)) = ''spine''"
      "bone.name (get_bone example_pose_world (2, 2)) = ''leg''"
    by (simp_all add: get_bone_def example_pose_world_simps example_objects_simps example_bone_def)
  have sel: "selected_objects example_pose_world = [2, 0]"
    by (simp add: example_pose_world_simps)
  have ty: "object.type (objects example_pose_world 0) = ''MESH''"
      "object.type (objects example_pose_world 2) \<noteq> ''MESH''"
    by (simp_all add: example_pose_world_simps example_objects_simps)
  have vgs: "vertex_groups (objects example_pose_world 0) =
      [\<lparr>vertex_group.name = ''spine'', weights = [(0, 1)]\<rparr>,
       \<lparr>vertex_group.name = ''arm'', weights = [(1, 1)]\<rparr>,
       \<lparr>vertex_group.name = ''leg'', weights = [(2, 1)]\<rparr>]"
    by (simp add: example_pose_world_simps example_objects_def example_object_def)
  show ?thesis
    using remove_vertex_groups_keeps_selected_bones [OF h] names sel ty vgs h
    by simp
qed

subsection \<open>ADH_RenameRegex\<close>

lemma get_bone_update_object_name [simp]:
  "get_bone (update_object i (\<lambda>obj. obj\<lparr>object.name := n\<rparr>) w) r = get_bone w r"
  by (simp add: get_bone_def pose_bones_def)

lemma valid_bone_update_object_name [simp]:
  "valid_bone (update_object i (\<lambda>obj. obj\<lparr>object.name := n\<rparr>) w) r = valid_bone w r"
  by (simp add: valid_bone_def pose_bones_def)

lemma pose_bones_bone_name_fix:
  "pose_bones (bone_name_fix a oldname newname obj) =
     map (\<lambda>b. b\<lparr>constraints := map (constraint_bone_name_fix a oldname newname) (constraints b)\<rparr>)
       (pose_bones obj)"
  by (cases "pose obj") (simp_all add: bone_name_fix_def pose_bones_def)

lemma bone_name_fix_name [simp]:
  "object.name (bone_name_fix a oldname newname obj) = object.name obj"
  by (simp add: bone_name_fix_def)

lemma set_item_name_fields [simp]:
  "adh_regex_replacement_string (set_item_name h it n w) = adh_regex_replacement_string w"
  "mode (set_item_name h it n w) = mode w"
  "area (set_item_name h it n w) = area w"
  "addon (set_item_name h it n w) = addon w"
  "objects_len (set_item_name h it n w) = objects_len w"
  by (cases it; simp add: object_rename_def bone_rename_def Let_def)+

lemma length_pose_bones_bone_rename [simp]:
  "length (pose_bones (objects (bone_rename h r n w) a)) = length (pose_bones (objects w a))"
  by (simp add: bone_rename_def Let_def pose_bones_bone_name_fix pose_bones_update_bone)

lemma valid_bone_set_item_name [simp]:
  "valid_bone (set_item_name h it n w) r = valid_bone w r"
proof (cases it)
  case (ObjectItem i)
  then show ?thesis by (simp add: object_rename_def)
next
  case (BoneItem r')
  then show ?thesis by (simp add: valid_bone_def)
qed

lemma valid_item_set_item_name [simp]:
  "valid_item (set_item_name h it n w) it' = valid_item w it'"
  by (cases it') simp_all

lemma name_rival_set_item_name [simp]:
  "name_rival (set_item_name h it n w) it1 it2 = name_rival w it1 it2"
  by (cases it1; cases it2) simp_all

lemma name_rival_valid: "name_rival w it it' \<Longrightarrow> valid_item w it'"
  by (cases it; cases it') simp_all

lemma take_fits [simp]: "length n \<le> 63 \<Longrightarrow> take 63 n = n"
  by simp

lemma object_rename_names:
  assumes "n \<noteq> []" and "length n \<le> 63"
    and "\<forall>j<objects_len w. j \<noteq> i \<longrightarrow> object.name (objects w j) \<noteq> n"
  shows "object.name (objects (object_rename h i n w) j) = (if j = i then n else object.name (objects w j))"
proof -
  have "n \<notin> set (other_object_names w i)"
    using assms(3) by (auto simp: other_object_names_def)
  then show ?thesis
    using assms(1,2) by (simp add: object_rename_def stored_name_def)
qed

lemma get_bone_bone_name_fix_name:
  assumes "valid_bone w r'"
  shows "bone.name (get_bone (w\<lparr>objects := (\<lambda>ob. if ob < len then bone_name_fix a oldname newname (objects w ob)
                                                 else objects w ob)\<rparr>) r') = bone.name (get_bone w r')"
  using assms by (simp add: get_bone_def valid_bone_def pose_bones_bone_name_fix)

lemma bone_rename_names:
  assumes "valid_bone w r" and "valid_bone w r'"
    and "n \<noteq> []" and "length n \<le> 63"
    and "\<forall>k<length (pose_bones (objects w (fst r))). k \<noteq> snd r \<longrightarrow>
           bone.name (pose_bones (objects w (fst r)) ! k) \<noteq> n"
  shows "bone.name (get_bone (bone_rename h r n w) r') = (if r' = r then n else bone.name (get_bone w r'))"
proof (cases "n = bone.name (get_bone w r)")
  case True
  then show ?thesis using assms(4) by (simp add: bone_rename_def)
next
  case False
  have "n \<notin> set (map bone.name (pose_bones (objects w (fst r))))"
  proof
    assume "n \<in> set (map bone.name (pose_bones (objects w (fst r))))"
    then obtain k where k: "k < length (pose_bones (objects w (fst r)))"
      "bone.name (pose_bones (objects w (fst r)) ! k) = n"
      by (auto simp: in_set_conv_nth)
    show False
    proof (cases "k = snd r")
      case True
      with k(2) False show False by (simp add: get_bone_def)
    next
      case False
      with k assms(5) show False by blast
    qed
  qed
  then have st: "stored_name (bone_unique_name h) (map bone.name (pose_bones (objects w (fst r)))) n = n"
    using assms(3) by (simp add: stored_name_def)
  have v1: "valid_bone (update_bone r (\<lambda>b. b\<lparr>bone.name := n\<rparr>) w) r'"
    using assms(2) by simp
  show ?thesis
    using False assms(2,4)
    by (simp add: bone_rename_def Let_def st get_bone_bone_name_fix_name [OF v1] get_bone_update_bone
        cong: if_cong)
qed

lemma bone_rename_object_name [simp]:
  "object.name (objects (bone_rename h r n w) j) = object.name (objects w j)"
  by (simp add: bone_rename_def Let_def)

lemma item_name_set_item_name:
  assumes "valid_item w it" and "valid_item w it'"
    and "n \<noteq> []" and "length n \<le> 63"
    and "\<forall>x. name_rival w it x \<longrightarrow> item_name w x \<noteq> n"
  shows "item_name (set_item_name h it n w) it' = (if it' = it then n else item_name w it')"
proof (cases it)
  case (ObjectItem i)
  have r: "\<forall>j<objects_len w. j \<noteq> i \<longrightarrow> object.name (objects w j) \<noteq> n"
  proof (intro allI impI)
    fix j assume "j < objects_len w" "j \<noteq> i"
    then have "name_rival w it (ObjectItem j)" using ObjectItem by simp
    with assms(5) show "object.name (objects w j) \<noteq> n" by fastforce
  qed
  show ?thesis
  proof (cases it')
    case (ObjectItem j)
    then show ?thesis
      using \<open>it = ObjectItem i\<close> object_rename_names [OF assms(3,4) r, where h = h] by simp
  next
    case (BoneItem r')
    then show ?thesis
      using \<open>it = ObjectItem i\<close> by (simp add: object_rename_def)
  qed
next
  case (BoneItem r)
  have v: "valid_bone w r" using assms(1) BoneItem by simp
  have f: "\<forall>k<length (pose_bones (objects w (fst r))). k \<noteq> snd r \<longrightarrow>
           bone.name (pose_bones (objects w (fst r)) ! k) \<noteq> n"
  proof (intro allI impI)
    fix k assume k: "k < length (pose_bones (objects w (fst r)))" "k \<noteq> snd r"
    then have "name_rival w it (BoneItem (fst r, k))"
      using BoneItem by (simp add: valid_bone_def)
    with assms(5) have "item_name w (BoneItem (fst r, k)) \<noteq> n" by blast
    then show "bone.name (pose_bones (objects w (fst r)) ! k) \<noteq> n"
      by (simp add: get_bone_def)
  qed
  show ?thesis
  proof (cases it')
    case (ObjectItem j)
    then show ?thesis using BoneItem by simp
  next
    case (BoneItem r')
    then have "valid_bone w r'" using assms(2) by simp
    from bone_rename_names [OF v this assms(3,4) f, where h = h] show ?thesis
      using BoneItem \<open>it = BoneItem r\<close> by simp
  qed
qed

lemma rename_items_renames:
  assumes "distinct items"
    and "\<forall>it\<in>set items. valid_item w it"
    and "\<forall>it\<in>set items.
           re_sub h substring_re (adh_regex_replacement_string w) (item_name w it) = Inr (new it) \<and>
           new it \<noteq> [] \<and> length (new it) \<le> 63"
    and "\<forall>it\<in>set items. \<forall>x. name_rival w it x \<longrightarrow>
           new it \<noteq> item_name w x \<and> (x \<in> set items \<longrightarrow> new it \<noteq> new x)"
  shows "fst (rename_items h substring_re items w) = None \<and>
     mode (snd (rename_items h substring_re items w)) = mode w \<and>
     area (snd (rename_items h substring_re items w)) = area w \<and>
     (\<forall>it. valid_item w it \<longrightarrow>
        item_name (snd (rename_items h substring_re items w)) it =
          (if it \<in> set items then new it else item_name w it))"
  using assms
proof (induction items arbitrary: w)
  case Nil
  show ?case by simp
next
  case (Cons item items)
  let ?n = "new item"
  from Cons.prems(3) have
    n: "re_sub h substring_re (adh_regex_replacement_string w) (item_name w item) = Inr ?n"
    and fits: "?n \<noteq> []" "length ?n \<le> 63"
    by auto
  define w1 where "w1 = set_item_name h item ?n w"
  have step: "rename_items h substring_re (item # items) w = rename_items h substring_re items w1"
    by (simp add: n w1_def)
  from Cons.prems(1) have notin: "item \<notin> set items" and dist: "distinct items" by simp_all
  have vitem: "valid_item w item" using Cons.prems(2) by simp
  have free: "\<forall>x. name_rival w item x \<longrightarrow> item_name w x \<noteq> ?n"
    using Cons.prems(4) by fastforce
  have name1: "item_name w1 it = (if it = item then ?n else item_name w it)" if "valid_item w it" for it
    unfolding w1_def by (rule item_name_set_item_name [OF vitem that fits free])
  have valid1: "\<forall>it\<in>set items. valid_item w1 it"
    using Cons.prems(2) by (simp add: w1_def)
  have repl: "adh_regex_replacement_string w1 = adh_regex_replacement_string w"
    and mode1: "mode w1 = mode w" and area1: "area w1 = area w"
    by (simp_all add: w1_def)
  have sub1: "\<forall>it\<in>set items.
      re_sub h substring_re (adh_regex_replacement_string w1) (item_name w1 it) = Inr (new it) \<and>
      new it \<noteq> [] \<and> length (new it) \<le> 63"
  proof
    fix it assume it: "it \<in> set items"
    then have "valid_item w it" "it \<noteq> item" using Cons.prems(2) notin by auto
    then have "item_name w1 it = item_name w it" by (simp add: name1)
    then show "re_sub h substring_re (adh_regex_replacement_string w1) (item_name w1 it) = Inr (new it) \<and>
      new it \<noteq> [] \<and> length (new it) \<le> 63"
      using Cons.prems(3) it repl by simp
  qed
  have riv1: "\<forall>it\<in>set items. \<forall>x. name_rival w1 it x \<longrightarrow>
           new it \<noteq> item_name w1 x \<and> (x \<in> set items \<longrightarrow> new it \<noteq> new x)"
  proof (intro ballI allI impI)
    fix it x assume it: "it \<in> set items" and "name_rival w1 it x"
    then have r: "name_rival w it x" by (simp add: w1_def)
    then have vx: "valid_item w x" by (rule name_rival_valid)
    from Cons.prems(4) it r have a: "new it \<noteq> item_name w x"
      and b: "x \<in> set (item # items) \<longrightarrow> new it \<noteq> new x"
      by auto
    show "new it \<noteq> item_name w1 x \<and> (x \<in> set items \<longrightarrow> new it \<noteq> new x)"
      using a b by (simp add: name1 [OF vx])
  qed
  note IH = Cons.IH [OF dist valid1 sub1 riv1]
  have names: "item_name (snd (rename_items h substring_re items w1)) it =
          (if it \<in> set (item # items) then new it else item_name w it)" if v: "valid_item w it" for it
  proof -
    have v1: "valid_item w1 it" using v by (simp add: w1_def)
    from IH v1 have "item_name (snd (rename_items h substring_re items w1)) it =
          (if it \<in> set items then new it else item_name w1 it)" by blast
    moreover have "item_name w1 it = (if it = item then ?n else item_name w it)"
      by (rule name1 [OF v])
    ultimately show ?thesis
      using notin by (cases "it = item") simp_all
  qed
  show ?case
    unfolding step using IH names mode1 area1 by simp
qed

lemma item_name_area [simp]: "item_name (w\<lparr>area := x\<rparr>) it = item_name w it"
  by (cases it) (simp_all add: get_bone_def)

lemma rename_item_list_renames:
  assumes "distinct items"
    and "\<forall>it\<in>set items. valid_item w it"
    and "\<forall>it\<in>set items.
           re_sub h substring_re (adh_regex_replacement_string w) (item_name w it) = Inr (new it) \<and>
           new it \<noteq> [] \<and> length (new it) \<le> 63"
    and "\<forall>it\<in>set items. \<forall>x. name_rival w it x \<longrightarrow>
           new it \<noteq> item_name w x \<and> (x \<in> set items \<longrightarrow> new it \<noteq> new x)"
  shows "fst (rename_item_list h substring_re (Some items) w) =
           (if mode w = ''POSE'' \<and> area w = None then Inl AttributeError else Inr FINISHED) \<and>
     (\<forall>it\<in>set items. item_name (snd (rename_item_list h substring_re (Some items) w)) it = new it)"
proof -
  note r = rename_items_renames [OF assms]
  obtain e w' where rw: "rename_items h substring_re items w = (e, w')"
    by (cases "rename_items h substring_re items w")
  with r have e: "e = None" and m: "mode w' = mode w" and a: "area w' = area w" by simp_all
  have names: "\<forall>it\<in>set items. item_name w' it = new it"
    using r rw assms(2) by auto
  show ?thesis
    using names
    by (cases "area w") (simp_all add: rename_item_list_def rw e m a tag_redraw_def)
qed

lemma rename_bone_list_renames:
  assumes d: "distinct bs"
    and s: "\<forall>b\<in>set bs. valid_bone w b \<and>
         re_sub h substring_re (adh_regex_replacement_string w) (bone.name (get_bone w b)) =
           Inr (new_bone_name b) \<and>
         new_bone_name b \<noteq> [] \<and> length (new_bone_name b) \<le> 63 \<and>
         (\<forall>k<length (pose_bones (objects w (fst b))). k \<noteq> snd b \<longrightarrow>
            new_bone_name b \<noteq> bone.name (get_bone w (fst b, k)) \<and>
            ((fst b, k) \<in> set bs \<longrightarrow> new_bone_name b \<noteq> new_bone_name (fst b, k)))"
  shows "fst (rename_item_list h substring_re (Some (map BoneItem bs)) w) =
           (if mode w = ''POSE'' \<and> area w = None then Inl AttributeError else Inr FINISHED) \<and>
      (\<forall>b\<in>set bs.
         bone.name (get_bone (snd (rename_item_list h substring_re (Some (map BoneItem bs)) w)) b) =
           new_bone_name b)"
proof -
  define new where "new = (\<lambda>it. case it of ObjectItem i \<Rightarrow> [] | BoneItem r \<Rightarrow> new_bone_name r)"
  have new_simps: "new (BoneItem r) = new_bone_name r" for r
    by (simp add: new_def)
  let ?items = "map BoneItem bs"
  have 1: "distinct ?items"
    using d by (simp add: distinct_map inj_on_def)
  have 2: "\<forall>it\<in>set ?items. valid_item w it" using s by simp
  have 3: "\<forall>it\<in>set ?items.
         re_sub h substring_re (adh_regex_replacement_string w) (item_name w it) = Inr (new it) \<and>
         new it \<noteq> [] \<and> length (new it) \<le> 63"
    using s by (simp add: new_simps)
  have 4: "\<forall>it\<in>set ?items. \<forall>x. name_rival w it x \<longrightarrow>
         new it \<noteq> item_name w x \<and> (x \<in> set ?items \<longrightarrow> new it \<noteq> new x)"
  proof (intro ballI allI impI)
    fix it x assume it: "it \<in> set ?items" and r: "name_rival w it x"
    from it obtain b where b: "it = BoneItem b" "b \<in> set bs" by auto
    from r b obtain k where k: "x = BoneItem (fst b, k)" "k \<noteq> snd b"
      "k < length (pose_bones (objects w (fst b)))"
      by (cases x) (auto simp: valid_bone_def)
    from s b(2) k(2,3) have "new_bone_name b \<noteq> bone.name (get_bone w (fst b, k)) \<and>
          ((fst b, k) \<in> set bs \<longrightarrow> new_bone_name b \<noteq> new_bone_name (fst b, k))" by blast
    then show "new it \<noteq> item_name w x \<and> (x \<in> set ?items \<longrightarrow> new it \<noteq> new x)"
      using b(1) k(1) by (auto simp: new_simps)
  qed
  from rename_item_list_renames [OF 1 2 3 4] show ?thesis
    by (simp add: new_simps)
qed

text \<open>
  Claim C1, amended. Let the search pattern of the scene compile, and let the substitution
  have a result on the name of every selected item: a name that is not empty, is at most
  63 bytes long, and differs from the names of the other objects (for a bone: of the other
  bones of its armature), both from the names they have and from the names the selected
  ones among them are to get. In \<^verbatim>\<open>OBJECT\<close> mode the operator returns \<^verbatim>\<open>FINISHED\<close> and the
  name of every selected object is then what \<^verbatim>\<open>re.sub\<close> makes of its old name with the
  compiled pattern and the replacement string of the scene. The same holds for the
  selected edit bones in \<^verbatim>\<open>EDIT_ARMATURE\<close> mode, and for the selected pose bones in
  \<^verbatim>\<open>POSE\<close> mode when the context has an area; without an area the pose bones are
  renamed in the same way and the operator then raises \<^verbatim>\<open>AttributeError\<close>. (A selection
  names each item once and refers to bones that exist.)
\<close>

theorem rename_regex_substitutes:
  assumes "re_compile h (adh_regex_search_pattern w) = Inr substring_re"
  shows
    "(mode w = ''OBJECT'' \<and> distinct (selected_objects w) \<and>
      (\<forall>obj\<in>set (selected_objects w).
         re_sub h substring_re (adh_regex_replacement_string w) (object.name (objects w obj)) =
           Inr (new_name obj) \<and>
         new_name obj \<noteq> [] \<and> length (new_name obj) \<le> 63 \<and>
         (\<forall>j<objects_len w. j \<noteq> obj \<longrightarrow>
            new_name obj \<noteq> object.name (objects w j) \<and>
            (j \<in> set (selected_objects w) \<longrightarrow> new_name obj \<noteq> new_name j)))
      \<longrightarrow>
      fst (ADH_RenameRegex_execute h w) = Inr FINISHED \<and>
      (\<forall>obj\<in>set (selected_objects w).
         object.name (objects (snd (ADH_RenameRegex_execute h w)) obj) = new_name obj)) \<and>
     (mode w = ''POSE'' \<and> selected_pose_bones w = Some bs \<and> distinct bs \<and>
      (\<forall>b\<in>set bs. valid_bone w b \<and>
         re_sub h substring_re (adh_regex_replacement_string w) (bone.name (get_bone w b)) =
           Inr (new_bone_name b) \<and>
         new_bone_name b \<noteq> [] \<and> length (new_bone_name b) \<le> 63 \<and>
         (\<forall>k<length (pose_bones (objects w (fst b))). k \<noteq> snd b \<longrightarrow>
            new_bone_name b \<noteq> bone.name (get_bone w (fst b, k)) \<and>
            ((fst b, k) \<in> set bs \<longrightarrow> new_bone_name b \<noteq> new_bone_name (fst b, k))))
      \<longrightarrow>
      fst (ADH_RenameRegex_execute h w) =
        (case area w of None \<Rightarrow> Inl AttributeError | Some tag \<Rightarrow> Inr FINISHED) \<and>
      (\<forall>b\<in>set bs.
         bone.name (get_bone (snd (ADH_RenameRegex_execute h w)) b) = new_bone_name b)) \<and>
     (mode w = ''EDIT_ARMATURE'' \<and> selected_bones w = Some bs \<and> distinct bs \<and>
      (\<forall>b\<in>set bs. valid_bone w b \<and>
         re_sub h substring_re (adh_regex_replacement_string w) (bone.name (get_bone w b)) =
           Inr (new_bone_name b) \<and>
         new_bone_name b \<noteq> [] \<and> length (new_bone_name b) \<le> 63 \<and>
         (\<forall>k<length (pose_bones (objects w (fst b))). k \<noteq> snd b \<longrightarrow>
            new_bone_name b \<noteq> bone.name (get_bone w (fst b, k)) \<and>
            ((fst b, k) \<in> set bs \<longrightarrow> new_bone_name b \<noteq> new_bone_name (fst b, k))))
      \<longrightarrow>
      fst (ADH_RenameRegex_execute h w) = Inr FINISHED \<and>
      (\<forall>b\<in>set bs.
         bone.name (get_bone (snd (ADH_RenameRegex_execute h w)) b) = new_bone_name b))"
proof -
  define new where "new = (\<lambda>it. case it of ObjectItem i \<Rightarrow> new_name i | BoneItem r \<Rightarrow> new_bone_name r)"
  have new_simps: "new (ObjectItem i) = new_name i" "new (BoneItem r) = new_bone_name r" for i r
    by (simp_all add: new_def)
  have o: "fst (ADH_RenameRegex_execute h w) = Inr FINISHED \<and>
      (\<forall>obj\<in>set (selected_objects w).
         object.name (objects (snd (ADH_RenameRegex_execute h w)) obj) = new_name obj)"
    if m: "mode w = ''OBJECT''" and d: "distinct (selected_objects w)"
      and s: "\<forall>obj\<in>set (selected_objects w).
         re_sub h substring_re (adh_regex_replacement_string w) (object.name (objects w obj)) =
           Inr (new_name obj) \<and>
         new_name obj \<noteq> [] \<and> length (new_name obj) \<le> 63 \<and>
         (\<forall>j<objects_len w. j \<noteq> obj \<longrightarrow>
            new_name obj \<noteq> object.name (objects w j) \<and>
            (j \<in> set (selected_objects w) \<longrightarrow> new_name obj \<noteq> new_name j))"
  proof -
    let ?items = "map ObjectItem (selected_objects w)"
    have 1: "distinct ?items"
      using d by (simp add: distinct_map inj_on_def)
    have 2: "\<forall>it\<in>set ?items. valid_item w it" by simp
    have 3: "\<forall>it\<in>set ?items.
           re_sub h substring_re (adh_regex_replacement_string w) (item_name w it) = Inr (new it) \<and>
           new it \<noteq> [] \<and> length (new it) \<le> 63"
      using s by (simp add: new_simps)
    have 4: "\<forall>it\<in>set ?items. \<forall>x. name_rival w it x \<longrightarrow>
           new it \<noteq> item_name w x \<and> (x \<in> set ?items \<longrightarrow> new it \<noteq> new x)"
    proof (intro ballI allI impI)
      fix it x assume it: "it \<in> set ?items" and r: "name_rival w it x"
      from it obtain i where i: "it = ObjectItem i" "i \<in> set (selected_objects w)" by auto
      from r i obtain j where j: "x = ObjectItem j" "j \<noteq> i" "j < objects_len w"
        by (cases x) simp_all
      from s i(2) j(2,3) have "new_name i \<noteq> object.name (objects w j) \<and>
            (j \<in> set (selected_objects w) \<longrightarrow> new_name i \<noteq> new_name j)" by blast
      then show "new it \<noteq> item_name w x \<and> (x \<in> set ?items \<longrightarrow> new it \<noteq> new x)"
        using i(1) j(1) by (auto simp: new_simps)
    qed
    from rename_item_list_renames [OF 1 2 3 4] show ?thesis
      using assms m by (simp add: ADH_RenameRegex_execute_def new_simps)
  qed
  have p: "fst (ADH_RenameRegex_execute h w) =
        (case area w of None \<Rightarrow> Inl AttributeError | Some tag \<Rightarrow> Inr FINISHED) \<and>
      (\<forall>b\<in>set bs.
         bone.name (get_bone (snd (ADH_RenameRegex_execute h w)) b) = new_bone_name b)"
    if "mode w = ''POSE''" "selected_pose_bones w = Some bs" "distinct bs"
      "\<forall>b\<in>set bs. valid_bone w b \<and>
         re_sub h substring_re (adh_regex_replacement_string w) (bone.name (get_bone w b)) =
           Inr (new_bone_name b) \<and>
         new_bone_name b \<noteq> [] \<and> length (new_bone_name b) \<le> 63 \<and>
         (\<forall>k<length (pose_bones (objects w (fst b))). k \<noteq> snd b \<longrightarrow>
            new_bone_name b \<noteq> bone.name (get_bone w (fst b, k)) \<and>
            ((fst b, k) \<in> set bs \<longrightarrow> new_bone_name b \<noteq> new_bone_name (fst b, k)))"
    using rename_bone_list_renames [OF that(3,4)] assms that(1,2)
    by (cases "area w") (simp_all add: ADH_RenameRegex_execute_def)
  have e: "fst (ADH_RenameRegex_execute h w) = Inr FINISHED \<and>
      (\<forall>b\<in>set bs.
         bone.name (get_bone (snd (ADH_RenameRegex_execute h w)) b) = new_bone_name b)"
    if "mode w = ''EDIT_ARMATURE''" "selected_bones w = Some bs" "distinct bs"
      "\<forall>b\<in>set bs. valid_bone w b \<and>
         re_sub h substring_re (adh_regex_replacement_string w) (bone.name (get_bone w b)) =
           Inr (new_bone_name b) \<and>
         new_bone_name b \<noteq> [] \<and> length (new_bone_name b) \<le> 63 \<and>
         (\<forall>k<length (pose_bones (objects w (fst b))). k \<noteq> snd b \<longrightarrow>
            new_bone_name b \<noteq> bone.name (get_bone w (fst b, k)) \<and>
            ((fst b, k) \<in> set bs \<longrightarrow> new_bone_name b \<noteq> new_bone_name (fst b, k)))"
    using rename_bone_list_renames [OF that(3,4)] assms that(1,2) by (simp add: ADH_RenameRegex_execute_def)
  show ?thesis
    using o p e by blast
qed

lemma all_less_6: "(\<forall>j<6::nat. P j) \<longleftrightarrow> P 0 \<and> P 1 \<and> P 2 \<and> P 3 \<and> P 4 \<and> P 5"
proof -
  have "j < 6 \<longleftrightarrow> j = 0 \<or> j = 1 \<or> j = 2 \<or> j = 3 \<or> j = 4 \<or> j = 5" for j :: nat
    by arith
  then show ?thesis by auto
qed

lemma all_less_3: "(\<forall>j<3::nat. P j) \<longleftrightarrow> P 0 \<and> P 1 \<and> P 2"
proof -
  have "j < 3 \<longleftrightarrow> j = 0 \<or> j = 1 \<or> j = 2" for j :: nat
    by arith
  then show ?thesis by auto
qed

lemma all_less_Suc3: "(\<forall>j<Suc (Suc (Suc 0)). P j) \<longleftrightarrow> P 0 \<and> P (Suc 0) \<and> P 2"
  using all_less_3 [of P] by (simp add: numeral_3_eq_3)

lemma example_lens:
  "objects_len example_world = 6"
  "area example_pose_world = Some False"
  by (simp_all add: example_world_def example_pose_world_def)


text \<open>
  The example scene in the three modes, with the pattern \<open>e\<close> and the replacement
  \<open>xy\<close>.
\<close>

theorem rename_regex_substitutes_witness:
  "re_compile example_host (adh_regex_search_pattern example_world) = Inr CHR ''e'' \<and>
   mode example_world = ''OBJECT'' \<and> selected_objects example_world = [0, 1] \<and>
   object.name (objects example_world 0) = ''Cube'' \<and>
   fst (ADH_RenameRegex_execute example_host example_world) = Inr FINISHED \<and>
   object.name (objects (snd (ADH_RenameRegex_execute example_host example_world)) 0) = ''Cubxy'' \<and>
   object.name (objects (snd (ADH_RenameRegex_execute example_host example_world)) 1) = ''Ball'' \<and>
   mode example_pose_world = ''POSE'' \<and> area example_pose_world = Some False \<and>
   selected_pose_bones example_pose_world = Some [(2, 0), (2, 2)] \<and>
   bone.name (get_bone example_pose_world (2, 0)) = ''spine'' \<and>
   fst (ADH_RenameRegex_execute example_host example_pose_world) = Inr FINISHED \<and>
   bone.name (get_bone (snd (ADH_RenameRegex_execute example_host example_pose_world)) (2, 0)) = ''spinxy'' \<and>
   bone.name (get_bone (snd (ADH_RenameRegex_execute example_host example_pose_world)) (2, 2)) = ''lxyg'' \<and>
   mode example_edit_world = ''EDIT_ARMATURE'' \<and>
   selected_bones example_edit_world = Some [(2, 0), (2, 2)] \<and>
   fst (ADH_RenameRegex_execute example_host example_edit_world) = Inr FINISHED \<and>
   bone.name (get_bone (snd (ADH_RenameRegex_execute example_host example_edit_world)) (2, 0)) = ''spinxy'' \<and>
   bone.name (get_bone (snd (ADH_RenameRegex_execute example_host example_edit_world)) (2, 2)) = ''lxyg''"
proof -
  let ?new = "\<lambda>i::nat. if i = 0 then ''Cubxy'' else ''Ball''"
  let ?newb = "\<lambda>b::bone_ref. if b = (2, 0) then ''spinxy'' else ''lxyg''"
  have c1: "re_compile example_host (adh_regex_search_pattern example_world) = Inr CHR ''e''"
    and c2: "re_compile example_host (adh_regex_search_pattern example_pose_world) = Inr CHR ''e''"
    and c3: "re_compile example_host (adh_regex_search_pattern example_edit_world) = Inr CHR ''e''"
    by (simp_all add: example_world_simps example_edit_world_simps example_host_simps)
  have obj: "fst (ADH_RenameRegex_execute example_host example_world) = Inr FINISHED \<and>
      object.name (objects (snd (ADH_RenameRegex_execute example_host example_world)) 0) = ''Cubxy'' \<and>
      object.name (objects (snd (ADH_RenameRegex_execute example_host example_world)) 1) = ''Ball''"
    using rename_regex_substitutes [OF c1, where new_name = ?new and bs = "[]"]
    by (simp add: example_world_simps example_objects_simps example_objects_Suc_simps
        example_host_simps example_lens all_less_6)
  have pose: "fst (ADH_RenameRegex_execute example_host example_pose_world) = Inr FINISHED \<and>
      bone.name (get_bone (snd (ADH_RenameRegex_execute example_host example_pose_world)) (2, 0)) = ''spinxy'' \<and>
      bone.name (get_bone (snd (ADH_RenameRegex_execute example_host example_pose_world)) (2, 2)) = ''lxyg''"
    using rename_regex_substitutes [OF c2, where bs = "[(2, 0), (2, 2)]" and new_bone_name = ?newb]
    by (simp add: example_world_simps example_pose_world_simps example_bone_names example_host_simps
        example_objects_simps example_lens all_less_Suc3 get_bone_def example_bone_def)
  have edit: "fst (ADH_RenameRegex_execute example_host example_edit_world) = Inr FINISHED \<and>
      bone.name (get_bone (snd (ADH_RenameRegex_execute example_host example_edit_world)) (2, 0)) = ''spinxy'' \<and>
      bone.name (get_bone (snd (ADH_RenameRegex_execute example_host example_edit_world)) (2, 2)) = ''lxyg''"
    using rename_regex_substitutes [OF c3, where bs = "[(2, 0), (2, 2)]" and new_bone_name = ?newb]
    by (simp add: example_edit_world_simps example_bone_names example_host_simps
        example_objects_simps all_less_Suc3 get_bone_def example_bone_def)
  show ?thesis
    using c1 obj pose edit
    by (simp add: example_world_simps example_pose_world_simps example_edit_world_simps
        example_objects_simps example_objects_Suc_simps example_bone_names example_lens)
qed


lemma example_clash_world_simps:
  "mode example_clash_world = ''POSE''"
  "area example_clash_world = Some False"
  "selected_pose_bones example_clash_world = Some [(5, 0)]"
  "objects example_clash_world = example_objects"
  "objects_len example_clash_world = 6"
  "adh_regex_search_pattern example_clash_world = ''s''"
  "adh_regex_replacement_string example_clash_world = ''hook-s''"
  by (simp_all add: example_clash_world_def example_hooked_world_def example_world_def)

lemma example_unique_name:
  "bone_unique_name example_host [''spine'', ''hook-spine''] ''hook-spine'' = ''hook-spine.001''"
  by (simp add: example_host_def number_suffix_def)

text \<open>
  Claim C1 as stated, for every selected item, fails when the name that the substitution
  makes is taken. In the third armature of the example scene the bone \<open>spine\<close> is
  selected and a bone \<open>hook-spine\<close> exists; with the pattern \<open>s\<close> and the replacement
  \<open>hook-s\<close> the substitution makes \<open>hook-spine\<close> of \<open>spine\<close>, and the name the bone
  has after the run is \<open>hook-spine.001\<close>.
\<close>

theorem rename_regex_name_taken_counterexample:
  "mode example_clash_world = ''POSE'' \<and>
   selected_pose_bones example_clash_world = Some [(5, 0)] \<and>
   map bone.name (pose_bones (objects example_clash_world 5)) = [''spine'', ''hook-spine''] \<and>
   re_compile example_host (adh_regex_search_pattern example_clash_world) = Inr CHR ''s'' \<and>
   re_sub example_host CHR ''s'' (adh_regex_replacement_string example_clash_world) ''spine'' =
     Inr ''hook-spine'' \<and>
   fst (ADH_RenameRegex_execute example_host example_clash_world) = Inr FINISHED \<and>
   map bone.name
     (pose_bones (objects (snd (ADH_RenameRegex_execute example_host example_clash_world)) 5)) =
     [''hook-spine.001'', ''hook-spine'']"
proof -
  have c: "re_compile example_host ''s'' = Inr CHR ''s''"
    and s: "re_sub example_host CHR ''s'' ''hook-s'' ''spine'' = Inr ''hook-spine''"
    by (simp_all add: example_host_def)
  have g: "get_bone example_clash_world (5, 0) = example_bone ''spine'' True None"
    by (simp add: get_bone_def example_clash_world_simps example_objects_simps)
  have n: "bone.name (example_bone ''spine'' True None) = ''spine''"
    by (simp add: example_bone_def)
  have names: "map bone.name (pose_bones (objects example_clash_world 5)) = [''spine'', ''hook-spine'']"
    by (simp add: example_clash_world_simps example_objects_simps example_bone_def)
  have st: "stored_name (bone_unique_name example_host) [''spine'', ''hook-spine''] ''hook-spine'' =
      ''hook-spine.001''"
    by (simp add: stored_name_def example_unique_name)
  have br: "map bone.name (pose_bones (objects (bone_rename example_host (5, 0) ''hook-spine''
      example_clash_world) 5)) = [''hook-spine.001'', ''hook-spine'']"
    by (simp add: bone_rename_def Let_def g n names st example_clash_world_simps
        pose_bones_bone_name_fix pose_bones_update_bone example_objects_simps example_bone_def)
  have m: "mode (bone_rename example_host (5, 0) ''hook-spine'' example_clash_world) = ''POSE''"
    and a: "area (bone_rename example_host (5, 0) ''hook-spine'' example_clash_world) = Some False"
    using set_item_name_fields(2,3) [of example_host "BoneItem (5, 0)" "''hook-spine''" example_clash_world]
    by (simp_all add: example_clash_world_simps)
  have ex: "ADH_RenameRegex_execute example_host example_clash_world =
      (Inr FINISHED, (bone_rename example_host (5, 0) ''hook-spine'' example_clash_world)\<lparr>area := Some True\<rparr>)"
    by (simp add: ADH_RenameRegex_execute_def rename_item_list_def example_clash_world_simps c s g n m a
        tag_redraw_def)
  show ?thesis
    unfolding ex using br names
    by (simp add: example_clash_world_simps c s pose_bones_def)
qed

subsection \<open>ADH_CopyCustomShapes\<close>

lemma find_bone_Some:
  "find_bone bs n = Some k \<Longrightarrow> k < length bs \<and> bone.name (bs ! k) = n"
  by (induction bs arbitrary: k) (auto split: if_splits)

lemma find_bone_None:
  "find_bone bs n = None \<Longrightarrow> n \<notin> set (map bone.name bs)"
  by (induction bs) (auto split: if_splits)

lemma find_bone_distinct:
  "distinct (map bone.name bs) \<Longrightarrow> k < length bs \<Longrightarrow> find_bone bs (bone.name (bs ! k)) = Some k"
proof (induction bs arbitrary: k)
  case Nil
  then show ?case by simp
next
  case (Cons b bs)
  show ?case
  proof (cases k)
    case 0
    then show ?thesis by simp
  next
    case (Suc k')
    with Cons.prems have "k' < length bs" "distinct (map bone.name bs)" by simp_all
    from Cons.IH [OF this(2,1)] have "find_bone bs (bone.name (bs ! k')) = Some k'" .
    moreover have "bone.name b \<noteq> bone.name (bs ! k')"
      using Cons.prems(1) \<open>k' < length bs\<close> by force
    ultimately show ?thesis using Suc by simp
  qed
qed

lemma map_name_update:
  "map bone.name (bs[k := (bs ! k)\<lparr>custom_shape := c\<rparr>]) = map bone.name bs"
  by (cases "k < length bs") (auto intro!: nth_equalityI simp: nth_list_update)

text \<open>What one pass of the inner body does, seen from a bone of a destination armature.\<close>

lemma copy_custom_shape_step:
  assumes "armature \<noteq> src"
    and src: "objects w src = src_obj"
    and names: "map bone.name (pose_bones (objects w d)) = map bone.name dbs"
    and dist: "distinct (map bone.name dbs)"
    and k: "k < length dbs"
  shows "objects (copy_custom_shape src j armature w) src = src_obj \<and>
     map bone.name (pose_bones (objects (copy_custom_shape src j armature w) d)) = map bone.name dbs \<and>
     custom_shape (get_bone (copy_custom_shape src j armature w) (d, k)) =
       (if armature = d \<and> bone.name (pose_bones src_obj ! j) = bone.name (dbs ! k)
        then custom_shape (pose_bones src_obj ! j)
        else custom_shape (get_bone w (d, k)))"
proof -
  define sb where "sb = pose_bones src_obj ! j"
  have len: "length (pose_bones (objects w d)) = length dbs"
    using names by (metis length_map)
  have nk: "bone.name (pose_bones (objects w d) ! k) = bone.name (dbs ! k)"
    using names k len by (metis nth_map)
  have vd: "valid_bone w (d, k)"
    using k len by (simp add: valid_bone_def)
  show ?thesis
  proof (cases "pose (objects w armature)")
    case None
    then have same: "copy_custom_shape src j armature w = w"
      by (simp add: copy_custom_shape_def)
    have "armature \<noteq> d"
      using None len k by (auto simp: pose_bones_def)
    then show ?thesis using same src names by simp
  next
    case (Some bs)
    then have pb: "pose_bones (objects w armature) = bs" by (simp add: pose_bones_def)
    show ?thesis
    proof (cases "find_bone bs (bone.name sb)")
      case None
      then have same: "copy_custom_shape src j armature w = w"
        using Some src by (simp add: copy_custom_shape_def sb_def)
      have "\<not> (armature = d \<and> bone.name sb = bone.name (dbs ! k))"
      proof
        assume a: "armature = d \<and> bone.name sb = bone.name (dbs ! k)"
        then have "bone.name sb \<in> set (map bone.name bs)"
          using pb names k by (metis length_map nth_map nth_mem)
        with find_bone_None [OF None] show False by simp
      qed
      then show ?thesis using same src names by (auto simp: sb_def)
    next
      case (Some k')
      let ?w' = "update_bone (armature, k') (\<lambda>b. b\<lparr>custom_shape := custom_shape sb\<rparr>) w"
      have eq: "copy_custom_shape src j armature w = ?w'"
        using \<open>pose (objects w armature) = Some bs\<close> Some src
        by (simp add: copy_custom_shape_def sb_def)
      from find_bone_Some [OF Some] have k': "k' < length bs" "bone.name (bs ! k') = bone.name sb"
        by simp_all
      have s: "objects ?w' src = src_obj"
        using assms(1) src by (simp add: update_bone_other_object)
      have n: "map bone.name (pose_bones (objects ?w' d)) = map bone.name dbs"
        using names by (auto simp: pose_bones_update_bone map_name_update)
      have c: "custom_shape (get_bone ?w' (d, k)) =
         (if armature = d \<and> bone.name sb = bone.name (dbs ! k)
          then custom_shape sb else custom_shape (get_bone w (d, k)))"
      proof (cases "armature = d")
        case False
        then show ?thesis using vd by (simp add: get_bone_update_bone)
      next
        case True
        have bsd: "bs = pose_bones (objects w d)" using pb True by simp
        show ?thesis
        proof (cases "bone.name sb = bone.name (dbs ! k)")
          case True
          have "distinct (map bone.name bs)" using dist names bsd by simp
          moreover have "k < length bs" using k len bsd by simp
          moreover have "bone.name (bs ! k) = bone.name sb" using nk bsd True by simp
          ultimately have "find_bone bs (bone.name sb) = Some k"
            using find_bone_distinct by metis
          with Some have "k' = k" by simp
          then show ?thesis using True \<open>armature = d\<close> vd by (simp add: get_bone_update_bone)
        next
          case False
          have "k' \<noteq> k" using k'(2) nk bsd False by auto
          then show ?thesis using False vd by (simp add: get_bone_update_bone)
        qed
      qed
      show ?thesis unfolding eq using s n c by (simp add: sb_def)
    qed
  qed
qed

lemma copy_custom_shape_inner:
  assumes "src \<notin> set ds"
    and "objects w src = src_obj"
    and "map bone.name (pose_bones (objects w d)) = map bone.name dbs"
    and "distinct (map bone.name dbs)"
    and "k < length dbs"
  shows "objects (fold (copy_custom_shape src j) ds w) src = src_obj \<and>
     map bone.name (pose_bones (objects (fold (copy_custom_shape src j) ds w) d)) = map bone.name dbs \<and>
     custom_shape (get_bone (fold (copy_custom_shape src j) ds w) (d, k)) =
       (if d \<in> set ds \<and> bone.name (pose_bones src_obj ! j) = bone.name (dbs ! k)
        then custom_shape (pose_bones src_obj ! j)
        else custom_shape (get_bone w (d, k)))"
  using assms(1,2,3)
proof (induction ds arbitrary: w)
  case Nil
  then show ?case by simp
next
  case (Cons armature ds)
  from Cons.prems(1) have ne: "armature \<noteq> src" and rest: "src \<notin> set ds" by auto
  note st = copy_custom_shape_step [OF ne Cons.prems(2,3) assms(4,5), of j]
  note IH = Cons.IH [OF rest st [THEN conjunct1] st [THEN conjunct2, THEN conjunct1]]
  show ?case
    using IH st by auto
qed

lemma copy_custom_shape_outer:
  assumes "src \<notin> set ds"
    and "d \<in> set ds"
    and "distinct (map bone.name dbs)"
    and "k < length dbs"
    and "distinct (map bone.name (pose_bones src_obj))"
    and "distinct js"
    and "\<forall>j\<in>set js. j < length (pose_bones src_obj)"
    and "objects w src = src_obj"
    and "map bone.name (pose_bones (objects w d)) = map bone.name dbs"
  shows "map bone.name (pose_bones (objects (fold (\<lambda>j. fold (copy_custom_shape src j) ds) js w) d))
       = map bone.name dbs \<and>
     (\<forall>j\<in>set js. bone.name (pose_bones src_obj ! j) = bone.name (dbs ! k) \<longrightarrow>
        custom_shape (get_bone (fold (\<lambda>j. fold (copy_custom_shape src j) ds) js w) (d, k)) =
        custom_shape (pose_bones src_obj ! j)) \<and>
     ((\<forall>j\<in>set js. bone.name (pose_bones src_obj ! j) \<noteq> bone.name (dbs ! k)) \<longrightarrow>
        custom_shape (get_bone (fold (\<lambda>j. fold (copy_custom_shape src j) ds) js w) (d, k)) =
        custom_shape (get_bone w (d, k)))"
  using assms(6,7,8,9)
proof (induction js arbitrary: w)
  case Nil
  then show ?case by simp
next
  case (Cons j js)
  define w1 where "w1 = fold (copy_custom_shape src j) ds w"
  note inner = copy_custom_shape_inner [OF assms(1) Cons.prems(3,4) assms(3,4), of j]
  from Cons.prems(1,2) have d: "distinct js" "\<forall>j\<in>set js. j < length (pose_bones src_obj)"
    and jn: "j \<notin> set js" and jl: "j < length (pose_bones src_obj)"
    by simp_all
  note IH = Cons.IH [OF d, of w1, unfolded w1_def, OF inner [THEN conjunct1]
      inner [THEN conjunct2, THEN conjunct1]]
  have c1: "custom_shape (get_bone (fold (copy_custom_shape src j) ds w) (d, k)) =
       (if bone.name (pose_bones src_obj ! j) = bone.name (dbs ! k)
        then custom_shape (pose_bones src_obj ! j)
        else custom_shape (get_bone w (d, k)))"
    using inner assms(2) by simp
  have uniq: "bone.name (pose_bones src_obj ! j') \<noteq> bone.name (pose_bones src_obj ! j)"
    if "j' \<in> set js" for j'
  proof -
    from that d(2) jn have "j' < length (pose_bones src_obj)" "j' \<noteq> j" by auto
    then show ?thesis
      using assms(5) jl by (simp add: distinct_conv_nth)
  qed
  show ?case
    using IH c1 uniq by (simp (no_asm_simp)) metis
qed

text \<open>
  What the operator does when the active object is selected. Let the active object be
  one of the selected objects, an armature with a pose, and let \<open>d\<close> be another selected
  armature; in each armature the bones have different names. The operator returns \<^verbatim>\<open>FINISHED\<close>, whether or not the names of
  the two armatures match. A bone of \<open>d\<close> with the name of a bone of the active armature
  has that bone's custom shape afterwards; a bone of \<open>d\<close> with a name that no bone of the
  active armature has keeps its custom shape. The bones of \<open>d\<close> keep their names.
\<close>

lemma copy_shapes_by_name:
  assumes "active_object w = Some src"
    and "src \<in> set (selected_objects w)"
    and "distinct (selected_objects w)"
    and "pose (objects w src) = Some sbs"
    and "distinct (map bone.name sbs)"
    and "d \<in> set (selected_objects w)"
    and "d \<noteq> src"
    and "pose (objects w d) = Some dbs"
    and "distinct (map bone.name dbs)"
    and "k < length dbs"
  shows "fst (ADH_CopyCustomShapes_execute w) = Inr FINISHED \<and>
     (\<forall>j<length sbs. bone.name (sbs ! j) = bone.name (dbs ! k) \<longrightarrow>
        custom_shape (get_bone (snd (ADH_CopyCustomShapes_execute w)) (d, k)) = custom_shape (sbs ! j)) \<and>
     ((\<forall>j<length sbs. bone.name (sbs ! j) \<noteq> bone.name (dbs ! k)) \<longrightarrow>
        custom_shape (get_bone (snd (ADH_CopyCustomShapes_execute w)) (d, k)) = custom_shape (dbs ! k)) \<and>
     map bone.name (pose_bones (objects (snd (ADH_CopyCustomShapes_execute w)) d)) = map bone.name dbs"
proof -
  define ds where "ds = remove1 src (selected_objects w)"
  define w' where "w' = fold (\<lambda>j. fold (copy_custom_shape src j) ds) [0..<length sbs] w"
  have ex: "ADH_CopyCustomShapes_execute w = (Inr FINISHED, w')"
    using assms(1,2,4) by (simp add: ADH_CopyCustomShapes_execute_def ds_def w'_def)
  have src: "src \<notin> set ds" using assms(3) by (simp add: ds_def)
  have d: "d \<in> set ds" using assms(6,7) by (simp add: ds_def)
  have ps: "pose_bones (objects w src) = sbs" and pd: "pose_bones (objects w d) = dbs"
    using assms(4,8) by (simp_all add: pose_bones_def)
  have sd: "distinct (map bone.name (pose_bones (objects w src)))"
    using assms(5) ps by simp
  have old: "custom_shape (get_bone w (d, k)) = custom_shape (dbs ! k)"
    by (simp add: get_bone_def pd)
  note outer = copy_custom_shape_outer [OF src d assms(9,10) sd, of "[0..<length sbs]" w,
      folded w'_def, unfolded ps pd]
  have "map bone.name (pose_bones (objects w' d)) = map bone.name dbs \<and>
     (\<forall>j\<in>set [0..<length sbs]. bone.name (sbs ! j) = bone.name (dbs ! k) \<longrightarrow>
        custom_shape (get_bone w' (d, k)) = custom_shape (sbs ! j)) \<and>
     ((\<forall>j\<in>set [0..<length sbs]. bone.name (sbs ! j) \<noteq> bone.name (dbs ! k)) \<longrightarrow>
        custom_shape (get_bone w' (d, k)) = custom_shape (get_bone w (d, k)))"
    by (rule outer) simp_all
  then show ?thesis
    unfolding ex by (simp add: old)
qed

lemma example_armatures_world_simps:
  "active_object example_armatures_world = Some 2"
  "selected_objects example_armatures_world = [2, 3]"
  "objects example_armatures_world = example_objects"
  "active_object example_unselected_active_world = Some 5"
  "selected_objects example_unselected_active_world = [2, 3]"
  "objects example_unselected_active_world = example_objects"
  by (simp_all add: example_armatures_world_def example_unselected_active_world_def example_world_def)

lemma example_objects_pose:
  "pose (example_objects 2) =
     Some [example_bone ''spine'' True (Some 1), example_bone ''arm'' False None,
           example_bone ''leg'' True None]"
  "pose (example_objects 3) =
     Some [example_bone ''head'' False (Some 4), example_bone ''spine'' False None]"
  by (simp_all add: example_objects_def example_object_def)

text \<open>
  From \<open>rig\<close> to \<open>rig.001\<close>: the bone \<open>spine\<close> takes the shape of its namesake, the
  bone \<open>head\<close>, which has no namesake, keeps its own.
\<close>

lemma copy_shapes_by_name_example:
  "active_object example_armatures_world = Some 2 \<and>
   selected_objects example_armatures_world = [2, 3] \<and>
   map bone.name (pose_bones (objects example_armatures_world 2)) = [''spine'', ''arm'', ''leg''] \<and>
   map bone.name (pose_bones (objects example_armatures_world 3)) = [''head'', ''spine''] \<and>
   custom_shape (get_bone example_armatures_world (2, 0)) = Some 1 \<and>
   custom_shape (get_bone example_armatures_world (3, 0)) = Some 4 \<and>
   custom_shape (get_bone example_armatures_world (3, 1)) = None \<and>
   fst (ADH_CopyCustomShapes_execute example_armatures_world) = Inr FINISHED \<and>
   custom_shape (get_bone (snd (ADH_CopyCustomShapes_execute example_armatures_world)) (3, 1)) = Some 1 \<and>
   custom_shape (get_bone (snd (ADH_CopyCustomShapes_execute example_armatures_world)) (3, 0)) = Some 4"
proof -
  let ?sbs = "[example_bone ''spine'' True (Some 1), example_bone ''arm'' False None,
           example_bone ''leg'' True None]"
  let ?dbs = "[example_bone ''head'' False (Some 4), example_bone ''spine'' False None]"
  have h1: "active_object example_armatures_world = Some 2"
    and h2: "2 \<in> set (selected_objects example_armatures_world)"
    and h3: "distinct (selected_objects example_armatures_world)"
    and h4: "pose (objects example_armatures_world 2) = Some ?sbs"
    and h5: "distinct (map bone.name ?sbs)"
    and h6: "3 \<in> set (selected_objects example_armatures_world)"
    and h7: "(3::nat) \<noteq> 2"
    and h8: "pose (objects example_armatures_world 3) = Some ?dbs"
    and h9: "distinct (map bone.name ?dbs)"
    by (simp_all add: example_armatures_world_simps example_objects_pose example_bone_def)
  have k0: "0 < length ?dbs" and k1: "1 < length ?dbs" by simp_all
  note t0 = copy_shapes_by_name [OF h1 h2 h3 h4 h5 h6 h7 h8 h9 k0]
  note t1 = copy_shapes_by_name [OF h1 h2 h3 h4 h5 h6 h7 h8 h9 k1]
  have fin: "fst (ADH_CopyCustomShapes_execute example_armatures_world) = Inr FINISHED"
    using t0 by blast
  have spine: "custom_shape (get_bone (snd (ADH_CopyCustomShapes_execute example_armatures_world)) (3, 1)) = Some 1"
    using t1 [THEN conjunct2, THEN conjunct1, rule_format, of 0] by (simp add: example_bone_def)
  have "\<forall>j<length ?sbs. bone.name (?sbs ! j) \<noteq> bone.name (?dbs ! 0)"
    by (simp add: example_bone_def less_Suc_eq numeral_3_eq_3)
  then have head: "custom_shape (get_bone (snd (ADH_CopyCustomShapes_execute example_armatures_world)) (3, 0)) = Some 4"
    using t0 [THEN conjunct2, THEN conjunct2, THEN conjunct1] by (simp add: example_bone_def)
  show ?thesis
    using fin spine head
    by (simp add: example_armatures_world_simps example_objects_simps get_bone_def example_bone_def)
qed

text \<open>
  Claim C3, a run never aborts and returns \<^verbatim>\<open>FINISHED\<close>, against the code: the run
  below raises. Two armatures of the example scene are selected and the third, which is
  not selected, is active. The operator's \<^verbatim>\<open>poll\<close> admits the context, and
  \<^verbatim>\<open>dst_armatures.remove(src_armature)\<close> raises \<^verbatim>\<open>ValueError\<close>, which nothing catches,
  before a custom shape is copied: the state is left as it was.
\<close>

theorem copy_shapes_unselected_active_raises:
  "ADH_CopyCustomShapes_poll example_unselected_active_world \<and>
   active_object example_unselected_active_world = Some 5 \<and>
   object.type (objects example_unselected_active_world 5) = ''ARMATURE'' \<and>
   selected_objects example_unselected_active_world = [2, 3] \<and>
   ADH_CopyCustomShapes_execute example_unselected_active_world =
     (Inl ValueError, example_unselected_active_world) \<and>
   fst (ADH_CopyCustomShapes_execute example_unselected_active_world) \<noteq> Inr FINISHED"
  by (simp add: ADH_CopyCustomShapes_poll_def ADH_CopyCustomShapes_execute_def
      example_armatures_world_simps example_objects_simps)

subsection \<open>The widget tables\<close>

lemma sphere_verts_scaled:
  "sphere_verts size' pos = map (scaled_offset size' pos) (sphere_verts 1 0)"
  by (simp add: sphere_verts_def scaled_offset_def)

lemma ring_verts_scaled:
  "ring_verts size' pos = map (scaled_offset size' pos) (ring_verts 1 0)"
  by (simp add: ring_verts_def scaled_offset_def)

lemma box_verts_scaled:
  "box_verts size' pos = map (scaled_xz_offset size' pos) (box_verts 1 0)"
  by (simp add: box_verts_def scaled_xz_offset_def)

lemma table_lengths:
  "length (sphere_verts size' pos) = 26"
  "length (ring_verts size' pos) = 12"
  "length ring_edges = 12"
  "ring_faces = []"
  "length (box_verts size' pos) = 8"
  "length box_edges = 12"
  "length box_faces = 6"
  by (simp_all add: sphere_verts_def ring_verts_def ring_edges_def ring_faces_def box_verts_def
      box_edges_def box_faces_def)

lemma ring_edges_cycle:
  "ring_edges = map (\<lambda>i. (Suc i mod 12, i)) [0..<12]"
  by (simp add: ring_edges_def upt_rec)

lemma box_faces_quads: "\<forall>f\<in>set box_faces. length f = 4"
  by (simp add: box_faces_def)

text \<open>
  Claim C6 as stated has every coordinate of every table scaled by the size. The box
  table is not so: at size 2 its vertices are not the vertices at size 1 scaled by 2,
  because the second coordinate, \<^verbatim>\<open>-0.5+pos\<close> and \<^verbatim>\<open>0.5+pos\<close> in the source, does not
  depend on the size.
\<close>

theorem box_not_scaled_counterexample:
  "box_verts 2 0 \<noteq> map (scaled_offset 2 0) (box_verts 1 0)"
  by (simp add: box_verts_def scaled_offset_def)

lemma create_widget_Some:
  assumes "create_widget h self rig bone_name w = (Inr (Some obj), w')"
  shows "data (objects w' obj) = Some (meshes_len w)"
  using assms
  by (auto simp: create_widget_def Let_def objects_new_def
      split: if_splits option.splits sum.splits prod.splits)

lemma from_pydata_widget_mesh:
  "data (objects w obj) = Some mesh \<Longrightarrow> widget_mesh (from_pydata obj verts es fs w) obj = Some (verts, es, fs)"
  by (simp add: widget_mesh_def from_pydata_def update_mesh_def)

lemma create_sphere_widget_mesh:
  assumes "create_sphere_widget h self rig bone_name size' pos w = (Inr (Some obj), w')"
  shows "widget_mesh w' obj = Some (sphere_verts size' pos, sphere_edges, sphere_faces)"
proof -
  obtain r w1 where cw: "create_widget h self rig bone_name w = (r, w1)"
    by (cases "create_widget h self rig bone_name w")
  with assms have r: "r = Inr (Some obj)"
    and w': "w' = from_pydata obj (sphere_verts size' pos) sphere_edges sphere_faces w1"
    by (auto simp: create_sphere_widget_def split: sum.splits option.splits)
  from create_widget_Some [OF cw [unfolded r]] show ?thesis
    unfolding w' by (rule from_pydata_widget_mesh)
qed

lemma create_ring_widget_mesh:
  assumes "create_ring_widget h self rig bone_name size' pos w = (Inr (Some obj), w')"
  shows "widget_mesh w' obj = Some (ring_verts size' pos, ring_edges, ring_faces)"
proof -
  obtain r w1 where cw: "create_widget h self rig bone_name w = (r, w1)"
    by (cases "create_widget h self rig bone_name w")
  with assms have r: "r = Inr (Some obj)"
    and w': "w' = from_pydata obj (ring_verts size' pos) ring_edges ring_faces w1"
    by (auto simp: create_ring_widget_def split: sum.splits option.splits)
  from create_widget_Some [OF cw [unfolded r]] show ?thesis
    unfolding w' by (rule from_pydata_widget_mesh)
qed

lemma create_box_widget_mesh:
  assumes "create_box_widget h self rig bone_name size' pos w = (Inr (Some obj), w')"
  shows "widget_mesh w' obj = Some (box_verts size' pos, box_edges, box_faces)"
proof -
  obtain r w1 where cw: "create_widget h self rig bone_name w = (r, w1)"
    by (cases "create_widget h self rig bone_name w")
  with assms have r: "r = Inr (Some obj)"
    and w': "w' = from_pydata obj (box_verts size' pos) box_edges box_faces w1"
    by (auto simp: create_box_widget_def split: sum.splits option.splits)
  from create_widget_Some [OF cw [unfolded r]] show ?thesis
    unfolding w' by (rule from_pydata_widget_mesh)
qed

text \<open>
  Claim C6, amended. The vertices of the sphere and of the ring are literal vertices,
  each scaled by the size and with the position added to its second coordinate. The
  vertices of the box are literal vertices with the first and third coordinate scaled by
  the size and the position added to the second, which is not scaled. The sphere has 26
  vertices; the ring has 12 vertices, 12 edges, edge \<open>i\<close> joining vertex \<open>i + 1\<close> (modulo
  12) to vertex \<open>i\<close>, a single closed cycle through all vertices, and no face; the box
  has 8 vertices, 12 edges and 6 faces of four vertices each. Whatever the rig, the
  bone and the state, a widget that is created gets exactly these tables as its mesh.
\<close>

theorem widget_tables:
  "sphere_verts size' pos = map (scaled_offset size' pos) (sphere_verts 1 0) \<and>
   ring_verts size' pos = map (scaled_offset size' pos) (ring_verts 1 0) \<and>
   box_verts size' pos = map (scaled_xz_offset size' pos) (box_verts 1 0) \<and>
   length (sphere_verts size' pos) = 26 \<and>
   length (ring_verts size' pos) = 12 \<and>
   length ring_edges = 12 \<and>
   ring_edges = map (\<lambda>i. (Suc i mod 12, i)) [0..<12] \<and>
   ring_faces = [] \<and>
   length (box_verts size' pos) = 8 \<and>
   length box_edges = 12 \<and>
   length box_faces = 6 \<and>
   (\<forall>f\<in>set box_faces. length f = 4) \<and>
   (create_sphere_widget h self rig bone_name size' pos w = (Inr (Some obj), w') \<longrightarrow>
      widget_mesh w' obj = Some (sphere_verts size' pos, sphere_edges, sphere_faces)) \<and>
   (create_ring_widget h self rig bone_name size' pos w = (Inr (Some obj), w') \<longrightarrow>
      widget_mesh w' obj = Some (ring_verts size' pos, ring_edges, ring_faces)) \<and>
   (create_box_widget h self rig bone_name size' pos w = (Inr (Some obj), w') \<longrightarrow>
      widget_mesh w' obj = Some (box_verts size' pos, box_edges, box_faces))"
  by (intro conjI impI sphere_verts_scaled ring_verts_scaled box_verts_scaled table_lengths
      ring_edges_cycle box_faces_quads create_sphere_widget_mesh create_ring_widget_mesh
      create_box_widget_mesh; assumption)

lemma example_box_widget:
  "fst (create_box_widget example_host example_widget_props (Some 2) ''leg'' 2 0.5 example_pose_world)
     = Inr (Some 6)"
  by (simp add: create_box_widget_def create_widget_def Let_def example_widget_props_def
      example_pose_world_simps example_objects_simps example_objects_Suc_simps example_host_def
      example_pose_world_def example_world_def)

text \<open>A box widget for the bone \<open>leg\<close> of the example scene, of size 2 at position 0.5.\<close>

theorem widget_tables_witness:
  "create_box_widget example_host example_widget_props (Some 2) ''leg'' 2 0.5 example_pose_world =
     (Inr (Some 6),
      snd (create_box_widget example_host example_widget_props (Some 2) ''leg'' 2 0.5 example_pose_world)) \<and>
   widget_mesh
     (snd (create_box_widget example_host example_widget_props (Some 2) ''leg'' 2 0.5 example_pose_world)) 6
     = Some (box_verts 2 0.5, box_edges, box_faces) \<and>
   box_verts 2 0.5 ! 0 = (- 1, 0, - 1) \<and>
   [4, 5, 1, 0] \<in> set box_faces \<and> length [4, 5, 1, 0 :: nat] = 4"
proof -
  let ?r = "create_box_widget example_host example_widget_props (Some 2) ''leg'' 2 0.5 example_pose_world"
  have eq: "?r = (Inr (Some 6), snd ?r)"
    using example_box_widget by (metis prod.collapse)
  have v: "box_verts 1 0 ! 0 = (- 0.5, - 0.5, - 0.5)"
    by (simp add: box_verts_def)
  have f: "[4, 5, 1, 0] \<in> set box_faces"
    by (simp add: box_faces_def)
  note t = widget_tables [of 2 "0.5" example_host example_widget_props "Some 2" "''leg''"
      example_pose_world 6 "snd ?r"]
  from t eq have m: "widget_mesh (snd ?r) 6 = Some (box_verts 2 0.5, box_edges, box_faces)"
    by blast
  from t have "box_verts 2 0.5 = map (scaled_xz_offset 2 0.5) (box_verts 1 0)"
    and "length (box_verts 1 0) = 8"
    using table_lengths(5) by blast+
  then have "box_verts 2 0.5 ! 0 = scaled_xz_offset 2 0.5 (box_verts 1 0 ! 0)"
    by simp
  then have "box_verts 2 0.5 ! 0 = (- 1, 0, - 1)"
    by (simp add: v scaled_xz_offset_def)
  then show ?thesis using eq m f by simp
qed

subsection \<open>What the operators leave alone\<close>

lemma outside_update [simp]:
  "outside_scene (update_object i f w) = outside_scene w"
  "outside_scene (update_mesh j g w) = outside_scene w"
  "outside_scene (update_bone r b w) = outside_scene w"
  by (simp_all add: outside_scene_def update_mesh_def)

lemma outside_fold:
  "(\<And>x w. outside_scene (f x w) = outside_scene w) \<Longrightarrow> outside_scene (fold f xs w) = outside_scene w"
  by (induction xs arbitrary: w) simp_all

lemma outside_for_objects [simp]: "outside_scene (for_objects ids f w) = outside_scene w"
  unfolding for_objects_def by (rule outside_fold) simp

lemma outside_for_bones [simp]: "outside_scene (for_bones rs f w) = outside_scene w"
  unfolding for_bones_def by (rule outside_fold) simp

lemma outside_shape_key_remove [simp]: "outside_scene (shape_key_remove w) = outside_scene w"
  by (simp add: shape_key_remove_def split: option.splits)

lemma outside_modifier_apply [simp]: "outside_scene (modifier_apply h n w) = outside_scene w"
  by (simp add: modifier_apply_def Let_def split: option.splits)

lemma outside_copy_custom_shape [simp]:
  "outside_scene (copy_custom_shape src j armature w) = outside_scene w"
  by (simp add: copy_custom_shape_def Let_def split: option.splits)

lemma outside_create_widget [simp]:
  "outside_scene (snd (create_widget h self rig bone_name w)) = outside_scene w"
  by (simp add: create_widget_def Let_def outside_scene_def split: option.splits sum.splits prod.splits)

lemma outside_from_pydata [simp]: "outside_scene (from_pydata obj vs es fs w) = outside_scene w"
  by (simp add: from_pydata_def split: option.splits)

lemma outside_create_widgets [simp]:
  "outside_scene (snd (create_sphere_widget h self rig bone_name size' pos w)) = outside_scene w"
  "outside_scene (snd (create_ring_widget h self rig bone_name size' pos w)) = outside_scene w"
  "outside_scene (snd (create_box_widget h self rig bone_name size' pos w)) = outside_scene w"
proof -
  obtain r w1 where cw: "create_widget h self rig bone_name w = (r, w1)"
    by (cases "create_widget h self rig bone_name w")
  with outside_create_widget [of h self rig bone_name w] have "outside_scene w1 = outside_scene w"
    by simp
  then show
    "outside_scene (snd (create_sphere_widget h self rig bone_name size' pos w)) = outside_scene w"
    "outside_scene (snd (create_ring_widget h self rig bone_name size' pos w)) = outside_scene w"
    "outside_scene (snd (create_box_widget h self rig bone_name size' pos w)) = outside_scene w"
    using cw
    by (simp_all add: create_sphere_widget_def create_ring_widget_def create_box_widget_def
        split: sum.splits option.splits)
qed


lemma outside_create_hook [simp]: "outside_scene (create_hook h lrs a r w) = outside_scene w"
  by (simp add: create_hook_def Let_def)




















subsection \<open>ADH_CreateHookBones\<close>

lemma set_pose_simps [simp]:
  "pose_bones (objects (set_pose a bs w) a) = bs"
  "pose (objects (set_pose a bs w) a) = Some bs"
  "object.type (objects (set_pose a bs w) x) = object.type (objects w x)"
  "active_object (set_pose a bs w) = active_object w"
  "mode (set_pose a bs w) = mode w"
  "selected_bones (set_pose a bs w) = selected_bones w"
  "selected_pose_bones (set_pose a bs w) = selected_pose_bones w"
  "set_pose a bs (set_pose a bs' w) = set_pose a bs w"
  by (simp_all add: set_pose_def pose_bones_def update_object_def)

lemma get_bone_set_pose [simp]: "get_bone (set_pose a bs w) (a, k) = bs ! k"
  by (simp add: get_bone_def)

lemma create_hook_set_pose:
  "create_hook h lrs a (a, k) w =
   set_pose a
     (pose_bones (objects w a) @
      [(hook_created lrs (pose_bones (objects w a) ! k))
         \<lparr>bone.name :=
            stored_name (bone_unique_name h) (map bone.name (pose_bones (objects w a)))
              (take 63 (''hook-'' @ bone.name (pose_bones (objects w a) ! k)))\<rparr>]) w"
  by (simp add: create_hook_def set_pose_def Let_def get_bone_def hook_created_def edit_bones_new_def)

lemma hook_created_name [simp]: "bone.name (hook_created lrs b) = ''hook-'' @ bone.name b"
  by (simp add: hook_created_def)

lemma create_hook_fresh:
  assumes "length (bone.name (pose_bones (objects w a) ! k)) \<le> 58"
    and "''hook-'' @ bone.name (pose_bones (objects w a) ! k) \<notin>
         set (map bone.name (pose_bones (objects w a)))"
  shows "create_hook h lrs a (a, k) w =
     set_pose a (pose_bones (objects w a) @ [hook_created lrs (pose_bones (objects w a) ! k)]) w"
proof -
  let ?b = "pose_bones (objects w a) ! k"
  have "take 63 (''hook-'' @ bone.name ?b) = ''hook-'' @ bone.name ?b"
    using assms(1) by simp
  then have "stored_name (bone_unique_name h) (map bone.name (pose_bones (objects w a)))
      (take 63 (''hook-'' @ bone.name ?b)) = ''hook-'' @ bone.name ?b"
    using assms(2) by (simp add: stored_name_def)
  moreover have "(hook_created lrs ?b)\<lparr>bone.name := ''hook-'' @ bone.name ?b\<rparr> = hook_created lrs ?b"
    by (simp add: hook_created_def)
  ultimately show ?thesis
    by (simp only: create_hook_set_pose)
qed

lemma update_bone_set_pose:
  "pose (objects w a) = Some bs \<Longrightarrow> update_bone (a, h) f w = set_pose a (bs[h := f (bs ! h)]) w"
  by (simp add: update_bone_def set_pose_def update_object_def)

lemma hook_name_fresh:
  assumes "distinct (map (\<lambda>k. bone.name (bs ! k)) (k # ks))"
    and "''hook-'' @ bone.name (bs ! k) \<notin> set (map bone.name bs)"
  shows "''hook-'' @ bone.name (bs ! k) \<notin>
     set (map bone.name (bs @ map (\<lambda>k. hook_created lrs (bs ! k)) ks))"
proof
  assume "''hook-'' @ bone.name (bs ! k) \<in>
     set (map bone.name (bs @ map (\<lambda>k. hook_created lrs (bs ! k)) ks))"
  with assms(2) obtain k' where k': "k' \<in> set ks" "bone.name (bs ! k') = bone.name (bs ! k)"
    by auto
  with assms(1) show False by (auto simp: image_iff)
qed

lemma create_hooks:
  assumes "\<forall>k\<in>set (done @ todo). k < length bs"
    and "distinct (map (\<lambda>k. bone.name (bs ! k)) (done @ todo))"
    and "\<forall>k\<in>set (done @ todo). ''hook-'' @ bone.name (bs ! k) \<notin> set (map bone.name bs)"
    and "\<forall>k\<in>set todo. length (bone.name (bs ! k)) \<le> 58"
  shows "fold (create_hook h lrs a) (map (\<lambda>k. (a, k)) todo)
           (set_pose a (bs @ map (\<lambda>k. hook_created lrs (bs ! k)) done) w) =
         set_pose a (bs @ map (\<lambda>k. hook_created lrs (bs ! k)) (done @ todo)) w"
  using assms
proof (induction todo arbitrary: "done")
  case Nil
  show ?case by simp
next
  case (Cons k todo)
  let ?new = "\<lambda>k. hook_created lrs (bs ! k)"
  let ?cur = "bs @ map ?new done"
  from Cons.prems(1) have k: "k < length bs" by simp
  have nth: "?cur ! k = bs ! k" using k by (simp add: nth_append)
  have short: "length (bone.name (bs ! k)) \<le> 58" using Cons.prems(4) by simp
  have fresh: "''hook-'' @ bone.name (bs ! k) \<notin> set (map bone.name ?cur)"
  proof (rule hook_name_fresh)
    show "distinct (map (\<lambda>k. bone.name (bs ! k)) (k # done))" using Cons.prems(2) by auto
    show "''hook-'' @ bone.name (bs ! k) \<notin> set (map bone.name bs)" using Cons.prems(3) by simp
  qed
  have "create_hook h lrs a (a, k) (set_pose a ?cur w) = set_pose a (?cur @ [?new k]) w"
    using create_hook_fresh [of "set_pose a ?cur w" a k h lrs] short fresh
    by (simp add: nth del: map_append)
  then have step: "fold (create_hook h lrs a) (map (\<lambda>k. (a, k)) (k # todo)) (set_pose a ?cur w) =
      fold (create_hook h lrs a) (map (\<lambda>k. (a, k)) todo) (set_pose a (bs @ map ?new (done @ [k])) w)"
    by simp
  have p1: "\<forall>k\<in>set ((done @ [k]) @ todo). k < length bs" using Cons.prems(1) by simp
  have p2: "distinct (map (\<lambda>k. bone.name (bs ! k)) ((done @ [k]) @ todo))" using Cons.prems(2) by simp
  have p3: "\<forall>k\<in>set ((done @ [k]) @ todo). ''hook-'' @ bone.name (bs ! k) \<notin> set (map bone.name bs)"
    using Cons.prems(3) by simp
  have p4: "\<forall>k\<in>set todo. length (bone.name (bs ! k)) \<le> 58" using Cons.prems(4) by simp
  show ?case
    unfolding step using Cons.IH [OF p1 p2 p3 p4] by simp
qed

lemma find_bone_append:
  "n \<notin> set (map bone.name xs) \<Longrightarrow> find_bone (xs @ ys) n = map_option (\<lambda>i. length xs + i) (find_bone ys n)"
proof (induction xs)
  case Nil
  show ?case by (cases "find_bone ys n") simp_all
next
  case (Cons x xs)
  then show ?case by (cases "find_bone ys n") auto
qed

lemma constrain_hooks_step:
  assumes "pose (objects w a) = Some cur"
    and "get_bone w (a, k) = b"
    and "find_bone cur (''hook-'' @ bone.name b) = Some h"
  shows "constrain_hooks a ((a, k) # rs) w =
     constrain_hooks a rs
       (set_pose a (cur[h := (cur ! h)\<lparr>constraints := constraints (cur ! h) @
                                  [copy_transforms a (bone.name b)]\<rparr>]) w)"
  using assms by (simp add: Let_def pose_bones_def update_bone_set_pose)

lemma find_bone_head: "bone.name y = n \<Longrightarrow> find_bone (y # ys) n = Some 0"
  by simp

lemma constrain_hooks_all:
  assumes "\<forall>k\<in>set (done @ todo). k < length bs"
    and "distinct (map (\<lambda>k. bone.name (bs ! k)) (done @ todo))"
    and "\<forall>k\<in>set (done @ todo). ''hook-'' @ bone.name (bs ! k) \<notin> set (map bone.name bs)"
  shows "constrain_hooks a (map (\<lambda>k. (a, k)) todo)
           (set_pose a (bs @ map (\<lambda>k. hook_constrained lrs a (bs ! k)) done
                           @ map (\<lambda>k. hook_created lrs (bs ! k)) todo) w) =
         (None, set_pose a (bs @ map (\<lambda>k. hook_constrained lrs a (bs ! k)) (done @ todo)) w)"
  using assms
proof (induction todo arbitrary: "done")
  case Nil
  show ?case by simp
next
  case (Cons k todo)
  let ?fin = "\<lambda>k. hook_constrained lrs a (bs ! k)"
  let ?new = "\<lambda>k. hook_created lrs (bs ! k)"
  let ?cur = "bs @ map ?fin done @ map ?new (k # todo)"
  let ?n = "''hook-'' @ bone.name (bs ! k)"
  from Cons.prems(1) have k: "k < length bs" by simp
  have g: "get_bone (set_pose a ?cur w) (a, k) = bs ! k"
    using k by (simp add: nth_append)
  have fresh: "?n \<notin> set (map bone.name bs)"
    using Cons.prems(3) by simp
  have notdone: "?n \<notin> set (map bone.name (map ?fin done))"
  proof
    assume "?n \<in> set (map bone.name (map ?fin done))"
    then obtain k' where k': "k' \<in> set done" "bone.name (bs ! k') = bone.name (bs ! k)"
      by (auto simp: hook_constrained_def hook_created_def)
    with Cons.prems(2) show False by (auto simp: image_iff)
  qed
  define cur where "cur = ?cur"
  have fb: "find_bone cur ?n = Some (length bs + length done)"
    unfolding cur_def using fresh notdone
    by (simp add: find_bone_append hook_created_def del: map_map)
  have upd: "cur[length bs + length done :=
        (cur ! (length bs + length done))
          \<lparr>constraints := constraints (cur ! (length bs + length done)) @
              [copy_transforms a (bone.name (bs ! k))]\<rparr>]
      = bs @ map ?fin (done @ [k]) @ map ?new todo"
    unfolding cur_def
    by (simp add: list_update_append nth_append hook_constrained_def hook_created_def
        copy_transforms_def constraints_new_def)
  have g': "get_bone (set_pose a cur w) (a, k) = bs ! k"
    using g by (simp add: cur_def)
  have "constrain_hooks a ((a, k) # map (\<lambda>k. (a, k)) todo) (set_pose a cur w) =
      constrain_hooks a (map (\<lambda>k. (a, k)) todo)
        (set_pose a (bs @ map ?fin (done @ [k]) @ map ?new todo) (set_pose a cur w))"
    using constrain_hooks_step [of "set_pose a cur w" a cur k "bs ! k" "length bs + length done"
        "map (\<lambda>k. (a, k)) todo"] g' fb
    by (simp only: upd set_pose_simps(2))
  then have step: "constrain_hooks a (map (\<lambda>k. (a, k)) (k # todo)) (set_pose a ?cur w) =
      constrain_hooks a (map (\<lambda>k. (a, k)) todo)
        (set_pose a (bs @ map ?fin (done @ [k]) @ map ?new todo) w)"
    by (simp add: cur_def)
  have p1: "\<forall>k\<in>set ((done @ [k]) @ todo). k < length bs" using Cons.prems(1) by simp
  have p2: "distinct (map (\<lambda>k. bone.name (bs ! k)) ((done @ [k]) @ todo))" using Cons.prems(2) by simp
  have p3: "\<forall>k\<in>set ((done @ [k]) @ todo). ''hook-'' @ bone.name (bs ! k) \<notin> set (map bone.name bs)"
    using Cons.prems(3) by simp
  show ?case
    unfolding step using Cons.IH [OF p1 p2 p3] by simp
qed

lemma set_pose_same: "pose (objects w a) = Some bs \<Longrightarrow> set_pose a bs w = w"
proof -
  assume p: "pose (objects w a) = Some bs"
  have "(objects w a)\<lparr>pose := Some bs\<rparr> = objects w a"
    using p by (cases "objects w a") simp
  then show ?thesis
    by (simp add: set_pose_def update_object_def)
qed

lemma selected_refs_set_pose:
  "selected_refs (set_pose a bs w) a =
   map (\<lambda>k. (a, k)) (filter (\<lambda>k. select (bs ! k)) [0..<length bs])"
  by (simp add: selected_refs_def)

lemma filter_positions_append_unselected:
  assumes "\<forall>h\<in>set hs. \<not> select h"
  shows "filter (\<lambda>k. select ((bs @ hs) ! k)) [0..<length (bs @ hs)] =
         filter (\<lambda>k. select (bs ! k)) [0..<length bs]"
proof -
  have split: "[0..<length (bs @ hs)] = [0..<length bs] @ [length bs..<length bs + length hs]"
    using upt_add_eq_append [of 0 "length bs" "length hs"] by simp
  have a: "filter (\<lambda>k. select ((bs @ hs) ! k)) [0..<length bs] = filter (\<lambda>k. select (bs ! k)) [0..<length bs]"
    by (rule filter_cong) (simp_all add: nth_append)
  have b: "filter (\<lambda>k. select ((bs @ hs) ! k)) [length bs..<length bs + length hs] = []"
    using assms by (auto simp: filter_empty_conv nth_append)
  show ?thesis unfolding split by (simp only: filter_append a b append_Nil2)
qed

lemma map_nth_filter_positions:
  "map ((!) bs) (filter (\<lambda>k. P (bs ! k)) [0..<length bs]) = filter P bs"
proof -
  have "map ((!) bs) (filter (\<lambda>k. P (bs ! k)) [0..<length bs]) =
        filter P (map ((!) bs) [0..<length bs])"
    by (simp add: filter_map comp_def)
  then show ?thesis by (simp add: map_nth)
qed

lemma mode_set_armature:
  assumes "active_object w = Some a" and "object.type (objects w a) = ''ARMATURE''"
  shows "mode_set ''EDIT'' w = Inr (enter_mode ''EDIT_ARMATURE'' a w)"
    and "mode_set ''POSE'' w = Inr (enter_mode ''POSE'' a w)"
    and "mode_set ''OBJECT'' w = Inr (enter_mode ''OBJECT'' a w)"
  using assms by (simp_all add: mode_set_def)

lemma enter_mode_simps [simp]:
  "objects (enter_mode m a w) = objects w"
  "active_object (enter_mode m a w) = active_object w"
  "mode (enter_mode m a w) = m"
  "selected_bones (enter_mode m a w) =
     (if m = ''EDIT_ARMATURE'' then Some (selected_refs w a) else None)"
  "selected_pose_bones (enter_mode m a w) =
     (if m = ''POSE'' then Some (selected_refs w a) else None)"
  by (simp_all add: enter_mode_def)

lemma set_pose_objects_other:
  "objects (set_pose a bs w) a = (objects w a)\<lparr>pose := Some bs\<rparr>"
  by (simp add: set_pose_def)

lemma hook_created_unselected [simp]: "\<not> select (hook_created lrs b)"
  by (simp add: hook_created_def)

text \<open>
  What the operator does when no hook is in its way. Let the active object be an
  armature, in object, pose or edit mode, whose bones have different names, the names of
  the selected bones at most 58 bytes long and none of them, after \<open>hook-\<close>, the name of
  a bone. The operator returns \<^verbatim>\<open>FINISHED\<close> in the mode it was called in, and the bones
  of the armature are then the bones of before followed by one new bone for each
  selected bone, in their order: its name is \<open>hook-\<close> and the name of the bone, its head,
  tail and roll are the bone's, its b-bone sizes half the bone's, its layers the
  operator's property, and it has one constraint, of type \<^verbatim>\<open>COPY_TRANSFORMS\<close> with owner
  and target space \<^verbatim>\<open>LOCAL\<close>, the active armature as target and the bone as subtarget.
\<close>

lemma create_hook_bones_fresh:
  assumes a: "active_object w = Some a"
    and ty: "object.type (objects w a) = ''ARMATURE''"
    and md: "mode w = ''OBJECT'' \<or> mode w = ''POSE'' \<or> mode w = ''EDIT_ARMATURE''"
    and p: "pose (objects w a) = Some bs"
    and dn: "distinct (map bone.name bs)"
    and fr: "\<forall>b\<in>set bs. select b \<longrightarrow> ''hook-'' @ bone.name b \<notin> set (map bone.name bs)"
    and sh: "\<forall>b\<in>set bs. select b \<longrightarrow> length (bone.name b) \<le> 58"
  shows "fst (ADH_CreateHookBones_execute h self_hook_layers w) = Inr FINISHED \<and>
     mode (snd (ADH_CreateHookBones_execute h self_hook_layers w)) = mode w \<and>
     pose_bones (objects (snd (ADH_CreateHookBones_execute h self_hook_layers w)) a) =
       bs @ map (\<lambda>b.
           \<lparr>bone.name = ''hook-'' @ bone.name b, head = head b, tail = tail b, roll = roll b,
            bbone_x = bbone_x b / 2, bbone_z = bbone_z b / 2, bone.layers = self_hook_layers,
            select = False, custom_shape = None,
            constraints =
              [\<lparr>constraint.type = ''COPY_TRANSFORMS'', owner_space = ''LOCAL'',
                target_space = ''LOCAL'', target = Some a, subtarget = bone.name b\<rparr>]\<rparr>)
         (filter select bs)"
proof -
  let ?new = "\<lambda>k. hook_created self_hook_layers (bs ! k)"
  let ?fin = "\<lambda>k. hook_constrained self_hook_layers a (bs ! k)"
  define ks where "ks = filter (\<lambda>k. select (bs ! k)) [0..<length bs]"
  define refs where "refs = map (\<lambda>k. (a, k)) ks"
  have pb: "pose_bones (objects w a) = bs" using p by (simp add: pose_bones_def)
  have ks_lt: "\<forall>k\<in>set ks. k < length bs" by (simp add: ks_def)
  have ks_sel: "\<forall>k\<in>set ks. select (bs ! k)" by (simp add: ks_def)
  have ks_dist: "distinct ks" by (simp add: ks_def)
  have names: "distinct (map (\<lambda>k. bone.name (bs ! k)) ([] @ ks))"
  proof -
    have "inj_on (\<lambda>k. bone.name (bs ! k)) (set ks)"
    proof (rule inj_onI)
      fix x y assume "x \<in> set ks" "y \<in> set ks" "bone.name (bs ! x) = bone.name (bs ! y)"
      then have "x < length bs" "y < length bs" "map bone.name bs ! x = map bone.name bs ! y"
        using ks_lt by simp_all
      then show "x = y" using dn by (simp add: nth_eq_iff_index_eq del: nth_map)
    qed
    then show ?thesis using ks_dist by (simp add: distinct_map)
  qed
  have fresh: "\<forall>k\<in>set ([] @ ks). ''hook-'' @ bone.name (bs ! k) \<notin> set (map bone.name bs)"
    using fr ks_lt ks_sel by (metis append_Nil nth_mem)
  have short: "\<forall>k\<in>set ks. length (bone.name (bs ! k)) \<le> 58"
    using sh ks_lt ks_sel by (metis nth_mem)
  have lt: "\<forall>k\<in>set ([] @ ks). k < length bs" using ks_lt by simp
  \<comment> \<open>into edit mode\<close>
  define w1 where "w1 = enter_mode ''EDIT_ARMATURE'' a w"
  have m1: "mode_set ''EDIT'' w = Inr w1"
    unfolding w1_def by (rule mode_set_armature(1) [OF a ty])
  have a1: "active_object w1 = Some a" by (simp add: w1_def a)
  have sb1: "selected_bones w1 = Some refs"
    by (simp add: w1_def selected_refs_def pb ks_def refs_def)
  have p1: "pose (objects w1 a) = Some bs" by (simp add: w1_def p)
  \<comment> \<open>the first loop\<close>
  define w2 where "w2 = fold (create_hook h self_hook_layers a) refs w1"
  have w2: "w2 = set_pose a (bs @ map ?new ks) w1"
    using create_hooks [OF lt names fresh short, of h self_hook_layers a w1] set_pose_same [OF p1]
    by (simp add: w2_def refs_def)
  have a2: "active_object w2 = Some a" and ty2: "object.type (objects w2 a) = ''ARMATURE''"
    by (simp_all add: w2 w1_def a ty)
  \<comment> \<open>into pose mode\<close>
  define w3 where "w3 = enter_mode ''POSE'' a w2"
  have m2: "mode_set ''POSE'' w2 = Inr w3"
    unfolding w3_def by (rule mode_set_armature(2) [OF a2 ty2])
  have "filter (\<lambda>k. select ((bs @ map ?new ks) ! k)) [0..<length (bs @ map ?new ks)] =
        filter (\<lambda>k. select (bs ! k)) [0..<length bs]"
    by (rule filter_positions_append_unselected) simp
  then have "filter (\<lambda>k. select ((bs @ map ?new ks) ! k)) [0..<length (bs @ map ?new ks)] = ks"
    by (simp only: ks_def)
  then have sp3: "selected_pose_bones w3 = Some refs"
    by (simp add: w3_def w2 selected_refs_def refs_def del: length_append)
  have p3: "pose (objects w3 a) = Some (bs @ map ?new ks)" by (simp add: w3_def w2)
  have a3: "active_object w3 = Some a" and ty3: "object.type (objects w3 a) = ''ARMATURE''"
    by (simp_all add: w3_def a2 ty2)
  \<comment> \<open>the second loop\<close>
  define w4 where "w4 = set_pose a (bs @ map ?fin ks) w3"
  have c: "constrain_hooks a refs w3 = (None, w4)"
    using constrain_hooks_all [OF lt names fresh, of a self_hook_layers w3] set_pose_same [OF p3]
    by (simp add: refs_def w4_def)
  have a4: "active_object w4 = Some a" and ty4: "object.type (objects w4 a) = ''ARMATURE''"
    by (simp_all add: w4_def a3 ty3)
  \<comment> \<open>back to the mode of before\<close>
  define prev_mode where "prev_mode = (if mode w = ''EDIT_ARMATURE'' then ''EDIT'' else mode w)"
  have m3: "mode_set prev_mode w4 = Inr (enter_mode (mode w) a w4)"
    using md mode_set_armature [OF a4 ty4] by (auto simp: prev_mode_def)
  have ex: "ADH_CreateHookBones_execute h self_hook_layers w =
      (Inr FINISHED, enter_mode (mode w) a w4)"
    by (simp add: ADH_CreateHookBones_execute_def Let_def m1 a1 sb1 w2_def [symmetric] m2 sp3 c
        prev_mode_def [symmetric] m3)
  have "map ?fin ks = map (hook_constrained self_hook_layers a) (map ((!) bs) ks)"
    by (simp add: comp_def)
  moreover have "map ((!) bs) ks = filter select bs"
    unfolding ks_def by (rule map_nth_filter_positions)
  ultimately have "map ?fin ks = map (hook_constrained self_hook_layers a) (filter select bs)"
    by simp
  then have "pose_bones (objects w4 a) =
      bs @ map (hook_constrained self_hook_layers a) (filter select bs)"
    by (simp add: w4_def)
  then show ?thesis
    unfolding ex by (simp add: hook_constrained_def hook_created_def)
qed

lemma example_hooked_world_simps:
  "active_object example_hooked_world = Some 5"
  "mode example_hooked_world = ''POSE''"
  "objects example_hooked_world = example_objects"
  by (simp_all add: example_hooked_world_def example_world_def)

lemma example_objects_pose5:
  "pose (example_objects 5) =
     Some [example_bone ''spine'' True None, example_bone ''hook-spine'' False None]"
  by (simp add: example_objects_def example_object_def)

text \<open>
  Claim C5, every selected bone gets a hook that is constrained to it, against the code:
  the run below ends with a new bone that has no constraint. The bone \<open>spine\<close> of the
  third armature of the example scene is selected and a bone \<open>hook-spine\<close> exists, as it
  does after a first run of the operator. The run returns \<^verbatim>\<open>FINISHED\<close> and adds one bone,
  a copy of \<open>spine\<close>, to which the host gives the name \<open>hook-spine.001\<close>. The second loop
  looks the hook up by the name it asked for, \<^verbatim>\<open>pose.bones['hook-spine']\<close>, finds the bone
  that was there before and puts the constraint on it: the new bone is left without a
  constraint.
\<close>

theorem create_hook_bones_existing_hook:
  "select (get_bone example_hooked_world (5, 0)) \<and>
   map bone.name (pose_bones (objects example_hooked_world 5)) = [''spine'', ''hook-spine''] \<and>
   fst (ADH_CreateHookBones_execute example_host example_hook_layers example_hooked_world) =
     Inr FINISHED \<and>
   map bone.name
     (pose_bones (objects (snd (ADH_CreateHookBones_execute example_host example_hook_layers
       example_hooked_world)) 5)) = [''spine'', ''hook-spine'', ''hook-spine.001''] \<and>
   head (get_bone (snd (ADH_CreateHookBones_execute example_host example_hook_layers
       example_hooked_world)) (5, 2)) = head (get_bone example_hooked_world (5, 0)) \<and>
   constraints (get_bone (snd (ADH_CreateHookBones_execute example_host example_hook_layers
       example_hooked_world)) (5, 2)) = [] \<and>
   constraints (get_bone (snd (ADH_CreateHookBones_execute example_host example_hook_layers
       example_hooked_world)) (5, 1)) = [copy_transforms 5 ''spine'']"
proof -
  let ?w = example_hooked_world
  let ?L = example_hook_layers
  let ?bs = "[example_bone ''spine'' True None, example_bone ''hook-spine'' False None]"
  let ?hook = "(hook_created ?L (example_bone ''spine'' True None))\<lparr>bone.name := ''hook-spine.001''\<rparr>"
  have a: "active_object ?w = Some 5" and ty: "object.type (objects ?w 5) = ''ARMATURE''"
    and p: "pose (objects ?w 5) = Some ?bs"
    by (simp_all add: example_hooked_world_simps example_objects_simps example_objects_pose5)
  have ks: "filter (\<lambda>k. select (?bs ! k)) [0..<length ?bs] = [0]"
    by (simp add: example_bone_def upt_rec)
  define w1 where "w1 = enter_mode ''EDIT_ARMATURE'' 5 ?w"
  have m1: "mode_set ''EDIT'' ?w = Inr w1"
    unfolding w1_def by (rule mode_set_armature(1) [OF a ty])
  have a1: "active_object w1 = Some 5" by (simp add: w1_def a)
  have p1: "pose (objects w1 5) = Some ?bs" by (simp add: w1_def p)
  have pb1: "pose_bones (objects w1 5) = ?bs" using p1 by (simp add: pose_bones_def)
  have sb1: "selected_bones w1 = Some [(5, 0)]"
    using p ks by (simp add: w1_def selected_refs_def pose_bones_def)
  have st: "stored_name (bone_unique_name example_host) (map bone.name ?bs)
      (take 63 (''hook-'' @ bone.name (?bs ! 0))) = ''hook-spine.001''"
    using example_unique_name by (simp add: stored_name_def example_bone_def)
  define w2 where "w2 = create_hook example_host ?L 5 (5, 0) w1"
  have w2: "w2 = set_pose 5 (?bs @ [?hook]) w1"
    unfolding w2_def create_hook_set_pose pb1 st by simp
  have a2: "active_object w2 = Some 5" and ty2: "object.type (objects w2 5) = ''ARMATURE''"
    by (simp_all add: w2 w1_def a ty)
  define w3 where "w3 = enter_mode ''POSE'' 5 w2"
  have m2: "mode_set ''POSE'' w2 = Inr w3"
    unfolding w3_def by (rule mode_set_armature(2) [OF a2 ty2])
  have "filter (\<lambda>k. select ((?bs @ [?hook]) ! k)) [0..<length (?bs @ [?hook])] = [0]"
    by (simp add: example_bone_def upt_rec)
  then have sp3: "selected_pose_bones w3 = Some [(5, 0)]"
    by (simp add: w3_def w2 selected_refs_def del: length_append)
  have p3: "pose (objects w3 5) = Some (?bs @ [?hook])" by (simp add: w3_def w2)
  have a3: "active_object w3 = Some 5" and ty3: "object.type (objects w3 5) = ''ARMATURE''"
    by (simp_all add: w3_def a2 ty2)
  have g3: "get_bone w3 (5, 0) = example_bone ''spine'' True None"
    using p3 by (simp add: get_bone_def pose_bones_def)
  have f3: "find_bone (?bs @ [?hook]) (''hook-'' @ bone.name (example_bone ''spine'' True None)) = Some 1"
    by (simp add: example_bone_def)
  define w4 where "w4 = set_pose 5
      ((?bs @ [?hook])[1 := ((?bs @ [?hook]) ! 1)\<lparr>constraints := constraints ((?bs @ [?hook]) ! 1) @
          [copy_transforms 5 (bone.name (example_bone ''spine'' True None))]\<rparr>]) w3"
  have c: "constrain_hooks 5 [(5, 0)] w3 = (None, w4)"
    using constrain_hooks_step [OF p3 g3 f3, of "[]"] by (simp add: w4_def)
  have a4: "active_object w4 = Some 5" and ty4: "object.type (objects w4 5) = ''ARMATURE''"
    by (simp_all add: w4_def a3 ty3)
  have m3: "mode_set ''POSE'' w4 = Inr (enter_mode ''POSE'' 5 w4)"
    by (rule mode_set_armature(2) [OF a4 ty4])
  have ex: "ADH_CreateHookBones_execute example_host ?L ?w = (Inr FINISHED, enter_mode ''POSE'' 5 w4)"
    by (simp add: ADH_CreateHookBones_execute_def Let_def m1 a1 sb1 w2_def [symmetric] m2 sp3 c
        example_hooked_world_simps m3 del: constrain_hooks.simps)
  have bones: "pose_bones (objects (enter_mode ''POSE'' 5 w4) 5) =
      [example_bone ''spine'' True None,
       (example_bone ''hook-spine'' False None)
         \<lparr>constraints := [copy_transforms 5 ''spine'']\<rparr>,
       ?hook]"
    by (simp add: w4_def example_bone_def)
  show ?thesis
    unfolding ex
    using p bones
    by (simp add: get_bone_def pose_bones_def example_bone_def hook_created_def)
qed

text \<open>The armature \<open>rig\<close> of the example scene, with two of its three bones selected.\<close>

lemma create_hook_bones_fresh_example:
  "active_object example_pose_world = Some 2 \<and>
   object.type (objects example_pose_world 2) = ''ARMATURE'' \<and>
   mode example_pose_world = ''POSE'' \<and>
   map bone.name (pose_bones (objects example_pose_world 2)) = [''spine'', ''arm'', ''leg''] \<and>
   map select (pose_bones (objects example_pose_world 2)) = [True, False, True] \<and>
   fst (ADH_CreateHookBones_execute example_host example_hook_layers example_pose_world) = Inr FINISHED \<and>
   mode (snd (ADH_CreateHookBones_execute example_host example_hook_layers example_pose_world)) = ''POSE'' \<and>
   map bone.name
     (pose_bones (objects (snd (ADH_CreateHookBones_execute example_host example_hook_layers example_pose_world)) 2))
     = [''spine'', ''arm'', ''leg'', ''hook-spine'', ''hook-leg''] \<and>
   map constraints
     (pose_bones (objects (snd (ADH_CreateHookBones_execute example_host example_hook_layers example_pose_world)) 2))
     = [[], [], [],
        [\<lparr>constraint.type = ''COPY_TRANSFORMS'', owner_space = ''LOCAL'', target_space = ''LOCAL'',
          target = Some 2, subtarget = ''spine''\<rparr>],
        [\<lparr>constraint.type = ''COPY_TRANSFORMS'', owner_space = ''LOCAL'', target_space = ''LOCAL'',
          target = Some 2, subtarget = ''leg''\<rparr>]] \<and>
   map bbone_z
     (pose_bones (objects (snd (ADH_CreateHookBones_execute example_host example_hook_layers example_pose_world)) 2))
     = [0.2, 0.2, 0.2, 0.1, 0.1]"
proof -
  let ?bs = "[example_bone ''spine'' True (Some 1), example_bone ''arm'' False None,
           example_bone ''leg'' True None]"
  have a: "active_object example_pose_world = Some 2"
    and ty: "object.type (objects example_pose_world 2) = ''ARMATURE''"
    and md: "mode example_pose_world = ''OBJECT'' \<or> mode example_pose_world = ''POSE'' \<or>
             mode example_pose_world = ''EDIT_ARMATURE''"
    and p: "pose (objects example_pose_world 2) = Some ?bs"
    and dn: "distinct (map bone.name ?bs)"
    and fr: "\<forall>b\<in>set ?bs. select b \<longrightarrow> ''hook-'' @ bone.name b \<notin> set (map bone.name ?bs)"
    and sh: "\<forall>b\<in>set ?bs. select b \<longrightarrow> length (bone.name b) \<le> 58"
    by (simp_all add: example_pose_world_simps example_objects_simps example_objects_pose
        example_bone_def)
  note t = create_hook_bones_fresh [OF a ty md p dn fr sh, of example_host example_hook_layers]
  have pb: "pose_bones (objects example_pose_world 2) = ?bs"
    by (simp add: example_pose_world_simps example_objects_simps)
  show ?thesis
    using t a ty
    by (simp add: pb example_pose_world_simps example_objects_simps example_bone_def)
qed

end
